(* ===== verification/Prelude.thy ===== *)
theory Prelude
  imports Main "HOL-Library.AList"
begin

text \<open>
  Shared vocabulary of the development: the theorem collections the component
  theories fill and use, objects and dictionaries as association lists kept in
  the order in which their keys were inserted (as JavaScript objects are), the
  generic operations of the Ext library on such objects (\<open>Ext.apply\<close>,
  \<open>Ext.applyIf\<close>, \<open>Ext.keys\<close>, \<open>Ext.values\<close>), and list facts several components
  share.
\<close>

named_theorems obj_simps \<open>lookup after an update of an object\<close>
named_theorems inv_intros \<open>preservation of the invariants of the components\<close>

section \<open>Objects: association lists in insertion order\<close>

type_synonym 'v obj = "(string \<times> 'v) list"

definition keys_of :: "('k \<times> 'v) list \<Rightarrow> 'k list" where
  "keys_of ob = map fst ob"

definition values_of :: "('k \<times> 'v) list \<Rightarrow> 'v list" where
  "values_of ob = map snd ob"

definition has_key :: "('k \<times> 'v) list \<Rightarrow> 'k \<Rightarrow> bool" where
  "has_key ob k = (map_of ob k \<noteq> None)"

text \<open>\<open>o[k] = v\<close> keeps the position of a key that is present and appends a new one.\<close>

abbreviation put :: "'k \<Rightarrow> 'v \<Rightarrow> ('k \<times> 'v) list \<Rightarrow> ('k \<times> 'v) list" where
  "put k v ob \<equiv> AList.update k v ob"

abbreviation del :: "'k \<Rightarrow> ('k \<times> 'v) list \<Rightarrow> ('k \<times> 'v) list" where
  "del k ob \<equiv> AList.delete k ob"

text \<open>A well-formed object has each key once.\<close>

definition wf_obj :: "('k \<times> 'v) list \<Rightarrow> bool" where
  "wf_obj ob = distinct (map fst ob)"

fun apply_obj :: "('k \<times> 'v) list \<Rightarrow> ('k \<times> 'v) list \<Rightarrow> ('k \<times> 'v) list" where
  "apply_obj ob [] = ob"
| "apply_obj ob ((k, v) # cs) = apply_obj (put k v ob) cs"

lemma lookup_put [obj_simps]: "map_of (put k v ob) j = (if j = k then Some v else map_of ob j)"
  by (simp add: update_conv')

lemma lookup_del [obj_simps]: "map_of (del k ob) j = (if j = k then None else map_of ob j)"
  by (simp add: delete_conv')

lemma wf_obj_Nil [simp, inv_intros]: "wf_obj []"
  by (simp add: wf_obj_def)

lemma wf_obj_put [inv_intros]: "wf_obj ob \<Longrightarrow> wf_obj (put k v ob)"
  unfolding wf_obj_def by (rule distinct_update)

lemma wf_obj_del [inv_intros]: "wf_obj ob \<Longrightarrow> wf_obj (del k ob)"
  unfolding wf_obj_def by (rule distinct_delete)

lemma wf_obj_apply [inv_intros]: "wf_obj ob \<Longrightarrow> wf_obj (apply_obj ob cs)"
  by (induction ob cs rule: apply_obj.induct) (auto intro: wf_obj_put)

lemma put_neq_Nil [simp]: "put k v ob \<noteq> []"
  by (cases ob) (auto split: if_splits)

lemma lookup_apply_obj [obj_simps]:
  assumes "wf_obj cs"
  shows "map_of (apply_obj ob cs) k
    = (case map_of cs k of Some v \<Rightarrow> Some v | None \<Rightarrow> map_of ob k)"
  using assms
proof (induction ob cs rule: apply_obj.induct)
  case (1 ob)
  then show ?case by simp
next
  case (2 ob k' v cs)
  have "wf_obj cs" and "map_of cs k' = None"
    using 2(2) by (auto simp: wf_obj_def map_of_eq_None_iff)
  with 2(1) show ?case
    by (auto simp: lookup_put split: option.splits)
qed

lemma has_key_put [obj_simps]: "has_key (put k v ob) j = (j = k \<or> has_key ob j)"
  by (simp add: has_key_def lookup_put)

lemma has_key_del [obj_simps]: "has_key (del k ob) j = (j \<noteq> k \<and> has_key ob j)"
  by (simp add: has_key_def lookup_del)

lemma keys_of_put:
  "keys_of (put k v ob) = (if has_key ob k then keys_of ob else keys_of ob @ [k])"
  by (induction ob) (auto simp: keys_of_def has_key_def)

lemma put_same: "map_of ob k = Some v \<Longrightarrow> put k v ob = ob"
  by (induction ob) auto

lemma del_absent: "map_of ob k = None \<Longrightarrow> del k ob = ob"
  by (induction ob) (auto split: if_splits)

lemma in_put: "x \<in> set (put k v ob) \<Longrightarrow> x = (k, v) \<or> x \<in> set ob"
  by (induction ob) (auto split: if_splits)

lemma in_del: "x \<in> set (del k ob) \<Longrightarrow> x \<in> set ob"
  by (induction ob) (auto split: if_splits)

lemma set_keys_of: "set (keys_of ob) = {k. has_key ob k}"
  by (auto simp: keys_of_def has_key_def map_of_eq_None_iff)

section \<open>Lists\<close>

text \<open>The loops \<open>for (var k in o) f(k, o[k])\<close> and \<open>Ext.each(xs, f)\<close> over a state.\<close>

fun for_in :: "('k \<Rightarrow> 'v \<Rightarrow> 's \<Rightarrow> 's) \<Rightarrow> ('k \<times> 'v) list \<Rightarrow> 's \<Rightarrow> 's" where
  "for_in f [] s = s"
| "for_in f ((k, v) # ob) s = for_in f ob (f k v s)"

fun each_do :: "('a \<Rightarrow> 's \<Rightarrow> 's) \<Rightarrow> 'a list \<Rightarrow> 's \<Rightarrow> 's" where
  "each_do f [] s = s"
| "each_do f (x # xs) s = each_do f xs (f x s)"

lemma each_do_append [simp]: "each_do f (xs @ ys) s = each_do f ys (each_do f xs s)"
  by (induction f xs s rule: each_do.induct) auto

lemma for_in_append [simp]: "for_in f (xs @ ys) s = for_in f ys (for_in f xs s)"
  by (induction f xs s rule: for_in.induct) auto

lemma each_do_invariant:
  assumes "P s" and "\<And>x s. x \<in> set xs \<Longrightarrow> P s \<Longrightarrow> P (f x s)"
  shows "P (each_do f xs s)"
  using assms by (induction f xs s rule: each_do.induct) auto

lemma for_in_invariant:
  assumes "P s" and "\<And>k v s. (k, v) \<in> set ob \<Longrightarrow> P s \<Longrightarrow> P (f k v s)"
  shows "P (for_in f ob s)"
  using assms by (induction f ob s rule: for_in.induct) auto

text \<open>\<open>Array.indexOf\<close>, -1 when the element is absent.\<close>

fun index_of :: "'a \<Rightarrow> 'a list \<Rightarrow> int" where
  "index_of x [] = -1"
| "index_of x (y # ys) = (if x = y then 0 else (let i = index_of x ys in if i < 0 then -1 else i + 1))"

lemma index_of_range: "index_of x xs = -1 \<or> 0 \<le> index_of x xs \<and> index_of x xs < int (length xs)"
  by (induction x xs rule: index_of.induct) (auto simp: Let_def)

lemma index_of_absent: "index_of x xs = -1 \<longleftrightarrow> x \<notin> set xs"
proof (induction x xs rule: index_of.induct)
  case (2 x y ys)
  then show ?case using index_of_range[of x ys] by (auto simp: Let_def)
qed auto

text \<open>\<open>Array.remove\<close> of Ext: the first occurrence is dropped.\<close>

fun remove_first :: "'a \<Rightarrow> 'a list \<Rightarrow> 'a list" where
  "remove_first x [] = []"
| "remove_first x (y # ys) = (if x = y then ys else y # remove_first x ys)"

section \<open>Strings\<close>

text \<open>Decimal digits of an integer that is not negative.\<close>

definition digit_char :: "int \<Rightarrow> char" where
  "digit_char d = char_of (48 + d)"

function dec_str :: "int \<Rightarrow> string" where
  "dec_str n = (if n < 10 then [digit_char n] else dec_str (n div 10) @ [digit_char (n mod 10)])"
  by auto

termination dec_str
  by (relation "measure nat") auto

declare dec_str.simps [simp del]

definition int_str :: "int \<Rightarrow> string" where
  "int_str i = (if i < 0 then ''-'' @ dec_str (- i) else dec_str i)"

definition is_digit :: "char \<Rightarrow> bool" where
  "is_digit c = (48 \<le> (of_char c :: int) \<and> (of_char c :: int) \<le> 57)"

definition digit_val :: "char \<Rightarrow> int" where
  "digit_val c = of_char c - 48"

definition digits_val :: "string \<Rightarrow> int" where
  "digits_val s = foldl (\<lambda>n c. 10 * n + digit_val c) 0 s"

lemma of_char_digit:
  assumes "0 \<le> d" and "d < 10"
  shows "(of_char (digit_char d) :: int) = 48 + d"
proof -
  have "(48 + d) mod 256 = 48 + d" using assms by simp
  then show ?thesis by (simp add: digit_char_def)
qed

lemma is_digit_digit_char: "0 \<le> d \<Longrightarrow> d < 10 \<Longrightarrow> is_digit (digit_char d)"
  by (simp add: is_digit_def of_char_digit)

lemma digit_val_digit_char: "0 \<le> d \<Longrightarrow> d < 10 \<Longrightarrow> digit_val (digit_char d) = d"
  by (simp add: digit_val_def of_char_digit)

lemma dec_str_neq_Nil [simp]: "dec_str n \<noteq> []"
  by (subst dec_str.simps) simp

lemma digits_val_snoc: "digits_val (s @ [c]) = 10 * digits_val s + digit_val c"
  by (simp add: digits_val_def)

lemma digits_val_dec_str: "0 \<le> n \<Longrightarrow> digits_val (dec_str n) = n"
proof (induction n rule: dec_str.induct)
  case (1 n)
  show ?case
  proof (cases "n < 10")
    case True
    then show ?thesis
      using 1(2) by (subst dec_str.simps) (simp add: digits_val_def digit_val_digit_char)
  next
    case False
    then show ?thesis
      using 1 by (subst dec_str.simps) (simp add: digits_val_snoc digit_val_digit_char)
  qed
qed

lemma dec_str_digits: "0 \<le> n \<Longrightarrow> list_all is_digit (dec_str n)"
proof (induction n rule: dec_str.induct)
  case (1 n)
  then show ?case
    by (subst dec_str.simps) (auto simp: is_digit_digit_char)
qed

lemma dec_str_inject: "0 \<le> m \<Longrightarrow> 0 \<le> n \<Longrightarrow> dec_str m = dec_str n \<longleftrightarrow> m = n"
  by (metis digits_val_dec_str)

lemma dec_str_no_minus: "0 \<le> n \<Longrightarrow> dec_str n \<noteq> CHR ''-'' # s"
  using dec_str_digits[of n] by (auto simp: is_digit_def)

lemma int_str_inject: "int_str i = int_str j \<longleftrightarrow> i = j"
  using dec_str_no_minus[of i "dec_str (- j)"] dec_str_no_minus[of j "dec_str (- i)"]
    dec_str_inject[of i j] dec_str_inject[of "- i" "- j"]
  by (cases "i < 0"; cases "j < 0") (auto simp: int_str_def not_less)

text \<open>\<open>String.toLowerCase\<close> on the ASCII letters.\<close>

definition lower_char :: "char \<Rightarrow> char" where
  "lower_char c = (let n = (of_char c :: int) in
     if 65 \<le> n \<and> n \<le> 90 then char_of (n + 32) else c)"

definition lower :: "string \<Rightarrow> string" where
  "lower s = map lower_char s"

definition upper_char :: "char \<Rightarrow> char" where
  "upper_char c = (let n = (of_char c :: int) in if 97 \<le> n \<and> n \<le> 122 then char_of (n - 32) else c)"

lemma lower_char_idem [simp]: "lower_char (lower_char c) = lower_char c"
  by (simp add: lower_char_def Let_def)

lemma lower_idem [simp]: "lower (lower s) = lower s"
  by (simp add: lower_def)

lemma length_lower [simp]: "length (lower s) = length s"
  by (simp add: lower_def)

text \<open>\<open>Array.join\<close>.\<close>

fun join_str :: "string \<Rightarrow> string list \<Rightarrow> string" where
  "join_str sep [] = []"
| "join_str sep [x] = x"
| "join_str sep (x # y # xs) = x @ sep @ join_str sep (y # xs)"

lemma index_of_nth: "distinct xs \<Longrightarrow> n < length xs \<Longrightarrow> index_of (xs ! n) xs = int n"
  by (induction xs arbitrary: n) (auto simp: nth_Cons Let_def split: nat.splits)

fun split_char :: "char \<Rightarrow> string \<Rightarrow> string list" where
  "split_char d [] = [[]]"
| "split_char d (c # cs) = (if c = d then [] # split_char d cs
     else (case split_char d cs of [] \<Rightarrow> [[c]] | p # ps \<Rightarrow> (c # p) # ps))"

lemma split_char_absent: "d \<notin> set s \<Longrightarrow> split_char d s = [s]"
  by (induction s) auto

lemma split_char_neq_Nil [simp]: "split_char d s \<noteq> []"
  by (induction s) (auto split: list.splits)

text \<open>Splitting and joining with the same character.\<close>

lemma join_split: "join_str [d] (split_char d s) = s"
proof (induction s)
  case (Cons c cs)
  obtain p ps where "split_char d cs = p # ps" by (metis neq_Nil_conv split_char_neq_Nil)
  then show ?case using Cons by (cases ps) auto
qed simp

end
