(* ===== verification/JSDouble.thy ===== *)
theory JSDouble
  imports Complex_Main "HOL-Library.Log_Nat" Prelude
begin

text \<open>
  The numbers of the language: IEEE 754 doubles. A finite double is kept as the
  rational it denotes; the result of an arithmetic operation is the exact
  rational result rounded to the nearest double, ties to even (\<open>fl\<close>). The
  formatting primitives \<open>toFixed\<close>, \<open>Math.round\<close> and \<open>Math.floor\<close> are specified by
  the language on the exact value, and are written that way. The sign of zero is
  not kept: none of the modelled code observes it.
\<close>

section \<open>Rounding to the nearest double\<close>

definition ilog2 :: "rat \<Rightarrow> int" where
  "ilog2 x = (case quotient_of x of (p, q) \<Rightarrow>
     let e = bitlen p - bitlen q in if 2 powi e \<le> x then e else e - 1)"

definition rne :: "rat \<Rightarrow> int" where
  "rne x = (let f = \<lfloor>x\<rfloor>; d = x - of_int f in
     if d < 1 / 2 then f else if 1 / 2 < d then f + 1 else if even f then f else f + 1)"

definition ulp_exp :: "rat \<Rightarrow> int" where
  "ulp_exp x = max (ilog2 \<bar>x\<bar> - 52) (-1074)"

definition fl :: "rat \<Rightarrow> rat" where
  "fl x = (if x = 0 then 0
     else let e = ulp_exp x in of_int (rne (x / 2 powi e)) * 2 powi e)"

definition double_overflow :: rat where
  "double_overflow = 2 powi 1024"

definition max_double :: rat where
  "max_double = (2 - 2 powi -52) * 2 powi 1023"

lemma ilog2_bounds:
  assumes "0 < x"
  shows "2 powi ilog2 x \<le> x" and "x < 2 powi (ilog2 x + 1)"
proof -
  obtain p q where pq: "quotient_of x = (p, q)" by fastforce
  have q: "0 < q" using pq by (rule quotient_of_denom_pos)
  have x: "x = of_int p / of_int q" using pq by (rule quotient_of_div)
  have p: "0 < p" using assms x q by (simp add: zero_less_divide_iff)
  define bp bq where "bp = nat (bitlen p)" and "bq = nat (bitlen q)"
  have bpq: "1 \<le> bp" "1 \<le> bq" "bitlen p = int bp" "bitlen q = int bq"
    using bitlen_eq_zero_iff[of p] bitlen_eq_zero_iff[of q] bitlen_nonneg[of p] bitlen_nonneg[of q] p q
    by (auto simp: bp_def bq_def)
  have pz: "2 ^ (bp - 1) \<le> p" "p < 2 ^ bp" and qz: "2 ^ (bq - 1) \<le> q" "q < 2 ^ bq"
    using bitlen_bounds[OF p] bitlen_bounds[OF q] bpq by (simp_all add: nat_diff_distrib)
  have p1: "(2::rat) ^ (bp - 1) \<le> of_int p" and p2: "of_int p < (2::rat) ^ bp"
    using pz of_int_le_iff[where 'a=rat, of "2 ^ (bp - 1)" p] of_int_less_iff[where 'a=rat, of p "2 ^ bp"]
    by (simp_all only: of_int_power of_int_numeral)
  have q1: "(2::rat) ^ (bq - 1) \<le> of_int q" and q2: "of_int q < (2::rat) ^ bq"
    using qz of_int_le_iff[where 'a=rat, of "2 ^ (bq - 1)" q] of_int_less_iff[where 'a=rat, of q "2 ^ bq"]
    by (simp_all only: of_int_power of_int_numeral)
  have lo: "2 powi (int bp - int bq - 1) \<le> x"
  proof -
    have "2 powi (int bp - int bq - 1) = (2::rat) ^ (bp - 1) / 2 ^ bq"
      using bpq by (simp add: power_int_diff power_diff power_int_add)
    also have "\<dots> \<le> of_int p / of_int q"
      by (rule frac_le) (use p1 q2 q p in auto)
    finally show ?thesis using x by simp
  qed
  have hi: "x < 2 powi (int bp - int bq + 1)"
  proof -
    have "of_int p / of_int q < (2::rat) ^ bp / 2 ^ (bq - 1)"
      by (rule frac_less) (use p2 q1 q p in auto)
    also have "\<dots> = 2 powi (int bp - int bq + 1)"
      using bpq by (simp add: power_int_diff power_diff power_int_add)
    finally show ?thesis using x by simp
  qed
  show "2 powi ilog2 x \<le> x" and "x < 2 powi (ilog2 x + 1)"
    using lo hi by (auto simp: ilog2_def pq bpq Let_def)
qed

lemma ilog2_unique:
  assumes "2 powi e \<le> x" and "x < 2 powi (e + 1)"
  shows "ilog2 x = e"
proof -
  have x: "0 < x" using assms(1) by (rule less_le_trans[rotated]) simp
  note b = ilog2_bounds[OF x]
  have "(2::rat) powi e < 2 powi (ilog2 x + 1)" and "(2::rat) powi ilog2 x < 2 powi (e + 1)"
    using b assms by linarith+
  then have "e < ilog2 x + 1" and "ilog2 x < e + 1"
    using power_int_increasing[of "ilog2 x + 1" e "2::rat"] power_int_increasing[of "e + 1" "ilog2 x" "2::rat"]
    by (auto simp: not_le[symmetric])
  then show ?thesis by linarith
qed

lemma rne_of_int [simp]: "rne (of_int n) = n"
  by (simp add: rne_def)

lemma rne_error: "\<bar>of_int (rne x) - x\<bar> \<le> 1 / 2"
  unfolding rne_def Let_def by (auto simp: abs_if; linarith)

lemma fl_0 [simp]: "fl 0 = 0"
  by (simp add: fl_def)

lemma fl_error: "\<bar>fl x - x\<bar> \<le> 2 powi ulp_exp x / 2"
proof (cases "x = 0")
  case False
  define e where "e = ulp_exp x"
  have "fl x - x = (of_int (rne (x / 2 powi e)) - x / 2 powi e) * 2 powi e"
    using False by (simp add: fl_def e_def Let_def left_diff_distrib)
  then have "\<bar>fl x - x\<bar> = \<bar>of_int (rne (x / 2 powi e)) - x / 2 powi e\<bar> * 2 powi e"
    by (simp add: abs_mult)
  also have "\<dots> \<le> 1 / 2 * 2 powi e"
    by (intro mult_right_mono rne_error) simp
  finally show ?thesis by (simp add: e_def)
qed simp

lemma ulp_exp_le:
  assumes "\<bar>x\<bar> < 2 powi (k + 53)" and "-1074 \<le> k" and "x \<noteq> 0"
  shows "ulp_exp x \<le> k"
proof -
  have "(2::rat) powi ilog2 \<bar>x\<bar> < 2 powi (k + 53)"
    using ilog2_bounds(1)[of "\<bar>x\<bar>"] assms by simp
  then have "ilog2 \<bar>x\<bar> < k + 53"
    using power_int_increasing[of "k + 53" "ilog2 \<bar>x\<bar>" "2::rat"] by (force simp: not_le[symmetric])
  then show ?thesis using assms(2) by (simp add: ulp_exp_def)
qed

lemma fl_error_bound:
  assumes "\<bar>x\<bar> < 2 powi (k + 53)" and "-1074 \<le> k"
  shows "\<bar>fl x - x\<bar> \<le> 2 powi (k - 1)"
proof (cases "x = 0")
  case False
  have "\<bar>fl x - x\<bar> \<le> 2 powi ulp_exp x / 2" by (rule fl_error)
  also have "\<dots> \<le> 2 powi k / 2"
    using ulp_exp_le[OF assms False] by (intro divide_right_mono power_int_increasing) auto
  also have "\<dots> = 2 powi (k - 1)" by (simp add: power_int_diff)
  finally show ?thesis .
qed simp

lemma fl_exact:
  assumes "\<bar>m\<bar> < 2 ^ 53" and "-1074 \<le> k"
  shows "fl (of_int m * 2 powi k) = of_int m * 2 powi k"
proof (cases "m = 0")
  case False
  let ?x = "of_int m * 2 powi k :: rat"
  have "\<bar>of_int m\<bar> < (2::rat) ^ 53"
    using assms(1) by (metis of_int_abs of_int_less_iff of_int_numeral of_int_power)
  then have "\<bar>?x\<bar> < 2 powi (k + 53)"
    by (simp add: abs_mult power_int_add mult.commute)
  then have le: "ulp_exp ?x \<le> k"
    using assms(2) False by (intro ulp_exp_le) auto
  define j where "j = nat (k - ulp_exp ?x)"
  have k: "(2::rat) powi k = 2 powi ulp_exp ?x * 2 ^ j"
    using le by (simp add: j_def power_int_add[symmetric] flip: power_int_of_nat)
  have "?x / 2 powi ulp_exp ?x = of_int (m * 2 ^ j)"
    by (subst k) simp
  then have "rne (?x / 2 powi ulp_exp ?x) = m * 2 ^ j"
    by (simp only: rne_of_int)
  then show ?thesis
    using False k by (simp add: fl_def Let_def mult.assoc mult.commute)
qed simp

lemma fl_of_int [simp]: "\<bar>m\<bar> < 2 ^ 53 \<Longrightarrow> fl (of_int m) = of_int m"
  using fl_exact[of m 0] by simp

section \<open>Decimal output\<close>

text \<open>\<open>toFixed\<close> picks the integer n for which n / 10^f - x is as close to zero as possible, the
  larger one on a tie, and prints the sign of x first.\<close>

definition fixed_int :: "nat \<Rightarrow> rat \<Rightarrow> int" where
  "fixed_int f x = \<lfloor>\<bar>x\<bar> * 10 ^ f + 1 / 2\<rfloor>"

definition pad_left :: "nat \<Rightarrow> string \<Rightarrow> string" where
  "pad_left n s = replicate (n - length s) CHR ''0'' @ s"

definition to_fixed :: "nat \<Rightarrow> rat \<Rightarrow> string" where
  "to_fixed f x = (let n = fixed_int f x; m = dec_str n; sgn = (if x < 0 then ''-'' else []) in
     if f = 0 then sgn @ m
     else let p = pad_left (f + 1) m; k = length p - f in sgn @ take k p @ ''.'' @ drop k p)"

lemma fixed_int_error: "\<bar>of_int (fixed_int f x) / 10 ^ f - \<bar>x\<bar>\<bar> \<le> 1 / (2 * 10 ^ f)"
proof -
  let ?y = "\<bar>x\<bar> * 10 ^ f + 1 / 2"
  have n: "fixed_int f x = \<lfloor>?y\<rfloor>"
    by (simp add: fixed_int_def)
  have "of_int \<lfloor>?y\<rfloor> \<le> ?y" "?y < of_int \<lfloor>?y\<rfloor> + 1" by linarith+
  then have "\<bar>of_int \<lfloor>?y\<rfloor> - \<bar>x\<bar> * 10 ^ f\<bar> \<le> 1 / 2" by linarith
  then have "\<bar>of_int \<lfloor>?y\<rfloor> - \<bar>x\<bar> * 10 ^ f\<bar> / 10 ^ f \<le> 1 / 2 / 10 ^ f"
    by (rule divide_right_mono) simp
  moreover have "\<bar>of_int \<lfloor>?y\<rfloor> - \<bar>x\<bar> * 10 ^ f\<bar> / 10 ^ f = \<bar>of_int \<lfloor>?y\<rfloor> / 10 ^ f - \<bar>x\<bar>\<bar>"
    by (subst abs_div_pos) (simp_all add: diff_divide_distrib)
  ultimately show ?thesis using n by (simp add: field_simps)
qed

text \<open>\<open>Math.floor\<close> and \<open>Math.round\<close> (ties towards plus infinity).\<close>

definition math_round :: "rat \<Rightarrow> int" where
  "math_round x = \<lfloor>x + 1 / 2\<rfloor>"

lemma math_round_eq:
  assumes "\<bar>x - of_int n\<bar> < 1 / 2"
  shows "math_round x = n"
  using assms unfolding math_round_def by (intro floor_unique) linarith+

text \<open>The shortest decimal that rounds back to the double, as the language prints numbers. Integers
  below 2^53 print as their digits; other numbers are searched for by the number of digits \<open>k\<close>,
  at most 17.\<close>

fun dec_exp_up :: "nat \<Rightarrow> rat \<Rightarrow> int" where
  "dec_exp_up 0 x = 0"
| "dec_exp_up (Suc fuel) x = (if x < 1 then 0 else dec_exp_up fuel (x / 10) + 1)"

fun dec_exp_down :: "nat \<Rightarrow> rat \<Rightarrow> int" where
  "dec_exp_down 0 x = 0"
| "dec_exp_down (Suc fuel) x = (if 1 / 10 \<le> x then 0 else dec_exp_down fuel (x * 10) - 1)"

definition dec_exp :: "rat \<Rightarrow> int" where
  "dec_exp x = (if 1 \<le> x then dec_exp_up 400 x else dec_exp_down 400 x)"

definition shortest_at :: "rat \<Rightarrow> int \<Rightarrow> nat \<Rightarrow> int option" where
  "shortest_at x n k = (let u = 10 powi (n - int k); y = x / u; a = \<lfloor>y\<rfloor>; b = a + 1;
       ok = (\<lambda>s. s \<noteq> 0 \<and> fl (of_int s * u) = x) in
     if ok a \<and> (\<not> ok b \<or> y - of_int a \<le> of_int b - y) then Some a
     else if ok b then Some b else None)"

fun shortest_digits :: "nat \<Rightarrow> rat \<Rightarrow> int \<Rightarrow> nat \<Rightarrow> int \<times> string" where
  "shortest_digits 0 x n k = (n, [])"
| "shortest_digits (Suc fuel) x n k = (case shortest_at x n k of
     Some s \<Rightarrow> if s = 10 ^ k then (n + 1, dec_str (s div 10)) else (n, dec_str s)
   | None \<Rightarrow> shortest_digits fuel x n (k + 1))"

definition pos_num_str :: "rat \<Rightarrow> string" where
  "pos_num_str x = (case shortest_digits 18 x (dec_exp x) 1 of (n, ds) \<Rightarrow>
     let k = int (length ds) in
     if k \<le> n \<and> n \<le> 21 then ds @ replicate (nat (n - k)) CHR ''0''
     else if 0 < n \<and> n \<le> 21 then take (nat n) ds @ ''.'' @ drop (nat n) ds
     else if -6 < n \<and> n \<le> 0 then ''0.'' @ replicate (nat (- n)) CHR ''0'' @ ds
     else take 1 ds @ (if k = 1 then [] else ''.'' @ drop 1 ds) @ ''e''
       @ (if 0 < n then ''+'' else ''-'') @ dec_str \<bar>n - 1\<bar>)"

definition is_safe_int :: "rat \<Rightarrow> bool" where
  "is_safe_int x = (of_int \<lfloor>x\<rfloor> = x \<and> \<bar>x\<bar> < 2 ^ 53)"

definition rat_str :: "rat \<Rightarrow> string" where
  "rat_str x = (if is_safe_int x then int_str \<lfloor>x\<rfloor>
     else if x < 0 then ''-'' @ pos_num_str (- x) else pos_num_str x)"

lemma rat_str_int: "\<bar>i\<bar> < 2 ^ 53 \<Longrightarrow> rat_str (of_int i) = int_str i"
proof -
  assume "\<bar>i\<bar> < 2 ^ 53"
  then have "\<bar>of_int i\<bar> < (2::rat) ^ 53"
    by (metis of_int_abs of_int_less_iff of_int_numeral of_int_power)
  then show ?thesis by (simp add: rat_str_def is_safe_int_def)
qed

end
