(* ===== verification/JSValue.thy ===== *)
theory JSValue
  imports JSDouble
begin

text \<open>
  The values the interface code passes around, and the conversions and
  comparisons of the language and of Ext on them. Arrays and objects carry the
  identity by which \<open>==\<close> compares them, beside the contents a reader sees; a
  component in which two references to one array are written to keeps an explicit
  store instead.
\<close>

section \<open>Numbers\<close>

datatype jsnum = NaN | PInf | NInf | Fin rat

definition num_of_rat :: "rat \<Rightarrow> jsnum" where
  "num_of_rat r = (let x = fl r in
     if double_overflow \<le> x then PInf else if x \<le> - double_overflow then NInf else Fin x)"

definition num_of_int :: "int \<Rightarrow> jsnum" where
  "num_of_int i = Fin (of_int i)"

fun num_neg :: "jsnum \<Rightarrow> jsnum" where
  "num_neg NaN = NaN"
| "num_neg PInf = NInf"
| "num_neg NInf = PInf"
| "num_neg (Fin x) = Fin (- x)"

fun num_add :: "jsnum \<Rightarrow> jsnum \<Rightarrow> jsnum" where
  "num_add (Fin x) (Fin y) = num_of_rat (x + y)"
| "num_add NaN b = NaN"
| "num_add a NaN = NaN"
| "num_add PInf NInf = NaN"
| "num_add NInf PInf = NaN"
| "num_add PInf b = PInf"
| "num_add NInf b = NInf"
| "num_add a b = b"

definition num_sub :: "jsnum \<Rightarrow> jsnum \<Rightarrow> jsnum" where
  "num_sub a b = num_add a (num_neg b)"

definition inf_signed :: "bool \<Rightarrow> jsnum" where
  "inf_signed neg = (if neg then NInf else PInf)"

fun num_sign :: "jsnum \<Rightarrow> int" where
  "num_sign NaN = 0"
| "num_sign PInf = 1"
| "num_sign NInf = -1"
| "num_sign (Fin x) = (if x = 0 then 0 else if x < 0 then -1 else 1)"

fun num_mul :: "jsnum \<Rightarrow> jsnum \<Rightarrow> jsnum" where
  "num_mul (Fin x) (Fin y) = num_of_rat (x * y)"
| "num_mul NaN b = NaN"
| "num_mul a NaN = NaN"
| "num_mul a b = (let s = num_sign a * num_sign b in
     if s = 0 then NaN else inf_signed (s < 0))"

text \<open>The quotient by zero has the sign of the dividend: a divisor -0 does not arise.\<close>

fun num_div :: "jsnum \<Rightarrow> jsnum \<Rightarrow> jsnum" where
  "num_div (Fin x) (Fin y) =
     (if y = 0 then (if x = 0 then NaN else inf_signed (x < 0)) else num_of_rat (x / y))"
| "num_div NaN b = NaN"
| "num_div a NaN = NaN"
| "num_div (Fin x) b = Fin 0"
| "num_div a (Fin y) = inf_signed ((num_sign a < 0) \<noteq> (y < 0))"
| "num_div a b = NaN"

fun num_lt :: "jsnum \<Rightarrow> jsnum \<Rightarrow> bool" where
  "num_lt (Fin x) (Fin y) = (x < y)"
| "num_lt NaN b = False"
| "num_lt a NaN = False"
| "num_lt NInf b = (b \<noteq> NInf)"
| "num_lt a PInf = (a \<noteq> PInf)"
| "num_lt a b = False"

fun num_eq :: "jsnum \<Rightarrow> jsnum \<Rightarrow> bool" where
  "num_eq NaN b = False"
| "num_eq a b = (a = b)"

definition num_le :: "jsnum \<Rightarrow> jsnum \<Rightarrow> bool" where
  "num_le a b = (num_lt a b \<or> num_eq a b)"

fun num_str :: "jsnum \<Rightarrow> string" where
  "num_str NaN = ''NaN''"
| "num_str PInf = ''Infinity''"
| "num_str NInf = ''-Infinity''"
| "num_str (Fin x) = rat_str x"

fun num_to_fixed :: "nat \<Rightarrow> jsnum \<Rightarrow> string" where
  "num_to_fixed f (Fin x) = (if \<bar>x\<bar> < 10 ^ 21 then to_fixed f x else rat_str x)"
| "num_to_fixed f a = num_str a"

fun num_floor :: "jsnum \<Rightarrow> jsnum" where
  "num_floor (Fin x) = Fin (of_int \<lfloor>x\<rfloor>)"
| "num_floor a = a"

fun num_round :: "jsnum \<Rightarrow> jsnum" where
  "num_round (Fin x) = Fin (of_int (math_round x))"
| "num_round a = a"

lemma num_eq_refl [simp]: "num_eq a a \<longleftrightarrow> a \<noteq> NaN"
  by (cases a) auto

lemma num_eq_sym: "num_eq a b = num_eq b a"
  by (cases a; cases b) auto

lemma num_eqD: "num_eq a b \<Longrightarrow> a = b"
  by (cases a) auto

lemma num_eq_iff: "num_eq a b \<longleftrightarrow> a = b \<and> a \<noteq> NaN"
  by (cases a) auto

lemma num_lt_irrefl [simp]: "\<not> num_lt a a"
  by (cases a) auto

lemma num_lt_trans: "num_lt a b \<Longrightarrow> num_lt b c \<Longrightarrow> num_lt a c"
  by (cases a; cases b; cases c) auto

text \<open>The evaluation of numbers reads the bound as a numeral.\<close>

lemma double_overflow_code [code]:
  "double_overflow =
179769313486231590772930519078902473361797697894230657273430081157732675805500963132708477322407536021120113879871393357658789768814416622492847430639474124377767893424865485276302219601246094119453082952085005768838150682342462881473913110540827237163350510684586298239947245938479716304835356329624224137216"
  by (simp add: double_overflow_def)

lemma double_overflow_big: "2 ^ 60 < double_overflow"
proof -
  have "(2::rat) ^ 60 < 2 ^ 1024" by (rule power_strict_increasing) simp_all
  moreover have "double_overflow = 2 ^ 1024" by (simp only: double_overflow_def power_int_numeral)
  ultimately show ?thesis by (simp only:)
qed

lemma num_of_rat_small:
  assumes "fl r = r" and "\<bar>r\<bar> \<le> 2 ^ 60"
  shows "num_of_rat r = Fin r"
proof -
  have "\<not> double_overflow \<le> r" and "\<not> r \<le> - double_overflow"
    using assms(2) double_overflow_big by linarith+
  then show ?thesis using assms(1) by (simp add: num_of_rat_def)
qed

lemma num_of_rat_fl:
  assumes "\<bar>fl r\<bar> \<le> 1000000000"
  shows "num_of_rat r = Fin (fl r)"
proof -
  have "(1000000000::rat) \<le> 2 ^ 60" by simp
  then have "\<not> double_overflow \<le> fl r" and "\<not> fl r \<le> - double_overflow"
    using assms double_overflow_big by linarith+
  then show ?thesis by (simp add: num_of_rat_def Let_def)
qed

lemma num_of_rat_int: "\<bar>i\<bar> < 2 ^ 53 \<Longrightarrow> num_of_rat (of_int i) = Fin (of_int i)"
proof (rule num_of_rat_small)
  assume i: "\<bar>i\<bar> < 2 ^ 53"
  then show "fl (of_int i) = of_int i" by simp
  have "\<bar>of_int i\<bar> < (2::rat) ^ 53"
    using i by (metis of_int_abs of_int_less_iff of_int_numeral of_int_power)
  also have "(2::rat) ^ 53 \<le> 2 ^ 60" by (rule power_increasing) simp_all
  finally show "\<bar>of_int i :: rat\<bar> \<le> 2 ^ 60" by simp
qed

section \<open>Reading numbers from strings\<close>

definition is_space :: "char \<Rightarrow> bool" where
  "is_space c = ((of_char c :: int) \<in> {9, 10, 11, 12, 13, 32, 160})"

definition trim :: "string \<Rightarrow> string" where
  "trim s = rev (dropWhile is_space (rev (dropWhile is_space s)))"

definition hex_val :: "char \<Rightarrow> int option" where
  "hex_val c = (let n = (of_char c :: int) in
     if 48 \<le> n \<and> n \<le> 57 then Some (n - 48)
     else if 97 \<le> n \<and> n \<le> 102 then Some (n - 87)
     else if 65 \<le> n \<and> n \<le> 70 then Some (n - 55) else None)"

fun radix_val :: "int \<Rightarrow> int \<Rightarrow> string \<Rightarrow> int option" where
  "radix_val b acc [] = Some acc"
| "radix_val b acc (c # cs) = (case hex_val c of None \<Rightarrow> None
     | Some d \<Rightarrow> if d < b then radix_val b (acc * b + d) cs else None)"

definition signed_digits :: "string \<Rightarrow> int option" where
  "signed_digits s = (let (neg, ds) = (case s of [] \<Rightarrow> (False, [])
       | c # cs \<Rightarrow> if c = CHR ''-'' then (True, cs) else if c = CHR ''+'' then (False, cs) else (False, s)) in
     if ds \<noteq> [] \<and> list_all is_digit ds then Some (if neg then - digits_val ds else digits_val ds) else None)"

definition unsigned_decimal :: "string \<Rightarrow> rat option" where
  "unsigned_decimal s = (let a = takeWhile is_digit s; r = dropWhile is_digit s;
       (b, r') = (case r of [] \<Rightarrow> ([], [])
         | c # cs \<Rightarrow> if c = CHR ''.'' then (takeWhile is_digit cs, dropWhile is_digit cs) else ([], r));
       e = (case r' of [] \<Rightarrow> Some 0
         | c # cs \<Rightarrow> if c = CHR ''e'' \<or> c = CHR ''E'' then signed_digits cs else None) in
     if a = [] \<and> b = [] then None
     else map_option (\<lambda>x. of_int (digits_val (a @ b)) * 10 powi (x - int (length b))) e)"

definition str_num :: "string \<Rightarrow> jsnum" where
  "str_num t = (let s = trim t in
     if s = [] then Fin 0
     else if take 1 s = ''0'' \<and> lower (take 2 s) \<in> {''0x'', ''0o'', ''0b''} then
       (let b = (if lower (take 2 s) = ''0x'' then 16 else if lower (take 2 s) = ''0o'' then 8 else 2) in
        if drop 2 s = [] then NaN
        else (case radix_val b 0 (drop 2 s) of None \<Rightarrow> NaN | Some i \<Rightarrow> num_of_rat (of_int i)))
     else let neg = (take 1 s = ''-''); u = (if neg \<or> take 1 s = ''+'' then drop 1 s else s) in
       if u = ''Infinity'' then inf_signed neg
       else (case unsigned_decimal u of None \<Rightarrow> NaN
         | Some r \<Rightarrow> num_of_rat (if neg then - r else r)))"

text \<open>Reading back the digits of an integer.\<close>

lemma is_digit_not_space: "is_digit c \<Longrightarrow> \<not> is_space c"
  by (auto simp: is_digit_def is_space_def)

lemma trim_digits:
  assumes "list_all is_digit s"
  shows "trim s = s"
proof -
  have id: "dropWhile is_space t = t" if "list_all is_digit t" for t
    using that by (cases t) (auto simp: is_digit_not_space)
  have "list_all is_digit (rev s)" using assms by (simp add: list_all_iff)
  then show ?thesis using assms by (simp add: trim_def id)
qed

lemma takeWhile_digits: "list_all is_digit s \<Longrightarrow> takeWhile is_digit s = s \<and> dropWhile is_digit s = []"
  by (simp add: list_all_iff takeWhile_eq_all_conv dropWhile_eq_Nil_conv)

lemma unsigned_decimal_digits:
  "list_all is_digit s \<Longrightarrow> s \<noteq> [] \<Longrightarrow> unsigned_decimal s = Some (of_int (digits_val s))"
  by (simp add: unsigned_decimal_def takeWhile_digits Let_def)

lemma digit_chars:
  "is_digit c \<Longrightarrow> c \<noteq> CHR ''-'' \<and> c \<noteq> CHR ''+'' \<and> c \<noteq> CHR ''I'' \<and> lower_char c = c
     \<and> c \<noteq> CHR ''x'' \<and> c \<noteq> CHR ''o'' \<and> c \<noteq> CHR ''b''"
  by (auto simp: is_digit_def lower_char_def)

lemma lower_digits: "list_all is_digit s \<Longrightarrow> lower s = s"
  by (induction s) (auto simp: lower_def digit_chars)

lemma str_num_digits:
  assumes "list_all is_digit s" and "s \<noteq> []"
  shows "str_num s = num_of_rat (of_int (digits_val s))"
proof -
  obtain c cs where s: "s = c # cs" using assms(2) by (cases s) auto
  have c: "is_digit c" and cs: "list_all is_digit cs" using assms(1) s by auto
  have "\<not> (lower (take 2 s) \<in> {''0x'', ''0o'', ''0b''})"
  proof -
    have "list_all is_digit (take 2 s)"
      using assms(1) by (auto simp: list_all_iff dest: in_set_takeD)
    moreover have "\<not> list_all is_digit ''0x''" "\<not> list_all is_digit ''0o''" "\<not> list_all is_digit ''0b''"
      by (simp_all add: is_digit_def)
    ultimately show ?thesis by (auto simp: lower_digits)
  qed
  moreover have "s \<noteq> ''Infinity''" "take 1 s \<noteq> ''-''" "take 1 s \<noteq> ''+''"
    using digit_chars[OF c] s by auto
  ultimately show ?thesis
    using assms by (simp add: str_num_def trim_digits unsigned_decimal_digits Let_def)
qed

lemma str_num_dec_str:
  assumes "0 \<le> n" and "n < 2 ^ 53"
  shows "str_num (dec_str n) = Fin (of_int n)"
  using assms by (simp add: str_num_digits dec_str_digits digits_val_dec_str num_of_rat_int)

section \<open>Values\<close>

datatype jsval =
    Undef
  | Null
  | Bool bool
  | Num jsnum
  | Str string
  | Arr nat "jsval list"
  | Obj nat "(string \<times> jsval) list"

abbreviation JInt :: "int \<Rightarrow> jsval" where
  "JInt i \<equiv> Num (Fin (of_int i))"

text \<open>\<open>o[k]\<close>: a missing property is \<open>undefined\<close>.\<close>

definition oget :: "jsval obj \<Rightarrow> string \<Rightarrow> jsval" where
  "oget ob k = (case map_of ob k of None \<Rightarrow> Undef | Some v \<Rightarrow> v)"

lemma oget_Nil [simp]: "oget [] k = Undef"
  by (simp add: oget_def)

lemma oget_put [obj_simps, simp]: "oget (put k v ob) j = (if j = k then v else oget ob j)"
  by (simp add: oget_def lookup_put)

lemma oget_del [obj_simps, simp]: "oget (del k ob) j = (if j = k then Undef else oget ob j)"
  by (simp add: oget_def lookup_del)

text \<open>The properties \<open>for (k in v)\<close> visits: indices for strings and arrays, none for scalars.\<close>

fun enum_from :: "int \<Rightarrow> 'a list \<Rightarrow> (string \<times> 'a) list" where
  "enum_from i [] = []"
| "enum_from i (x # xs) = (dec_str i, x) # enum_from (i + 1) xs"

fun props_of :: "jsval \<Rightarrow> jsval obj" where
  "props_of (Obj r ps) = ps"
| "props_of (Arr r xs) = enum_from 0 xs"
| "props_of (Str s) = enum_from 0 (List.map (\<lambda>c. Str [c]) s)"
| "props_of v = []"

text \<open>\<open>Ext.applyIf\<close>: only properties that are undefined are copied.\<close>

definition apply_if_obj :: "jsval obj \<Rightarrow> jsval obj \<Rightarrow> jsval obj" where
  "apply_if_obj ob cs = for_in (\<lambda>k v ob. if oget ob k \<noteq> Undef then ob else put k v ob) cs ob"

fun js_typeof :: "jsval \<Rightarrow> string" where
  "js_typeof Undef = ''undefined''"
| "js_typeof Null = ''object''"
| "js_typeof (Bool b) = ''boolean''"
| "js_typeof (Num n) = ''number''"
| "js_typeof (Str s) = ''string''"
| "js_typeof (Arr r xs) = ''object''"
| "js_typeof (Obj r ps) = ''object''"

text \<open>\<open>Ext.type\<close>; \<open>None\<close> is the result \<open>false\<close>.\<close>

fun ext_type :: "jsval \<Rightarrow> string option" where
  "ext_type Undef = None"
| "ext_type Null = None"
| "ext_type (Arr r xs) = Some ''array''"
| "ext_type v = Some (js_typeof v)"

fun truthy :: "jsval \<Rightarrow> bool" where
  "truthy Undef = False"
| "truthy Null = False"
| "truthy (Bool b) = b"
| "truthy (Num n) = (n \<noteq> NaN \<and> n \<noteq> Fin 0)"
| "truthy (Str s) = (s \<noteq> [])"
| "truthy (Arr r xs) = True"
| "truthy (Obj r ps) = True"

text \<open>\<open>Ext.isEmpty(v, allowBlank)\<close>.\<close>

fun ext_is_empty :: "bool \<Rightarrow> jsval \<Rightarrow> bool" where
  "ext_is_empty ab Undef = True"
| "ext_is_empty ab Null = True"
| "ext_is_empty ab (Arr r xs) = (xs = [])"
| "ext_is_empty ab (Str s) = (\<not> ab \<and> s = [])"
| "ext_is_empty ab v = False"

abbreviation is_empty :: "jsval \<Rightarrow> bool" where
  "is_empty v \<equiv> ext_is_empty False v"

text \<open>\<open>String(v)\<close> and \<open>Number(v)\<close>.\<close>

fun to_str :: "jsval \<Rightarrow> string" where
  "to_str Undef = ''undefined''"
| "to_str Null = ''null''"
| "to_str (Bool b) = (if b then ''true'' else ''false'')"
| "to_str (Num n) = num_str n"
| "to_str (Str s) = s"
| "to_str (Arr r xs) = join_str '','' (List.map (\<lambda>x. if x = Undef \<or> x = Null then [] else to_str x) xs)"
| "to_str (Obj r ps) = ''[object Object]''"

fun to_prim :: "jsval \<Rightarrow> jsval" where
  "to_prim (Arr r xs) = Str (to_str (Arr r xs))"
| "to_prim (Obj r ps) = Str (to_str (Obj r ps))"
| "to_prim v = v"

fun prim_num :: "jsval \<Rightarrow> jsnum" where
  "prim_num Null = Fin 0"
| "prim_num (Bool b) = Fin (if b then 1 else 0)"
| "prim_num (Num n) = n"
| "prim_num (Str s) = str_num s"
| "prim_num v = NaN"

definition to_num :: "jsval \<Rightarrow> jsnum" where
  "to_num v = prim_num (to_prim v)"

fun nullish :: "jsval \<Rightarrow> bool" where
  "nullish Undef = True"
| "nullish Null = True"
| "nullish v = False"

fun ref_of :: "jsval \<Rightarrow> nat option" where
  "ref_of (Arr r xs) = Some r"
| "ref_of (Obj r ps) = Some r"
| "ref_of v = None"

fun prim_eq :: "jsval \<Rightarrow> jsval \<Rightarrow> bool" where
  "prim_eq (Str s) (Str t) = (s = t)"
| "prim_eq a b = num_eq (prim_num a) (prim_num b)"

text \<open>\<open>a == b\<close> and \<open>a === b\<close>.\<close>

definition loose_eq :: "jsval \<Rightarrow> jsval \<Rightarrow> bool" where
  "loose_eq a b =
     (if nullish a \<or> nullish b then nullish a \<and> nullish b
      else if ref_of a \<noteq> None \<and> ref_of b \<noteq> None then ref_of a = ref_of b
      else prim_eq (to_prim a) (to_prim b))"

fun strict_eq :: "jsval \<Rightarrow> jsval \<Rightarrow> bool" where
  "strict_eq (Num m) (Num n) = num_eq m n"
| "strict_eq a b = (if ref_of a \<noteq> None \<and> ref_of b \<noteq> None then ref_of a = ref_of b else a = b)"

text \<open>\<open>a < b\<close> on converted operands: two strings by code units, all else as numbers.\<close>

fun str_lt :: "string \<Rightarrow> string \<Rightarrow> bool" where
  "str_lt s [] = False"
| "str_lt [] (d # t) = True"
| "str_lt (c # s) (d # t) = ((of_char c :: int) < of_char d \<or> c = d \<and> str_lt s t)"

fun prim_lt :: "jsval \<Rightarrow> jsval \<Rightarrow> bool" where
  "prim_lt (Str s) (Str t) = str_lt s t"
| "prim_lt a b = num_lt (prim_num a) (prim_num b)"

definition js_lt :: "jsval \<Rightarrow> jsval \<Rightarrow> bool" where
  "js_lt a b = prim_lt (to_prim a) (to_prim b)"

text \<open>\<open>a + b\<close>.\<close>

fun prim_plus :: "jsval \<Rightarrow> jsval \<Rightarrow> jsval" where
  "prim_plus (Str s) b = Str (s @ to_str b)"
| "prim_plus a (Str t) = Str (to_str a @ t)"
| "prim_plus a b = Num (num_add (prim_num a) (prim_num b))"

definition js_plus :: "jsval \<Rightarrow> jsval \<Rightarrow> jsval" where
  "js_plus a b = prim_plus (to_prim a) (to_prim b)"

text \<open>\<open>Ext.isPrimitive\<close>, and what two values have in common when \<open>JSON.stringify\<close> prints them alike.\<close>

fun ext_is_primitive :: "jsval \<Rightarrow> bool" where
  "ext_is_primitive (Str s) = True"
| "ext_is_primitive (Num (Fin x)) = True"
| "ext_is_primitive (Bool b) = True"
| "ext_is_primitive v = False"

fun json_norm :: "jsval \<Rightarrow> jsval" where
  "json_norm (Num (Fin x)) = Num (Fin x)"
| "json_norm (Num n) = Null"
| "json_norm (Arr r xs) = Arr 0 (List.map (\<lambda>x. if x = Undef then Null else json_norm x) xs)"
| "json_norm (Obj r ps) = Obj 0 (List.map (\<lambda>(k, v). (k, json_norm v)) (List.filter (\<lambda>(k, v). v \<noteq> Undef) ps))"
| "json_norm v = v"

text \<open>An exception of the language; \<open>Inl\<close> of a result.\<close>

datatype js_error = TypeError | ReferenceError

type_synonym 'a result = "js_error + 'a"

fun bind_result :: "'a result \<Rightarrow> ('a \<Rightarrow> 'b result) \<Rightarrow> 'b result" where
  "bind_result (Inl e) f = Inl e"
| "bind_result (Inr x) f = f x"

fun each_result :: "('a \<Rightarrow> 's \<Rightarrow> 's result) \<Rightarrow> 'a list \<Rightarrow> 's \<Rightarrow> 's result" where
  "each_result f [] s = Inr s"
| "each_result f (x # xs) s = bind_result (f x s) (each_result f xs)"

lemma each_result_total:
  assumes "P s" and "\<And>x s. x \<in> set xs \<Longrightarrow> P s \<Longrightarrow> \<exists>t. f x s = Inr t \<and> P t"
  shows "\<exists>t. each_result f xs s = Inr t \<and> P t"
  using assms
proof (induction xs arbitrary: s)
  case (Cons x xs)
  then obtain t where "f x s = Inr t" "P t" by (meson list.set_intros(1))
  then show ?case using Cons by auto
qed simp

lemma prim_eq_sym: "prim_eq a b = prim_eq b a"
  by (cases a; cases b) (auto simp: num_eq_sym)

lemma loose_eq_sym: "loose_eq a b = loose_eq b a"
  unfolding loose_eq_def by (auto simp: prim_eq_sym)

lemma loose_eq_refl: "loose_eq a a \<longleftrightarrow> a \<noteq> Num NaN"
  by (cases a) (auto simp: loose_eq_def)

text \<open>On scalar values of one type \<open>==\<close> is equality, the number \<open>NaN\<close> apart.\<close>

fun scalar :: "jsval \<Rightarrow> bool" where
  "scalar (Bool b) = True"
| "scalar (Num n) = (n \<noteq> NaN)"
| "scalar (Str s) = True"
| "scalar v = False"

lemma loose_eq_scalar:
  assumes "scalar a" and "scalar b" and "ext_type a = ext_type b"
  shows "loose_eq a b \<longleftrightarrow> a = b"
  using assms by (cases a; cases b) (auto simp: loose_eq_def num_eq_iff)

lemma loose_eq_typed:
  assumes "scalar w" and "ext_type a = ext_type w" and "loose_eq a w"
  shows "a = w"
  using assms by (cases a; cases w) (auto simp: loose_eq_def num_eq_iff split: if_splits)

lemma scalar_not_empty: "scalar v \<Longrightarrow> v \<noteq> Str [] \<Longrightarrow> \<not> is_empty v"
  by (cases v) auto

lemma scalar_not_undef [simp]: "scalar v \<Longrightarrow> v \<noteq> Undef \<and> v \<noteq> Null"
  by (cases v) auto

lemma is_empty_cases:
  "is_empty v \<longleftrightarrow> v = Undef \<or> v = Null \<or> v = Str [] \<or> (\<exists>r. v = Arr r [])"
  by (cases v) auto

lemma str_lt_irrefl [simp]: "\<not> str_lt s s"
  by (induction s) auto

lemma str_lt_trans: "str_lt s t \<Longrightarrow> str_lt t u \<Longrightarrow> str_lt s u"
proof (induction s t arbitrary: u rule: str_lt.induct)
  case (2 d t)
  then show ?case by (cases u) auto
next
  case (3 c s d t)
  then show ?case by (cases u) auto
qed auto

lemma of_char_inject: "(of_char c :: int) = of_char d \<longleftrightarrow> c = d"
  by (metis char_of_char)

lemma str_lt_linear: "str_lt s t \<or> s = t \<or> str_lt t s"
proof (induction s t rule: str_lt.induct)
  case (3 c s d t)
  then show ?case
    using of_char_inject[of c d] by (auto simp: not_less_iff_gr_or_eq)
qed (auto elim: str_lt.elims)

end
