(* ===== verification/Options.thy ===== *)
theory Options
  imports JSValue
begin

text \<open>
  \<open>Deluge.OptionsManager\<close> (OptionsManager.js): the options of a form with their
  defaults, the changes the user has made, the form fields bound to each option and
  the field that has the focus. A call of a bound field's \<open>setValue\<close> and the event
  \<open>changed\<close> are recorded in the trace of the state in the order in which they
  happen; form fields are widgets of Ext and are identified by a number.

  The locale \<open>option_store\<close> is the contract clients of an options manager use; it is
  interpreted here for the manager, and in MultiOptions for the manager by id.
\<close>

section \<open>State and operations\<close>

datatype om_event = SetValue nat jsval | Changed string jsval jsval

record om_base =
  om_options :: "jsval obj"
  om_binds :: "(string \<times> nat list) list"
  om_doption :: "(nat \<times> string) list"
  om_focused :: "nat option"
  om_trace :: "om_event list"

record om = om_base +
  om_changed :: "jsval obj"

definition om_new :: "jsval obj \<Rightarrow> om" where
  "om_new opts = \<lparr> om_options = opts, om_binds = [], om_doption = [],
     om_focused = None, om_trace = [], om_changed = [] \<rparr>"

definition om_add_options :: "jsval obj \<Rightarrow> 'a om_base_scheme \<Rightarrow> 'a om_base_scheme" where
  "om_add_options opts s = s\<lparr> om_options := apply_if_obj (om_options s) opts \<rparr>"

definition binds_of :: "(string \<times> nat list) list \<Rightarrow> string \<Rightarrow> nat list" where
  "binds_of bs opt = (case map_of bs opt of None \<Rightarrow> [] | Some fs \<Rightarrow> fs)"

definition om_bind :: "string \<Rightarrow> nat \<Rightarrow> 'a om_base_scheme \<Rightarrow> 'a om_base_scheme" where
  "om_bind opt f s = s\<lparr> om_binds := put opt (binds_of (om_binds s) opt @ [f]) (om_binds s),
     om_doption := put f opt (om_doption s) \<rparr>"

definition convert_value_type :: "jsval \<Rightarrow> jsval \<Rightarrow> jsval" where
  "convert_value_type old v =
     (if ext_type old \<noteq> ext_type v then
        (if ext_type old = Some ''string'' then Str (to_str v)
         else if ext_type old = Some ''number'' then Num (to_num v)
         else if ext_type old = Some ''boolean'' then
           (case v of Str t \<Rightarrow> (let w = lower t in Bool (w = ''true'' \<or> w = ''1'' \<or> w = ''on''))
            | _ \<Rightarrow> Bool (truthy v))
         else v)
      else v)"

definition om_get_default :: "om \<Rightarrow> string \<Rightarrow> jsval" where
  "om_get_default s opt = oget (om_options s) opt"

definition om_is_dirty :: "om \<Rightarrow> string \<Rightarrow> bool" where
  "om_is_dirty s opt = (\<not> is_empty (oget (om_changed s) opt))"

definition om_get :: "om \<Rightarrow> string \<Rightarrow> jsval" where
  "om_get s opt = (if om_is_dirty s opt then oget (om_changed s) opt else oget (om_options s) opt)"

definition om_has :: "om \<Rightarrow> string \<Rightarrow> jsval" where
  "om_has s opt = oget (om_options s) opt"

definition om_get_many :: "om \<Rightarrow> string list \<Rightarrow> jsval obj" where
  "om_get_many s opts =
     each_do (\<lambda>opt ob. if truthy (om_has s opt) then put opt (om_get s opt) ob else ob) opts []"

definition om_get_dirty :: "om \<Rightarrow> jsval obj" where
  "om_get_dirty s = om_changed s"

definition om_reset :: "om \<Rightarrow> om" where
  "om_reset s = s\<lparr> om_changed := [] \<rparr>"

definition om_commit :: "om \<Rightarrow> om" where
  "om_commit s = om_reset (s\<lparr> om_options := apply_obj (om_options s) (om_changed s) \<rparr>)"

definition om_on_change :: "string \<Rightarrow> jsval \<Rightarrow> 'a om_base_scheme \<Rightarrow> 'a om_base_scheme" where
  "om_on_change opt v s = each_do
     (\<lambda>f s. if om_focused s = Some f then s else s\<lparr> om_trace := om_trace s @ [SetValue f v] \<rparr>)
     (binds_of (om_binds s) opt) s"

text \<open>\<open>fireEvent('changed', ...)\<close>: the manager's own listener is the first one.\<close>

definition om_fire :: "string \<Rightarrow> jsval \<Rightarrow> jsval \<Rightarrow> 'a om_base_scheme \<Rightarrow> 'a om_base_scheme" where
  "om_fire opt v old s = (let s' = om_on_change opt v s in
     s'\<lparr> om_trace := om_trace s' @ [Changed opt v old] \<rparr>)"

definition om_set :: "jsval \<Rightarrow> jsval \<Rightarrow> om \<Rightarrow> om" where
  "om_set opt v s =
     (if opt = Undef then s
      else if js_typeof opt = ''object'' then
        for_in om_on_change (props_of opt) (s\<lparr> om_options := apply_obj (om_options s) (props_of opt) \<rparr>)
      else om_on_change (to_str opt) v (s\<lparr> om_options := put (to_str opt) v (om_options s) \<rparr>))"

definition om_update_one :: "string \<Rightarrow> jsval \<Rightarrow> om \<Rightarrow> om" where
  "om_update_one opt v0 s =
     (let d = om_get_default s opt; v = convert_value_type d v0; old = om_get s opt in
      if loose_eq old v then s
      else if loose_eq d v then
        om_fire opt v old
          (if om_is_dirty s opt then s\<lparr> om_changed := del opt (om_changed s) \<rparr> else s)
      else om_fire opt v old (s\<lparr> om_changed := put opt v (om_changed s) \<rparr>))"

text \<open>\<open>update\<close> with an undefined value iterates over the properties of its first argument; a
  property that is itself undefined makes the inner call iterate over the characters of its key.\<close>

definition om_update :: "jsval \<Rightarrow> jsval \<Rightarrow> om \<Rightarrow> om" where
  "om_update opt v s =
     (if opt = Undef then s
      else if v = Undef then
        for_in (\<lambda>k w. if w = Undef then for_in om_update_one (props_of (Str k)) else om_update_one k w)
          (props_of opt) s
      else om_update_one (to_str opt) v s)"

definition om_on_field_blur :: "nat \<Rightarrow> 'a om_base_scheme \<Rightarrow> 'a om_base_scheme" where
  "om_on_field_blur f s = (if om_focused s = Some f then s\<lparr> om_focused := None \<rparr> else s)"

definition om_on_field_change :: "nat \<Rightarrow> jsval \<Rightarrow> om \<Rightarrow> om" where
  "om_on_field_change f v s =
     om_update (case map_of (om_doption s) f of None \<Rightarrow> Undef | Some opt \<Rightarrow> Str opt) v s"

definition om_on_field_focus :: "nat \<Rightarrow> 'a om_base_scheme \<Rightarrow> 'a om_base_scheme" where
  "om_on_field_focus f s = s\<lparr> om_focused := Some f \<rparr>"

section \<open>Type conversion\<close>

lemma convert_same_type: "ext_type old = ext_type v \<Longrightarrow> convert_value_type old v = v"
  by (simp add: convert_value_type_def)

lemma convert_type:
  assumes "ext_type old \<in> {Some ''string'', Some ''number'', Some ''boolean''}"
  shows "ext_type (convert_value_type old v) = ext_type old"
  using assms by (cases v) (auto simp: convert_value_type_def Let_def)

lemma convert_idem: "convert_value_type old (convert_value_type old v) = convert_value_type old v"
proof (cases "ext_type old \<in> {Some ''string'', Some ''number'', Some ''boolean''}")
  case True
  then show ?thesis by (simp add: convert_type convert_same_type)
next
  case False
  then show ?thesis by (auto simp: convert_value_type_def)
qed

lemma scalar_type:
  "scalar d \<Longrightarrow> ext_type d \<in> {Some ''string'', Some ''number'', Some ''boolean''}"
  by (cases d) auto

lemma scalar_of_type:
  "ext_type v \<in> {Some ''string'', Some ''number'', Some ''boolean''} \<Longrightarrow> v \<noteq> Num NaN \<Longrightarrow> scalar v"
  by (cases v) auto

section \<open>Frame lemmas\<close>

definition field_writes :: "'a om_base_scheme \<Rightarrow> string \<Rightarrow> jsval \<Rightarrow> om_event list" where
  "field_writes s opt v = List.map (\<lambda>f. SetValue f v)
     (List.filter (\<lambda>f. om_focused s \<noteq> Some f) (binds_of (om_binds s) opt))"

lemma each_do_writes:
  "each_do (\<lambda>f s. if om_focused s = Some f then s else s\<lparr> om_trace := om_trace s @ [SetValue f v] \<rparr>) fs s
    = s\<lparr> om_trace := om_trace s
        @ List.map (\<lambda>f. SetValue f v) (List.filter (\<lambda>f. om_focused s \<noteq> Some f) fs) \<rparr>"
  by (induction fs arbitrary: s) auto

lemma om_on_change_eq:
  "om_on_change opt v s = s\<lparr> om_trace := om_trace s @ field_writes s opt v \<rparr>"
  unfolding om_on_change_def field_writes_def by (rule each_do_writes)

lemma om_fire_eq:
  "om_fire opt v old s = s\<lparr> om_trace := om_trace s @ field_writes s opt v @ [Changed opt v old] \<rparr>"
  by (simp add: om_fire_def om_on_change_eq Let_def)

lemma field_writes_cong [simp]:
  "field_writes (s\<lparr> om_trace := t \<rparr>) opt v = field_writes s opt v"
  "field_writes (s\<lparr> om_options := ob \<rparr>) opt v = field_writes s opt v"
  by (simp_all add: field_writes_def)

lemma field_writes_changed [simp]:
  "field_writes (s\<lparr> om_changed := ch \<rparr>) opt v = field_writes s opt v"
  by (simp add: field_writes_def)

lemma om_update_one_frame [simp]:
  "om_options (om_update_one opt v s) = om_options s"
  "om_binds (om_update_one opt v s) = om_binds s"
  "om_focused (om_update_one opt v s) = om_focused s"
  by (simp_all add: om_update_one_def om_fire_eq Let_def)

lemma om_update_one_changed:
  "om_changed (om_update_one opt v0 s) =
     (let d = om_get_default s opt; v = convert_value_type d v0 in
      if loose_eq (om_get s opt) v then om_changed s
      else if loose_eq d v then (if om_is_dirty s opt then del opt (om_changed s) else om_changed s)
      else put opt v (om_changed s))"
  by (simp add: om_update_one_def om_fire_eq Let_def)

section \<open>The contract of an options manager\<close>

text \<open>\<open>plain_update d v\<close>: an update of an option with default \<open>d\<close> by \<open>v\<close> that the manager can
  keep: after the conversion the value is a string, number or boolean, and not the empty string.\<close>

definition plain_update :: "jsval \<Rightarrow> jsval \<Rightarrow> bool" where
  "plain_update d v = (scalar d \<and> scalar (convert_value_type d v) \<and> convert_value_type d v \<noteq> Str [])"

locale option_store =
  fixes get :: "'s \<Rightarrow> string \<Rightarrow> jsval"
    and dflt :: "'s \<Rightarrow> string \<Rightarrow> jsval"
    and dirty :: "'s \<Rightarrow> string \<Rightarrow> bool"
    and upd :: "string \<Rightarrow> jsval \<Rightarrow> 's \<Rightarrow> 's"
    and inv :: "'s \<Rightarrow> bool"
  assumes get_clean: "\<not> dirty s k \<Longrightarrow> get s k = dflt s k"
    and inv_upd: "inv s \<Longrightarrow> inv (upd k v s)"
    and upd_get: "inv s \<Longrightarrow> plain_update (dflt s k) v \<Longrightarrow> get (upd k v s) k = convert_value_type (dflt s k) v"
    and upd_other: "j \<noteq> k \<Longrightarrow> get (upd k v s) j = get s j"
    and upd_dflt: "dflt (upd k v s) j = dflt s j"
    and upd_clean: "inv s \<Longrightarrow> scalar (dflt s k) \<Longrightarrow> convert_value_type (dflt s k) v = dflt s k
      \<Longrightarrow> \<not> dirty (upd k v s) k"
begin

definition upd_all :: "jsval obj \<Rightarrow> 's \<Rightarrow> 's" where
  "upd_all ps s = for_in upd ps s"

lemma upd_all_simps [simp]:
  "upd_all [] s = s"
  "upd_all ((k, v) # ps) s = upd_all ps (upd k v s)"
  by (simp_all add: upd_all_def)

lemma inv_upd_all: "inv s \<Longrightarrow> inv (upd_all ps s)"
  unfolding upd_all_def by (rule for_in_invariant) (auto intro: inv_upd)

lemma upd_all_dflt: "dflt (upd_all ps s) j = dflt s j"
  by (induction ps arbitrary: s) (auto simp: upd_dflt)

lemma upd_all_other: "j \<notin> fst ` set ps \<Longrightarrow> get (upd_all ps s) j = get s j"
  by (induction ps arbitrary: s) (auto simp: upd_other)

lemma upd_all_get:
  assumes "inv s" and "wf_obj ps" and "map_of ps k = Some v" and "plain_update (dflt s k) v"
  shows "get (upd_all ps s) k = convert_value_type (dflt s k) v"
  using assms
proof (induction ps arbitrary: s)
  case (Cons p ps)
  obtain j w where p: "p = (j, w)" by (cases p)
  have wf: "wf_obj ps" and new: "j \<notin> fst ` set ps" using Cons.prems(2) p by (auto simp: wf_obj_def)
  show ?case
  proof (cases "j = k")
    case True
    with Cons.prems p new show ?thesis by (simp add: upd_all_other upd_get)
  next
    case False
    with Cons.prems p wf Cons.IH[of "upd j w s"] show ?thesis by (simp add: upd_dflt inv_upd)
  qed
qed simp

lemma upd_again:
  assumes "inv s" and "plain_update (dflt s k) v"
  shows "get (upd k v (upd k w s)) k = convert_value_type (dflt s k) v"
  using assms by (simp add: upd_get inv_upd upd_dflt)

lemma upd_revert:
  assumes "inv s" and "scalar (dflt s k)"
  shows "\<not> dirty (upd k (dflt s k) s) k" and "get (upd k (dflt s k) s) k = dflt s k"
proof -
  show clean: "\<not> dirty (upd k (dflt s k) s) k"
    using assms by (intro upd_clean) (simp_all add: convert_same_type)
  show "get (upd k (dflt s k) s) k = dflt s k"
    using get_clean[OF clean] by (simp add: upd_dflt)
qed

end

section \<open>The invariant of the manager\<close>

text \<open>A recorded change of an option with a scalar default has the type of the default and differs
  from it.\<close>

definition changes_ok :: "(string \<Rightarrow> jsval) \<Rightarrow> jsval obj \<Rightarrow> bool" where
  "changes_ok d ch = (wf_obj ch \<and> (\<forall>(k, v) \<in> set ch. scalar (d k) \<longrightarrow>
     ext_type v = ext_type (d k) \<and> \<not> loose_eq (d k) v))"

definition om_inv :: "om \<Rightarrow> bool" where
  "om_inv s = changes_ok (om_get_default s) (om_changed s)"

lemma changes_ok_Nil [inv_intros]: "changes_ok d []"
  by (simp add: changes_ok_def)

lemma changes_ok_put [inv_intros]:
  assumes "changes_ok d ch" and "scalar (d k) \<longrightarrow> ext_type v = ext_type (d k) \<and> \<not> loose_eq (d k) v"
  shows "changes_ok d (put k v ch)"
  using assms by (force simp: changes_ok_def intro: wf_obj_put dest!: in_put)

lemma changes_ok_del [inv_intros]: "changes_ok d ch \<Longrightarrow> changes_ok d (del k ch)"
  by (force simp: changes_ok_def intro: wf_obj_del dest!: in_del)

lemma changes_ok_lookup:
  "changes_ok d ch \<Longrightarrow> scalar (d k) \<Longrightarrow> \<not> is_empty (oget ch k) \<Longrightarrow>
     ext_type (oget ch k) = ext_type (d k) \<and> \<not> loose_eq (d k) (oget ch k)"
  by (auto simp: changes_ok_def oget_def split: option.splits dest!: map_of_SomeD)

lemma convert_scalar_type: "scalar d \<Longrightarrow> ext_type (convert_value_type d v) = ext_type d"
  using scalar_type convert_type by blast

lemma om_inv_new [inv_intros]: "om_inv (om_new opts)"
  by (simp add: om_inv_def om_new_def changes_ok_Nil)

lemma om_inv_reset [inv_intros]: "om_inv (om_reset s)"
  by (simp add: om_inv_def om_reset_def changes_ok_Nil)

lemma om_inv_commit [inv_intros]: "om_inv (om_commit s)"
  by (simp add: om_commit_def om_inv_reset)

lemma om_default_update_one [simp]:
  "om_get_default (om_update_one opt v s) = om_get_default s"
  by (simp add: om_get_default_def fun_eq_iff)

lemma om_inv_update_one [inv_intros]: "om_inv s \<Longrightarrow> om_inv (om_update_one opt v s)"
  unfolding om_inv_def om_update_one_changed om_default_update_one
  by (auto simp: Let_def convert_scalar_type intro: changes_ok_put changes_ok_del)

lemma om_inv_update [inv_intros]: "om_inv s \<Longrightarrow> om_inv (om_update opt v s)"
  unfolding om_update_def
  by (auto intro!: for_in_invariant[where P = om_inv] om_inv_update_one split: if_splits)

lemma om_get_alt:
  "om_get s opt = (let c = oget (om_changed s) opt in if is_empty c then om_get_default s opt else c)"
  by (simp add: om_get_def om_is_dirty_def om_get_default_def Let_def)

lemma om_get_type:
  "om_inv s \<Longrightarrow> scalar (om_get_default s k) \<Longrightarrow> ext_type (om_get s k) = ext_type (om_get_default s k)"
  by (auto simp: om_get_alt om_inv_def Let_def dest: changes_ok_lookup)

interpretation om: option_store om_get om_get_default om_is_dirty om_update_one om_inv
proof unfold_locales
  fix s k v j
  show "\<not> om_is_dirty s k \<Longrightarrow> om_get s k = om_get_default s k"
    by (simp add: om_get_def om_get_default_def)
  show "om_inv s \<Longrightarrow> om_inv (om_update_one k v s)"
    by (rule om_inv_update_one)
  show "j \<noteq> k \<Longrightarrow> om_get (om_update_one k v s) j = om_get s j"
    by (simp add: om_get_alt om_update_one_changed Let_def)
  show "om_get_default (om_update_one k v s) j = om_get_default s j" by simp
next
  fix s k v
  let ?d = "om_get_default s k" and ?w = "convert_value_type (om_get_default s k) v"
  assume inv: "om_inv s" and p: "plain_update ?d v"
  then have sc: "scalar ?d" "scalar ?w" "\<not> is_empty ?w"
    by (auto simp: plain_update_def scalar_not_empty)
  show "om_get (om_update_one k v s) k = ?w"
  proof (cases "loose_eq (om_get s k) ?w")
    case True
    then have "om_get s k = ?w"
      using sc om_get_type[OF inv sc(1)] convert_scalar_type[OF sc(1)] by (metis loose_eq_typed)
    with True show ?thesis
      by (auto simp: om_get_alt om_update_one_changed Let_def split: if_splits)
  next
    case False
    show ?thesis
    proof (cases "loose_eq ?d ?w")
      case True
      then have "?d = ?w" using sc convert_scalar_type[OF sc(1)] by (metis loose_eq_typed)
      then show ?thesis using False True
        by (auto simp: om_get_alt om_update_one_changed om_is_dirty_def Let_def)
    qed (use False sc in \<open>simp add: om_get_alt om_update_one_changed Let_def\<close>)
  qed
next
  fix s k v
  let ?d = "om_get_default s k"
  assume inv: "om_inv s" and sc: "scalar ?d" and c: "convert_value_type ?d v = ?d"
  have dd: "loose_eq ?d ?d" using sc by (auto simp: loose_eq_refl)
  show "\<not> om_is_dirty (om_update_one k v s) k"
  proof (cases "om_is_dirty s k")
    case True
    then have "\<not> loose_eq (om_get s k) ?d"
      using inv sc changes_ok_lookup[of "om_get_default s" "om_changed s" k]
      by (auto simp: om_is_dirty_def om_get_def om_inv_def loose_eq_sym)
    then show ?thesis using c dd True by (simp add: om_is_dirty_def om_update_one_changed Let_def)
  next
    case False
    then show ?thesis using c dd
      by (auto simp: om_is_dirty_def om_update_one_changed Let_def)
  qed
qed

section \<open>Properties\<close>

text \<open>C9: Round trip of one option: updating an option whose default is a string, number or boolean
  with a value that converts to a usable one makes \<open>get\<close> return that value in the type of the
  default, whatever was there before; the defaults and the other options stay as they were.\<close>

theorem om_update_get:
  assumes "om_inv s" and "plain_update (om_get_default s k) v" and "v \<noteq> Undef"
  shows "om_get (om_update (Str k) v s) k = convert_value_type (om_get_default s k) v
    \<and> (\<forall>j. om_get_default (om_update (Str k) v s) j = om_get_default s j)
    \<and> (\<forall>j. j = k \<or> om_get (om_update (Str k) v s) j = om_get s j)"
proof -
  have "om_update (Str k) v s = om_update_one k v s"
    using assms(3) by (simp add: om_update_def)
  then show ?thesis
    using om.upd_get[OF assms(1,2)] om.upd_other[of _ k v s] by auto
qed

lemma om_update_object:
  assumes "\<forall>(k, v) \<in> set ps. v \<noteq> Undef"
  shows "om_update (Obj r ps) Undef s = om.upd_all ps s"
  using assms
proof (induction ps arbitrary: s)
  case (Cons p ps)
  then show ?case by (cases p) (auto simp: om_update_def)
qed (simp add: om_update_def)

text \<open>Updating with an object sets every option it names, in one call and independently of the
  order of its properties.\<close>

theorem om_update_all_get:
  assumes "om_inv s" and "wf_obj ps" and "\<forall>(k, v) \<in> set ps. v \<noteq> Undef"
    and "map_of ps k = Some v" and "plain_update (om_get_default s k) v"
  shows "om_get (om_update (Obj r ps) Undef s) k = convert_value_type (om_get_default s k) v"
  using om.upd_all_get[OF assms(1,2,4,5)] om_update_object[OF assms(3)] by simp


lemma om_commit_result:
  assumes "wf_obj (om_changed s)"
  shows "om_get (om_commit s) k = (if has_key (om_changed s) k then oget (om_changed s) k
      else om_get_default s k)
    \<and> \<not> om_is_dirty (om_commit s) k
    \<and> (om_is_dirty s k \<longrightarrow> om_get (om_commit s) k = om_get s k)"
  using lookup_apply_obj[OF assms, of "om_options s" k]
  by (auto simp: om_commit_def om_reset_def om_get_alt om_is_dirty_def om_get_default_def oget_def
      has_key_def split: option.splits)

text \<open>\<open>commit\<close> makes the changed values the defaults: a changed option keeps its value, an
  unchanged one its default, and nothing is dirty afterwards.\<close>

theorem om_commit_keeps:
  assumes "wf_obj (om_changed s)"
  shows "om_get (om_commit s) k = (if has_key (om_changed s) k then oget (om_changed s) k
      else om_get_default s k)
    \<and> \<not> om_is_dirty (om_commit s) k
    \<and> (om_is_dirty s k \<longrightarrow> om_get (om_commit s) k = om_get s k)"
  using assms by (rule om_commit_result)

text \<open>Telling the form: a change of value is written once to each field bound to the option, in
  the order of the bindings and skipping the field that has the focus, and the event \<open>changed\<close> is
  fired once with the new and the old value; an update by an equal value does neither.\<close>

theorem om_update_notifies:
  "om_trace (om_update_one k v s) =
    (let w = convert_value_type (om_get_default s k) v in
     om_trace s @ (if loose_eq (om_get s k) w then []
       else List.map (\<lambda>f. SetValue f w) (List.filter (\<lambda>f. om_focused s \<noteq> Some f) (binds_of (om_binds s) k))
         @ [Changed k w (om_get s k)]))"
  by (simp add: om_update_one_def om_fire_eq field_writes_def Let_def)

text \<open>A change to the empty string is lost: with a string default that is not empty, clearing the
  field leaves the option clean and \<open>get\<close> returns the default.\<close>

theorem om_update_empty_lost:
  assumes "om_inv s" and "om_get_default s k = Str d" and "d \<noteq> []"
  shows "om_get (om_update (Str k) (Str []) s) k = Str d \<and> \<not> om_is_dirty (om_update (Str k) (Str []) s) k"
proof -
  have ty: "ext_type (om_get s k) = Some ''string''"
    using om_get_type[OF assms(1), of k] assms(2) by simp
  have ne: "om_get s k \<noteq> Str []"
    using assms(2,3) by (auto simp: om_get_alt Let_def)
  then have old: "\<not> loose_eq (om_get s k) (Str [])"
    using ty loose_eq_typed[of "Str []" "om_get s k"] by auto
  have new: "\<not> loose_eq (Str d) (Str [])"
    using assms(3) by (simp add: loose_eq_def)
  show ?thesis
    using assms(2) old new
    by (simp add: om_update_def om_get_alt om_is_dirty_def om_update_one_changed convert_value_type_def)
qed

subsection \<open>Witnesses\<close>

definition om_sample :: om where
  "om_sample = om_new [(''download_location'', Str ''/tmp''), (''max_upload_slots'', JInt (-1)),
     (''add_paused'', Bool False)]"

lemma om_sample_inv: "om_inv om_sample"
  by (simp add: om_sample_def om_inv_new)

lemma om_sample_default [simp]:
  "om_get_default om_sample ''max_upload_slots'' = Num (Fin (- 1))"
  "om_get_default om_sample ''download_location'' = Str ''/tmp''"
  by (simp_all add: om_sample_def om_new_def om_get_default_def oget_def)

lemma convert_sample [simp]: "convert_value_type (Num (Fin (- 1))) (Str '' 12 '') = Num (Fin 12)"
  by code_simp

theorem om_update_get_witness:
  "om_get (om_update (Str ''max_upload_slots'') (Str '' 12 '') om_sample) ''max_upload_slots'' = JInt 12"
  using om_update_get[OF om_sample_inv, of "''max_upload_slots''" "Str '' 12 ''"]
  by (simp add: plain_update_def)

theorem om_update_all_get_witness:
  "om_get (om_update (Obj 0 [(''add_paused'', Bool True), (''max_upload_slots'', Str '' 12 '')]) Undef
     om_sample) ''max_upload_slots'' = JInt 12"
  by (subst om_update_all_get[OF om_sample_inv, where v = "Str '' 12 ''"])
    (simp_all add: plain_update_def wf_obj_def)


theorem om_commit_keeps_witness:
  "om_get (om_commit (om_sample\<lparr> om_changed := [(''add_paused'', Bool True)] \<rparr>)) ''add_paused'' = Bool True"
  using om_commit_keeps[of "om_sample\<lparr> om_changed := [(''add_paused'', Bool True)] \<rparr>" "''add_paused''"]
  by (simp add: wf_obj_def has_key_def oget_def)

theorem om_update_empty_lost_witness:
  "om_get (om_update (Str ''download_location'') (Str []) om_sample) ''download_location'' = Str ''/tmp''"
  using om_update_empty_lost[OF om_sample_inv, of "''download_location''" "''/tmp''"] by simp

end
