(* ===== verification/MultiOptions.thy ===== *)
theory MultiOptions
  imports Options
begin

text \<open>
  \<open>Deluge.MultiOptionsManager\<close> (MultiOptionsManager.js): an options manager that
  keeps, for each id, values of its own (\<open>stored\<close>) and changes, over one set of
  options. It extends \<open>Deluge.OptionsManager\<close>: the fields and functions it inherits
  are those of \<open>om_base\<close>, what it overrides is defined here. Seen through one id it
  is an options manager: \<open>mo_view\<close> maps it to one, and the updates commute with it.
\<close>

section \<open>State and operations\<close>

text \<open>The id \<open>null\<close> is used as the property name \<open>null\<close>. An entry of \<open>stored\<close> can hold the value
  undefined (\<open>None\<close>), which reads like no entry.\<close>

record mo = om_base +
  mo_changed :: "(string \<times> jsval obj) list"
  mo_stored :: "(string \<times> jsval obj option) list"
  mo_current :: "string option"

definition mo_new :: "jsval obj \<Rightarrow> mo" where
  "mo_new opts = \<lparr> om_options = opts, om_binds = [], om_doption = [],
     om_focused = None, om_trace = [], mo_changed = [], mo_stored = [], mo_current = None \<rparr>"

definition mo_key :: "mo \<Rightarrow> string" where
  "mo_key s = (case mo_current s of None \<Rightarrow> ''null'' | Some i \<Rightarrow> i)"

definition mo_cur_changed :: "mo \<Rightarrow> jsval obj option" where
  "mo_cur_changed s = map_of (mo_changed s) (mo_key s)"

definition mo_cur_stored :: "mo \<Rightarrow> jsval obj option" where
  "mo_cur_stored s = (case map_of (mo_stored s) (mo_key s) of Some (Some ob) \<Rightarrow> Some ob | _ \<Rightarrow> None)"

definition mo_has :: "mo \<Rightarrow> string \<Rightarrow> bool" where
  "mo_has s opt = (case mo_cur_stored s of None \<Rightarrow> False | Some ob \<Rightarrow> \<not> is_empty (oget ob opt))"

definition mo_get_default :: "mo \<Rightarrow> string \<Rightarrow> jsval" where
  "mo_get_default s opt =
     (if mo_has s opt then oget (the (mo_cur_stored s)) opt else oget (om_options s) opt)"

definition mo_is_dirty :: "mo \<Rightarrow> string \<Rightarrow> bool" where
  "mo_is_dirty s opt = (case mo_cur_changed s of None \<Rightarrow> False | Some ob \<Rightarrow> \<not> is_empty (oget ob opt))"

definition mo_get :: "mo \<Rightarrow> string \<Rightarrow> jsval" where
  "mo_get s opt = (if mo_is_dirty s opt then oget (the (mo_cur_changed s)) opt else mo_get_default s opt)"

text \<open>\<open>get()\<close> with no argument reads every option, with several arguments those named.\<close>

definition mo_get_all :: "mo \<Rightarrow> jsval obj" where
  "mo_get_all s = for_in (\<lambda>opt v ob. put opt (mo_get s opt) ob) (om_options s) []"

definition mo_get_many :: "mo \<Rightarrow> string list \<Rightarrow> jsval obj" where
  "mo_get_many s opts = each_do (\<lambda>opt ob. put opt (mo_get s opt) ob) opts []"

definition mo_get_dirty :: "mo \<Rightarrow> jsval obj" where
  "mo_get_dirty s = (case mo_cur_changed s of None \<Rightarrow> [] | Some ob \<Rightarrow> ob)"

definition mo_change_id :: "string option \<Rightarrow> bool \<Rightarrow> mo \<Rightarrow> string option \<times> mo" where
  "mo_change_id i dont_update_binds s = (let s' = s\<lparr> mo_current := i \<rparr> in
     (mo_current s,
      if dont_update_binds then s'
      else for_in (\<lambda>opt v t. each_do
             (\<lambda>f t. t\<lparr> om_trace := om_trace t @ [SetValue f (mo_get t opt)] \<rparr>)
             (binds_of (om_binds t) opt) t) (om_options s') s'))"

definition mo_reset :: "mo \<Rightarrow> mo" where
  "mo_reset s = (let s' = (if mo_cur_changed s \<noteq> None
         then s\<lparr> mo_changed := del (mo_key s) (mo_changed s) \<rparr> else s) in
     if mo_cur_stored s' \<noteq> None then s'\<lparr> mo_stored := del (mo_key s') (mo_stored s') \<rparr> else s')"

definition mo_commit :: "mo \<Rightarrow> mo" where
  "mo_commit s = mo_reset (s\<lparr> mo_stored := put (mo_key s)
     (map_option (\<lambda>ob. apply_obj ob (mo_get_dirty s)) (mo_cur_stored s)) (mo_stored s) \<rparr>)"

definition mo_reset_all :: "mo \<Rightarrow> mo" where
  "mo_reset_all s = snd (mo_change_id None False (s\<lparr> mo_changed := [], mo_stored := [] \<rparr>))"

definition mo_set_default_one :: "string \<Rightarrow> jsval \<Rightarrow> mo \<Rightarrow> mo" where
  "mo_set_default_one opt v0 s =
     (let old = mo_get_default s opt; v = convert_value_type old v0 in
      if loose_eq old v then s
      else let ob = (case mo_cur_stored s of None \<Rightarrow> [] | Some ob \<Rightarrow> ob);
               s' = s\<lparr> mo_stored := put (mo_key s) (Some (put opt v ob)) (mo_stored s) \<rparr>
           in if mo_is_dirty s' opt then s' else om_fire opt v old s')"

definition mo_set_default :: "jsval \<Rightarrow> jsval \<Rightarrow> mo \<Rightarrow> mo" where
  "mo_set_default opt v s =
     (if opt = Undef then s
      else if v = Undef then
        for_in (\<lambda>k w. if w = Undef then for_in mo_set_default_one (props_of (Str k)) else mo_set_default_one k w)
          (props_of opt) s
      else mo_set_default_one (to_str opt) v s)"

definition mo_update_one :: "string \<Rightarrow> jsval \<Rightarrow> mo \<Rightarrow> mo" where
  "mo_update_one opt v0 s0 =
     (let s = (if mo_cur_changed s0 = None then s0\<lparr> mo_changed := put (mo_key s0) [] (mo_changed s0) \<rparr> else s0);
          ch = mo_get_dirty s;
          d = mo_get_default s opt; v = convert_value_type d v0; old = mo_get s opt in
      if loose_eq old v then s
      else if loose_eq d v then
        om_fire opt v old
          (if mo_is_dirty s opt then s\<lparr> mo_changed := put (mo_key s) (del opt ch) (mo_changed s) \<rparr> else s)
      else om_fire opt v old (s\<lparr> mo_changed := put (mo_key s) (put opt v ch) (mo_changed s) \<rparr>))"

definition mo_update :: "jsval \<Rightarrow> jsval \<Rightarrow> mo \<Rightarrow> mo" where
  "mo_update opt v s =
     (if opt = Undef then s
      else if v = Undef then
        for_in (\<lambda>k w. if w = Undef then for_in mo_update_one (props_of (Str k)) else mo_update_one k w)
          (props_of opt) s
      else mo_update_one (to_str opt) v s)"

section \<open>The manager seen through the current id\<close>

text \<open>The options manager a client sees while one id is selected: the defaults are the values
  stored for the id over the shared options, the changes are those of the id.\<close>

definition mo_option_names :: "mo \<Rightarrow> string list" where
  "mo_option_names s = remdups (keys_of (om_options s)
     @ (case mo_cur_stored s of None \<Rightarrow> [] | Some ob \<Rightarrow> keys_of ob))"

definition mo_view :: "mo \<Rightarrow> om" where
  "mo_view s = \<lparr> om_options = List.map (\<lambda>k. (k, mo_get_default s k)) (mo_option_names s),
     om_binds = om_binds s, om_doption = om_doption s, om_focused = om_focused s,
     om_trace = om_trace s, om_changed = mo_get_dirty s \<rparr>"

lemma oget_absent: "k \<notin> set (keys_of ob) \<Longrightarrow> oget ob k = Undef"
  using map_of_eq_None_iff[of ob k] by (simp add: oget_def keys_of_def)

lemma oget_tabulate: "oget (List.map (\<lambda>k. (k, f k)) ks) k = (if k \<in> set ks then f k else Undef)"
  by (induction ks) (auto simp: oget_def)

lemma mo_view_default [simp]: "om_get_default (mo_view s) = mo_get_default s"
proof
  fix k
  show "om_get_default (mo_view s) k = mo_get_default s k"
  proof (cases "k \<in> set (mo_option_names s)")
    case False
    then have "oget (om_options s) k = Undef" and "\<not> mo_has s k"
      by (auto simp: mo_option_names_def oget_absent mo_has_def split: option.splits)
    then show ?thesis
      using False by (simp add: om_get_default_def mo_view_def oget_tabulate mo_get_default_def)
  qed (simp add: om_get_default_def mo_view_def oget_tabulate)
qed

lemma mo_view_changed [simp]: "om_changed (mo_view s) = mo_get_dirty s"
  by (simp add: mo_view_def)

lemma mo_view_dirty [simp]: "om_is_dirty (mo_view s) k = mo_is_dirty s k"
  by (auto simp: om_is_dirty_def mo_is_dirty_def mo_get_dirty_def split: option.splits)

lemma mo_view_get [simp]: "om_get (mo_view s) k = mo_get s k"
  using mo_view_default[of s, unfolded om_get_default_def fun_eq_iff]
  by (auto simp: om_get_def mo_get_def mo_get_dirty_def mo_is_dirty_def split: option.splits)

lemma mo_key_simps [simp]:
  "mo_key (s\<lparr> mo_changed := c \<rparr>) = mo_key s"
  "mo_key (s\<lparr> mo_stored := t \<rparr>) = mo_key s"
  "mo_key (s\<lparr> om_trace := tr \<rparr>) = mo_key s"
  by (simp_all add: mo_key_def)

lemma mo_cur_simps [simp]:
  "mo_cur_changed (s\<lparr> om_trace := tr \<rparr>) = mo_cur_changed s"
  "mo_cur_changed (s\<lparr> mo_changed := put (mo_key s) ch c \<rparr>) = Some ch"
  "mo_cur_stored (s\<lparr> om_trace := tr \<rparr>) = mo_cur_stored s"
  "mo_cur_stored (s\<lparr> mo_changed := c \<rparr>) = mo_cur_stored s"
  by (simp_all add: mo_cur_changed_def mo_cur_stored_def lookup_put)

lemma mo_default_simps [simp]:
  "mo_get_default (s\<lparr> om_trace := tr \<rparr>) = mo_get_default s"
  "mo_get_default (s\<lparr> mo_changed := c \<rparr>) = mo_get_default s"
  by (simp_all add: fun_eq_iff mo_get_default_def mo_has_def)

text \<open>Two states that agree on what the current id sees.\<close>

lemma mo_view_trace: "mo_view (s\<lparr> om_trace := tr \<rparr>) = mo_view s \<lparr> om_trace := tr \<rparr>"
  by (simp add: mo_view_def mo_option_names_def mo_get_dirty_def)

lemma mo_view_put: "mo_view (s\<lparr> mo_changed := put (mo_key s) ch c \<rparr>) = mo_view s \<lparr> om_changed := ch \<rparr>"
  by (simp add: mo_view_def mo_option_names_def mo_get_dirty_def)

lemma field_writes_view: "field_writes (mo_view s) opt v = field_writes s opt v"
  by (simp add: field_writes_def mo_view_def)

lemma field_writes_mo [simp]: "field_writes (s\<lparr> mo_changed := c \<rparr>) opt v = field_writes s opt v"
  by (simp add: field_writes_def)

lemma mo_view_fire: "mo_view (om_fire opt v old s) = om_fire opt v old (mo_view s)"
  by (simp add: om_fire_eq mo_view_trace field_writes_view) (simp add: mo_view_def)

lemma mo_view_fresh:
  "mo_cur_changed s = None \<Longrightarrow> mo_view (s\<lparr> mo_changed := put (mo_key s) [] c \<rparr>) = mo_view s"
  by (simp add: mo_view_put) (simp add: mo_view_def mo_get_dirty_def)

lemma mo_view_update_one: "mo_view (mo_update_one opt v s) = om_update_one opt v (mo_view s)"
proof -
  define s1 where "s1 = (if mo_cur_changed s = None
    then s\<lparr> mo_changed := put (mo_key s) [] (mo_changed s) \<rparr> else s)"
  have eq: "mo_view s1 = mo_view s"
    by (simp add: s1_def mo_view_fresh)
  have "mo_view (mo_update_one opt v s) = om_update_one opt v (mo_view s1)"
    unfolding mo_update_one_def s1_def[symmetric]
    by (simp add: om_update_one_def Let_def mo_view_fire mo_view_put)
  then show ?thesis by (simp only: eq)
qed

definition mo_inv :: "mo \<Rightarrow> bool" where
  "mo_inv s = om_inv (mo_view s)"

interpretation mo: option_store mo_get mo_get_default mo_is_dirty mo_update_one mo_inv
proof unfold_locales
  fix s k v j
  show "\<not> mo_is_dirty s k \<Longrightarrow> mo_get s k = mo_get_default s k"
    by (simp add: mo_get_def)
  show "mo_inv s \<Longrightarrow> mo_inv (mo_update_one k v s)"
    unfolding mo_inv_def mo_view_update_one by (rule om.inv_upd)
  show "mo_inv s \<Longrightarrow> plain_update (mo_get_default s k) v \<Longrightarrow>
      mo_get (mo_update_one k v s) k = convert_value_type (mo_get_default s k) v"
    using om.upd_get[of "mo_view s" k v] unfolding mo_inv_def by (simp flip: mo_view_update_one)
  show "j \<noteq> k \<Longrightarrow> mo_get (mo_update_one k v s) j = mo_get s j"
    using om.upd_other[of j k v "mo_view s"] by (simp flip: mo_view_update_one)
  show "mo_get_default (mo_update_one k v s) j = mo_get_default s j"
    using om.upd_dflt[of k v "mo_view s" j] by (simp flip: mo_view_update_one)
  show "mo_inv s \<Longrightarrow> scalar (mo_get_default s k) \<Longrightarrow> convert_value_type (mo_get_default s k) v
      = mo_get_default s k \<Longrightarrow> \<not> mo_is_dirty (mo_update_one k v s) k"
    using om.upd_clean[of "mo_view s" k v] unfolding mo_inv_def by (simp flip: mo_view_update_one)
qed

lemma mo_update_invariant:
  assumes "P s" and "\<And>k w t. P t \<Longrightarrow> P (mo_update_one k w t)"
  shows "P (mo_update opt v s)"
  unfolding mo_update_def
  by (auto intro!: for_in_invariant[where P = P] assms split: if_splits)

section \<open>Properties\<close>

lemma mo_view_for_in:
  assumes "\<And>k w t. mo_view (f k w t) = g k w (mo_view t)"
  shows "mo_view (for_in f ps s) = for_in g ps (mo_view s)"
  using assms by (induction ps arbitrary: s) auto

text \<open>C3: The manager by id refines the plain options manager: seen through the selected id, an
  update (of one option, or of all the properties of an object) is the update of an options
  manager whose defaults are the values of that id, with the same events and field writes.\<close>

theorem mo_update_refines_om: "mo_view (mo_update opt v s) = om_update opt v (mo_view s)"
  unfolding mo_update_def om_update_def
  by (auto simp: mo_view_update_one intro!: mo_view_for_in)

lemma mo_update_one_other:
  assumes "i \<noteq> mo_key s"
  shows "map_of (mo_changed (mo_update_one opt v s)) i = map_of (mo_changed s) i"
    and "mo_stored (mo_update_one opt v s) = mo_stored s"
    and "om_options (mo_update_one opt v s) = om_options s"
    and "mo_key (mo_update_one opt v s) = mo_key s"
  using assms by (simp_all add: mo_update_one_def om_fire_eq Let_def lookup_put mo_key_def)

definition mo_at :: "string \<Rightarrow> mo \<Rightarrow> mo" where
  "mo_at i s = snd (mo_change_id (Some i) True s)"

definition same_for_id :: "string \<Rightarrow> mo \<Rightarrow> mo \<Rightarrow> bool" where
  "same_for_id i s t = (map_of (mo_changed s) i = map_of (mo_changed t) i
     \<and> map_of (mo_stored s) i = map_of (mo_stored t) i \<and> om_options s = om_options t)"

lemma same_for_id_get: "same_for_id i s t \<Longrightarrow> mo_get (mo_at i s) j = mo_get (mo_at i t) j"
  by (simp add: same_for_id_def mo_at_def mo_change_id_def mo_get_def mo_is_dirty_def
      mo_get_default_def mo_has_def mo_cur_changed_def mo_cur_stored_def mo_key_def)

lemma mo_update_other:
  assumes "i \<noteq> mo_key s"
  shows "same_for_id i (mo_update opt v s) s"
proof -
  let ?P = "\<lambda>t. same_for_id i t s \<and> mo_key t = mo_key s"
  have one: "?P t \<Longrightarrow> ?P (mo_update_one k w t)" for k w t
    using assms by (auto simp: same_for_id_def mo_update_one_other)
  have "?P (mo_update opt v s)"
    by (rule mo_update_invariant[where P = ?P]) (use one in \<open>auto simp: same_for_id_def\<close>)
  then show ?thesis ..
qed

text \<open>Ids do not interfere: updating the selected id leaves every value another id reads as it
  was.\<close>

theorem mo_update_other_id:
  assumes "i \<noteq> mo_key s"
  shows "mo_get (mo_at i (mo_update opt v s)) j = mo_get (mo_at i s) j"
  using mo_update_other[OF assms] by (rule same_for_id_get)

lemma mo_commit_cleared:
  "map_of (mo_changed (mo_commit s)) (mo_key s) = None"
  "case map_of (mo_stored (mo_commit s)) (mo_key s) of Some (Some ob) \<Rightarrow> False | _ \<Rightarrow> True"
  "om_options (mo_commit s) = om_options s" "mo_key (mo_commit s) = mo_key s"
  by (auto simp: mo_commit_def mo_reset_def mo_cur_changed_def mo_cur_stored_def lookup_put lookup_del
      mo_key_def Let_def split: option.splits)

lemma mo_commit_get: "mo_get (mo_commit s) k = oget (om_options s) k"
  using mo_commit_cleared[of s]
  by (auto simp: mo_get_def mo_get_default_def mo_is_dirty_def mo_has_def mo_cur_changed_def
      mo_cur_stored_def split: option.splits)

text \<open>\<open>commit\<close> of the manager by id keeps nothing: after it every option of the selected id
  reads as the shared option value, whatever had been changed or stored.\<close>

theorem mo_commit_discards: "mo_get (mo_commit s) k = oget (om_options s) k"
  by (rule mo_commit_get)

text \<open>\<open>setDefault\<close> stores a usable value as the default of the selected id: a clean option then
  reads as the new value, converted to the type of the old default.\<close>

theorem mo_set_default_get:
  assumes "plain_update (mo_get_default s k) v" and "v \<noteq> Undef"
  shows "mo_get_default (mo_set_default (Str k) v s) k = convert_value_type (mo_get_default s k) v"
proof -
  let ?d = "mo_get_default s k" and ?w = "convert_value_type (mo_get_default s k) v"
  have sc: "scalar ?d" "scalar ?w" "\<not> is_empty ?w"
    using assms(1) by (auto simp: plain_update_def scalar_not_empty)
  have "mo_set_default (Str k) v s = mo_set_default_one k v s"
    using assms(2) by (simp add: mo_set_default_def)
  moreover have "mo_get_default (mo_set_default_one k v s) k = ?w"
  proof (cases "loose_eq ?d ?w")
    case True
    then have "?d = ?w" using sc convert_scalar_type[OF sc(1)] by (metis loose_eq_typed)
    with True show ?thesis by (simp add: mo_set_default_one_def)
  next
    case False
    define t where "t = s\<lparr> mo_stored := put (mo_key s)
        (Some (put k ?w (case mo_cur_stored s of None \<Rightarrow> [] | Some ob \<Rightarrow> ob))) (mo_stored s) \<rparr>"
    have "mo_get_default t k = ?w"
      using sc(3) by (simp add: t_def mo_get_default_def mo_has_def mo_cur_stored_def lookup_put mo_key_def)
    then show ?thesis
      using False by (simp add: mo_set_default_one_def Let_def om_fire_eq flip: t_def)
  qed
  ultimately show ?thesis by simp
qed

theorem mo_update_other_id_witness:
  "mo_get (mo_at ''t2'' (mo_update (Str ''max_upload_slots'') (JInt 4)
      (mo_at ''t1'' (mo_new [(''max_upload_slots'', JInt (-1))])))) ''max_upload_slots'' = JInt (-1)"
  by (subst mo_update_other_id) (simp_all add: mo_at_def mo_change_id_def mo_key_def mo_new_def
      mo_get_def mo_is_dirty_def mo_get_default_def mo_has_def mo_cur_changed_def mo_cur_stored_def oget_def)

theorem mo_set_default_get_witness:
  "mo_get_default (mo_set_default (Str ''max_upload_slots'') (Str ''4'')
      (mo_at ''t1'' (mo_new [(''max_upload_slots'', JInt (-1))]))) ''max_upload_slots'' = JInt 4"
proof -
  let ?s = "mo_at ''t1'' (mo_new [(''max_upload_slots'', JInt (-1))])"
  have d: "mo_get_default ?s ''max_upload_slots'' = JInt (-1)" by code_simp
  have c: "convert_value_type (JInt (-1)) (Str ''4'') = JInt 4" by code_simp
  show ?thesis
    using mo_set_default_get[of ?s "''max_upload_slots''" "Str ''4''"] d c
    by (simp add: plain_update_def)
qed

end
