(* ===== verification/Events.thy ===== *)
theory Events
  imports JSValue
begin

text \<open>
  \<open>Deluge.EventsManager\<close> (EventsManager.js): listeners of the events of the interface
  and of the daemon, and the long poll \<open>web.get_events\<close> that brings the latter. A
  listener is a number, an event name keys its listeners in lower case as in
  \<open>Ext.util.Observable\<close>. The requests sent and the listeners called are the trace; a
  request stays outstanding until its reply is one of the steps.
\<close>

section \<open>State and operations\<close>

datatype em_effect =
    RegisterListener string
  | GetEvents
  | CallListener nat "jsval list"

record em =
  em_listeners :: "(string \<times> nat list) list"
  em_to_register :: "string list"
  em_client :: bool
  em_running :: bool
  em_error_count :: int
  em_pending :: nat
  em_trace :: "em_effect list"

text \<open>\<open>onLogin\<close> is the listener 0 of \<open>login\<close>, which the constructor registers.\<close>

definition on_login_id :: nat where
  "on_login_id = 0"

definition starts_upper :: "string \<Rightarrow> bool" where
  "starts_upper s = (case s of [] \<Rightarrow> False
     | c # cs \<Rightarrow> 65 \<le> (of_char c :: int) \<and> (of_char c :: int) \<le> 90)"

definition listeners_of :: "em \<Rightarrow> string \<Rightarrow> nat list" where
  "listeners_of s name = (case map_of (em_listeners s) (lower name) of None \<Rightarrow> [] | Some hs \<Rightarrow> hs)"

definition em_send :: "em_effect \<Rightarrow> em \<Rightarrow> em" where
  "em_send e s = s\<lparr> em_trace := em_trace s @ [e] \<rparr>"

definition em_add_listener :: "string \<Rightarrow> nat \<Rightarrow> em \<Rightarrow> em" where
  "em_add_listener name h s =
     (let s' = (if starts_upper name
        then (if \<not> em_client s then s\<lparr> em_to_register := em_to_register s @ [name] \<rparr>
              else em_send (RegisterListener name) s)
        else s)
      in s'\<lparr> em_listeners := put (lower name) (listeners_of s' name @ [h]) (em_listeners s') \<rparr>)"

definition em_new :: em where
  "em_new = em_add_listener ''login'' on_login_id
     \<lparr> em_listeners = [], em_to_register = [], em_client = False, em_running = False,
       em_error_count = 0, em_pending = 0, em_trace = [] \<rparr>"

definition em_get_events :: "em \<Rightarrow> em" where
  "em_get_events s = (em_send GetEvents s)\<lparr> em_pending := em_pending s + 1 \<rparr>"

definition em_start :: "em \<Rightarrow> em" where
  "em_start s = em_get_events
     ((each_do (\<lambda>name. em_send (RegisterListener name)) (em_to_register s) s)
        \<lparr> em_running := True, em_error_count := 0 \<rparr>)"

definition em_stop :: "em \<Rightarrow> em" where
  "em_stop s = s\<lparr> em_running := False \<rparr>"

definition em_on_login :: "em \<Rightarrow> em" where
  "em_on_login s = em_start s"

text \<open>\<open>fireEvent\<close>: the listeners registered when the event fires, in their order.\<close>

definition em_fire :: "string \<Rightarrow> jsval list \<Rightarrow> em \<Rightarrow> em" where
  "em_fire name args s =
     each_do (\<lambda>h s. if h = on_login_id then em_on_login s else em_send (CallListener h args) s)
       (listeners_of s name) s"

definition em_on_success :: "(string \<times> jsval list) list option \<Rightarrow> em \<Rightarrow> em" where
  "em_on_success events s =
     (if \<not> em_running s then s
      else em_get_events (case events of None \<Rightarrow> s
        | Some evs \<Rightarrow> each_do (\<lambda>(name, args). em_fire name args) evs s))"

definition em_on_failure :: "bool \<Rightarrow> em \<Rightarrow> em" where
  "em_on_failure is_timeout s =
     (if \<not> em_running s then s
      else if is_timeout then em_get_events s
      else let s' = s\<lparr> em_error_count := em_error_count s + 1 \<rparr> in
        if 3 \<le> em_error_count s then em_stop s' else em_get_events s')"

section \<open>The poll as a state machine\<close>

datatype em_reply = Delivered "(string \<times> jsval list) list option" | TimedOut | Failed

text \<open>A reply answers one outstanding request.\<close>

definition em_reply :: "em_reply \<Rightarrow> em \<Rightarrow> em" where
  "em_reply r s = (let s' = s\<lparr> em_pending := em_pending s - 1 \<rparr> in
     case r of Delivered evs \<Rightarrow> em_on_success evs s'
     | TimedOut \<Rightarrow> em_on_failure True s'
     | Failed \<Rightarrow> em_on_failure False s')"

inductive em_step :: "em \<Rightarrow> em \<Rightarrow> bool" where
  step_listen: "em_step s (em_add_listener name h s)"
| step_connect: "em_step s (s\<lparr> em_client := True \<rparr>)"
| step_fire: "em_step s (em_fire name args s)"
| step_stop: "em_step s (em_stop s)"
| step_reply: "0 < em_pending s \<Longrightarrow> em_step s (em_reply r s)"

inductive em_reachable :: "em \<Rightarrow> bool" where
  reach_new: "em_reachable em_new"
| reach_step: "em_reachable s \<Longrightarrow> em_step s t \<Longrightarrow> em_reachable t"

inductive_cases em_stepE: "em_step s t"

section \<open>Lemmas\<close>

lemma em_send_state [simp]:
  "em_running (em_send e s) = em_running s"
  "em_pending (em_send e s) = em_pending s"
  "em_error_count (em_send e s) = em_error_count s"
  "em_listeners (em_send e s) = em_listeners s"
  "em_to_register (em_send e s) = em_to_register s"
  "em_trace (em_send e s) = em_trace s @ [e]"
  by (simp_all add: em_send_def)

lemma each_send:
  "each_do (\<lambda>x. em_send (f x)) xs s = s\<lparr> em_trace := em_trace s @ List.map f xs \<rparr>"
  by (induction xs arbitrary: s) (auto simp: em_send_def)

lemma em_get_events_state [simp]:
  "em_running (em_get_events s) = em_running s"
  "em_pending (em_get_events s) = em_pending s + 1"
  "em_error_count (em_get_events s) = em_error_count s"
  "em_trace (em_get_events s) = em_trace s @ [GetEvents]"
  by (simp_all add: em_get_events_def)

lemma em_start_state [simp]:
  "em_running (em_start s)"
  "em_pending (em_start s) = em_pending s + 1"
  "em_error_count (em_start s) = 0"
  "em_trace (em_start s) = em_trace s @ List.map RegisterListener (em_to_register s) @ [GetEvents]"
  by (simp_all add: em_start_def each_send)

lemma em_add_listener_state [simp]:
  "em_running (em_add_listener name h s) = em_running s"
  "em_pending (em_add_listener name h s) = em_pending s"
  by (simp_all add: em_add_listener_def Let_def)

text \<open>While the manager runs, at least one request is outstanding.\<close>

definition em_live :: "em \<Rightarrow> bool" where
  "em_live s = (em_running s \<longrightarrow> 0 < em_pending s)"

lemma em_fire_mono:
  "em_running s \<longrightarrow> em_running (em_fire name args s)"
  "em_pending s \<le> em_pending (em_fire name args s)"
  "em_running s \<or> em_pending s < em_pending (em_fire name args s) \<or> \<not> em_running (em_fire name args s)"
proof -
  let ?P = "\<lambda>t. (em_running s \<longrightarrow> em_running t) \<and> em_pending s \<le> em_pending t
    \<and> (em_running t \<longrightarrow> em_running s \<or> em_pending s < em_pending t)"
  have "?P (em_fire name args s)"
    unfolding em_fire_def
    by (rule each_do_invariant) (auto simp: em_on_login_def)
  then show "em_running s \<longrightarrow> em_running (em_fire name args s)"
    "em_pending s \<le> em_pending (em_fire name args s)"
    "em_running s \<or> em_pending s < em_pending (em_fire name args s) \<or> \<not> em_running (em_fire name args s)"
    by blast+
qed

lemma em_live_fire: "em_live s \<Longrightarrow> em_live (em_fire name args s)"
  using em_fire_mono[of s name args] by (auto simp: em_live_def)

lemma em_live_on_success: "em_live (em_on_success evs s)" if "em_running s"
  using that by (simp add: em_on_success_def em_live_def)

lemma em_live_reply: "em_live (em_reply r s)"
  by (cases r) (auto simp: em_reply_def em_on_success_def em_on_failure_def em_live_def em_stop_def Let_def)

lemma em_live_step: "em_live s \<Longrightarrow> em_step s t \<Longrightarrow> em_live t"
  by (erule em_stepE, simp_all add: em_live_fire em_live_reply) (auto simp: em_stop_def em_live_def)

text \<open>Replies that do not contain the event \<open>login\<close>, by which a running manager is started again.\<close>

definition plain_events :: "em \<Rightarrow> (string \<times> jsval list) list \<Rightarrow> bool" where
  "plain_events s evs = (\<forall>(name, args) \<in> set evs. on_login_id \<notin> set (listeners_of s name))"

lemma em_fire_plain:
  "on_login_id \<notin> set (listeners_of s name) \<Longrightarrow>
   em_fire name args s = s\<lparr> em_trace := em_trace s @ List.map (\<lambda>h. CallListener h args) (listeners_of s name) \<rparr>"
proof -
  have "on_login_id \<notin> set hs \<Longrightarrow>
    each_do (\<lambda>h s. if h = on_login_id then em_on_login s else em_send (CallListener h args) s) hs s
      = s\<lparr> em_trace := em_trace s @ List.map (\<lambda>h. CallListener h args) hs \<rparr>" for hs s
    by (induction hs arbitrary: s) (auto simp: em_send_def)
  then show "on_login_id \<notin> set (listeners_of s name) \<Longrightarrow> ?thesis"
    unfolding em_fire_def by blast
qed

lemma listeners_of_trace [simp]: "listeners_of (s\<lparr> em_trace := t \<rparr>) = listeners_of s"
  by (simp add: listeners_of_def fun_eq_iff)

lemma em_fire_all_plain:
  "plain_events s evs \<Longrightarrow> each_do (\<lambda>(name, args). em_fire name args) evs s
    = s\<lparr> em_trace := em_trace s @
        concat (List.map (\<lambda>(name, args). List.map (\<lambda>h. CallListener h args) (listeners_of s name)) evs) \<rparr>"
proof (induction evs arbitrary: s)
  case (Cons e evs)
  obtain name args where e: "e = (name, args)" by (cases e)
  have "plain_events (s\<lparr> em_trace := t \<rparr>) evs" for t
    using Cons.prems by (auto simp: plain_events_def)
  moreover have "on_login_id \<notin> set (listeners_of s name)"
    using Cons.prems e by (auto simp: plain_events_def)
  ultimately show ?case using Cons.IH e by (simp add: em_fire_plain)
qed (simp add: plain_events_def)

text \<open>A reply to a manager that runs.\<close>

definition hard_failures :: "em_reply list \<Rightarrow> int" where
  "hard_failures rs = int (length (List.filter (\<lambda>r. r = Failed) rs))"

fun em_replies :: "em_reply list \<Rightarrow> em \<Rightarrow> em" where
  "em_replies [] s = s"
| "em_replies (r # rs) s = em_replies rs (em_reply r s)"

definition quiet_reply :: "em \<Rightarrow> em_reply \<Rightarrow> bool" where
  "quiet_reply s r = (case r of Delivered (Some evs) \<Rightarrow> plain_events s evs | _ \<Rightarrow> True)"

lemma em_on_success_quiet:
  assumes "quiet_reply s (Delivered evs)" and "em_running s"
  shows "em_running (em_on_success evs s) \<and> em_error_count (em_on_success evs s) = em_error_count s
    \<and> em_pending (em_on_success evs s) = em_pending s + 1
    \<and> em_listeners (em_on_success evs s) = em_listeners s"
  using assms
  by (cases evs) (auto simp: em_on_success_def quiet_reply_def em_fire_all_plain em_get_events_def em_send_def)

lemma quiet_reply_cong: "em_listeners s = em_listeners t \<Longrightarrow> quiet_reply s r = quiet_reply t r"
  by (auto simp: quiet_reply_def plain_events_def listeners_of_def split: em_reply.splits option.splits)

lemma em_reply_quiet:
  assumes "quiet_reply s r" and "em_running s"
  shows "em_running (em_reply r s) \<longleftrightarrow> r \<noteq> Failed \<or> em_error_count s < 3"
    and "em_error_count (em_reply r s) = em_error_count s + (if r = Failed then 1 else 0)"
    and "em_listeners (em_reply r s) = em_listeners s"
proof -
  let ?s = "s\<lparr> em_pending := em_pending s - 1 \<rparr>"
  have q: "quiet_reply ?s r" using assms(1) quiet_reply_cong[of ?s s r] by simp
  show "em_running (em_reply r s) \<longleftrightarrow> r \<noteq> Failed \<or> em_error_count s < 3"
    and "em_error_count (em_reply r s) = em_error_count s + (if r = Failed then 1 else 0)"
    and "em_listeners (em_reply r s) = em_listeners s"
    using assms em_on_success_quiet[of ?s] q
    by (cases r; auto simp: em_reply_def em_on_failure_def em_stop_def em_get_events_def em_send_def Let_def)+
qed

lemma em_replies_stopped: "\<not> em_running s \<Longrightarrow> \<not> em_running (em_replies rs s)"
proof (induction rs arbitrary: s)
  case (Cons r rs)
  then have "\<not> em_running (em_reply r s)"
    by (cases r) (auto simp: em_reply_def em_on_success_def em_on_failure_def Let_def)
  then show ?case using Cons.IH by simp
qed simp

lemma em_replies_running:
  assumes "\<forall>r \<in> set rs. quiet_reply s r" and "em_running s"
  shows "em_running (em_replies rs s) \<longleftrightarrow> rs = [] \<or> hard_failures rs = 0 \<or> em_error_count s + hard_failures rs \<le> 3"
  using assms
proof (induction rs arbitrary: s)
  case (Cons r rs)
  let ?t = "em_reply r s"
  have r: "em_running ?t \<longleftrightarrow> r \<noteq> Failed \<or> em_error_count s < 3"
    "em_error_count ?t = em_error_count s + (if r = Failed then 1 else 0)"
    "em_listeners ?t = em_listeners s"
    using Cons.prems by (auto simp: em_reply_quiet)
  have q: "\<forall>r \<in> set rs. quiet_reply ?t r"
    using Cons.prems quiet_reply_cong[OF r(3)] by simp
  show ?case
  proof (cases "em_running ?t")
    case True
    then show ?thesis using Cons.IH[OF q] r by (auto simp: hard_failures_def)
  next
    case False
    then show ?thesis using r em_replies_stopped[OF False] by (auto simp: hard_failures_def)
  qed
qed simp

section \<open>Properties\<close>


text \<open>C12: After a start the manager polls on through any replies until the fourth failure that is not
  a timeout, whatever successes and timeouts come between: failures are counted over the whole run,
  not in a row, and from the fourth on it is stopped for good.\<close>

theorem em_error_budget:
  assumes "\<forall>r \<in> set rs. quiet_reply s r"
  shows "em_running (em_replies rs (em_start s)) \<longleftrightarrow> hard_failures rs \<le> 3"
proof -
  have "em_listeners (em_start s) = em_listeners s"
    by (simp add: em_start_def em_get_events_def each_send)
  then have "\<forall>r \<in> set rs. quiet_reply (em_start s) r"
    using assms quiet_reply_cong by blast
  then show ?thesis
    using em_replies_running[of rs "em_start s"] by (auto simp: hard_failures_def)
qed

text \<open>A reply with events calls every listener of each event, in the order of the events and of
  the registrations, matching names without regard to case, and then polls again.\<close>

theorem em_events_dispatched:
  assumes "em_running s" and "plain_events s evs"
  shows "em_trace (em_on_success (Some evs) s) = em_trace s
      @ concat (List.map (\<lambda>(name, args). List.map (\<lambda>h. CallListener h args) (listeners_of s name)) evs)
      @ [GetEvents]"
  using assms by (simp add: em_on_success_def em_fire_all_plain)

text \<open>Daemon events subscribed to before the client exists are registered when the manager
  starts, each in the order of subscription, before the first poll.\<close>

theorem em_late_registration:
  assumes "starts_upper name" and "\<not> em_client s"
  shows "em_trace (em_start (em_add_listener name h s)) =
    em_trace s @ List.map RegisterListener (em_to_register s @ [name]) @ [GetEvents]"
  using assms by (simp add: em_add_listener_def Let_def)


theorem em_error_budget_witness:
  "\<not> em_running (em_replies [Failed, Delivered None, Failed, TimedOut, Failed, Delivered None, Failed] (em_start em_new))"
  by (subst em_error_budget) (simp_all add: quiet_reply_def hard_failures_def)

theorem em_events_dispatched_witness:
  "em_trace (em_on_success (Some [(''TorrentAddedEvent'', [Str ''id''])])
     (em_start (em_add_listener ''torrentaddedevent'' 7 em_new)))
   = [GetEvents, CallListener 7 [Str ''id''], GetEvents]"
proof -
  let ?s = "em_start (em_add_listener ''torrentaddedevent'' 7 em_new)"
  have l: "listeners_of ?s ''TorrentAddedEvent'' = [7]" and t: "em_trace ?s = [GetEvents]" by code_simp+
  show ?thesis
    using em_events_dispatched[of ?s "[(''TorrentAddedEvent'', [Str ''id''])]"]
    by (simp only: em_start_state(1) t) (simp add: plain_events_def l on_login_id_def)
qed

theorem em_late_registration_witness:
  "em_trace (em_start (em_add_listener ''PluginEnabledEvent'' 3 em_new))
    = [RegisterListener ''PluginEnabledEvent'', GetEvents]"
  by (subst em_late_registration) (code_simp+)

end
