(* ===== verification/RpcClient.thy ===== *)
theory RpcClient
  imports JSValue
begin

text \<open>
  The JSON-RPC client (Client.js): requests with increasing ids, the callbacks a
  caller passes behind the arguments of a call, the two reply handlers, and the
  methods the client offers after \<open>system.listMethods\<close>. The transport
  (\<open>Ext.Ajax.request\<close>) hands each handler the options of its own request; a reply is
  an HTTP failure, a body that cannot be decoded, or a decoded object.
\<close>

section \<open>Arguments and callbacks\<close>

text \<open>An argument is a value or an object with callbacks among its properties; a function is a number.\<close>

datatype cbval = PVal jsval | PFun nat

datatype arg = AVal jsval | AOpts "(string \<times> cbval) list"

record request =
  rq_id :: nat
  rq_method :: string
  rq_params :: "arg list"
  rq_options :: "(string \<times> cbval) list"

datatype rpc_effect =
    Send nat string "arg list"
  | FireError nat
  | FireConnected
  | CallFailure nat "cbval option" nat
  | CallSuccess nat "cbval option" jsval

definition option_keys :: "string list" where
  "option_keys = [''scope'', ''success'', ''failure'']"

fun arg_keys :: "arg \<Rightarrow> string list option" where
  "arg_keys (AOpts ps) = Some (keys_of ps)"
| "arg_keys (AVal (Obj r ps)) = Some (keys_of ps)"
| "arg_keys (AVal v) = None"

fun arg_props :: "arg \<Rightarrow> (string \<times> cbval) list" where
  "arg_props (AOpts ps) = ps"
| "arg_props (AVal (Obj r ps)) = List.map (\<lambda>(k, v). (k, PVal v)) ps"
| "arg_props (AVal v) = []"

text \<open>The last argument is taken as options when it is an object with one of the option keys.\<close>

definition parse_args :: "arg list \<Rightarrow> arg list \<times> (string \<times> cbval) list" where
  "parse_args args = (case args of [] \<Rightarrow> ([], [])
     | _ \<Rightarrow> (case arg_keys (last args) of None \<Rightarrow> (args, [])
         | Some ks \<Rightarrow> if (\<exists>k \<in> set option_keys. k \<in> set ks) then (butlast args, arg_props (last args))
             else (args, [])))"

section \<open>The client\<close>

text \<open>\<open>rpc_members\<close>: the components that are properties of the client, each an object from method name to
  the full method; \<open>rpc_components\<close> is the list of their names kept from the last reload.\<close>

record rpc =
  rpc_next :: nat
  rpc_pending :: "request list"
  rpc_components :: "string list"
  rpc_members :: "(string \<times> (string \<times> string) list) list"
  rpc_trace :: "rpc_effect list"

definition rpc_emit :: "rpc_effect \<Rightarrow> rpc \<Rightarrow> rpc" where
  "rpc_emit e c = c\<lparr> rpc_trace := rpc_trace c @ [e] \<rparr>"

definition rpc_execute :: "string \<Rightarrow> arg list \<Rightarrow> (string \<times> cbval) list \<Rightarrow> rpc \<Rightarrow> rpc" where
  "rpc_execute method params options c =
     (let r = \<lparr> rq_id = rpc_next c, rq_method = method, rq_params = params, rq_options = options \<rparr> in
      (rpc_emit (Send (rpc_next c) method params) c)
        \<lparr> rpc_next := rpc_next c + 1, rpc_pending := rpc_pending c @ [r] \<rparr>)"

text \<open>\<open>_setMethods\<close> is the callback 0 of the client itself.\<close>

definition set_methods_id :: nat where
  "set_methods_id = 0"

definition rpc_reload_methods :: "rpc \<Rightarrow> rpc" where
  "rpc_reload_methods c = rpc_execute ''system.listMethods'' [] [(''success'', PFun set_methods_id)] c"

definition rpc_new :: rpc where
  "rpc_new = rpc_reload_methods \<lparr> rpc_next = 0, rpc_pending = [], rpc_components = [], rpc_members = [],
     rpc_trace = [] \<rparr>"

definition split_dot :: "string \<Rightarrow> string \<times> string" where
  "split_dot m = (let a = takeWhile (\<lambda>c. c \<noteq> CHR ''.'') m; r = dropWhile (\<lambda>c. c \<noteq> CHR ''.'') m in
     (a, if r = [] then ''undefined'' else takeWhile (\<lambda>c. c \<noteq> CHR ''.'') (tl r)))"

definition add_method :: "string \<Rightarrow> (string \<times> (string \<times> string) list) list
    \<Rightarrow> (string \<times> (string \<times> string) list) list" where
  "add_method m cs = (case split_dot m of (a, b) \<Rightarrow>
     put a (put b m (case map_of cs a of None \<Rightarrow> [] | Some ob \<Rightarrow> ob)) cs)"

text \<open>The test \<open>!component in components\<close> looks up the negation of the name: \<open>"false"\<close> for every name
  that is not empty.\<close>

definition negated_key :: "string \<Rightarrow> string" where
  "negated_key s = (if s = [] then ''true'' else ''false'')"

definition rpc_set_methods :: "string list \<Rightarrow> rpc \<Rightarrow> rpc" where
  "rpc_set_methods methods c =
     (let components = each_do add_method methods [];
          members = for_in put components (rpc_members c);
          members' = each_do (\<lambda>n ms. if has_key components (negated_key n) then del n ms else ms)
            (rpc_components c) members
      in rpc_emit FireConnected (c\<lparr> rpc_members := members', rpc_components := keys_of components \<rparr>))"

text \<open>Calling \<open>client.a.b(args)\<close>: \<open>None\<close> when there is no such function.\<close>

definition rpc_call :: "string \<Rightarrow> string \<Rightarrow> arg list \<Rightarrow> rpc \<Rightarrow> rpc option" where
  "rpc_call a b args c = (case map_of (rpc_members c) a of None \<Rightarrow> None
     | Some ob \<Rightarrow> (case map_of ob b of None \<Rightarrow> None
         | Some m \<Rightarrow> (case parse_args args of (params, opts) \<Rightarrow> Some (rpc_execute m params opts c))))"

definition callback :: "string \<Rightarrow> (string \<times> cbval) list \<Rightarrow> nat option" where
  "callback k opts = (case map_of opts k of Some (PFun f) \<Rightarrow> Some f | _ \<Rightarrow> None)"

datatype reply = HttpFailure | BadBody | Decoded jsval jsval

definition rpc_on_failure :: "request \<Rightarrow> rpc \<Rightarrow> rpc" where
  "rpc_on_failure r c = (let c = rpc_emit (FireError (rq_id r)) c in
     case callback ''failure'' (rq_options r) of None \<Rightarrow> c
     | Some f \<Rightarrow> rpc_emit (CallFailure f (map_of (rq_options r) ''scope'') (rq_id r)) c)"

definition string_items :: "jsval \<Rightarrow> string list" where
  "string_items v = (case v of Arr r xs \<Rightarrow> List.map to_str xs | _ \<Rightarrow> [])"

definition rpc_on_success :: "request \<Rightarrow> jsval \<Rightarrow> jsval \<Rightarrow> rpc \<Rightarrow> rpc" where
  "rpc_on_success r result error c =
     (if truthy error then rpc_on_failure r c
      else (case callback ''success'' (rq_options r) of None \<Rightarrow> c
        | Some f \<Rightarrow> if f = set_methods_id then rpc_set_methods (string_items result) c
            else rpc_emit (CallSuccess f (map_of (rq_options r) ''scope'') result) c))"

text \<open>A reply answers the request at a position of the outstanding ones. A body that does not decode
  raises an exception in the handler, before any callback.\<close>

definition rpc_reply :: "nat \<Rightarrow> reply \<Rightarrow> rpc \<Rightarrow> rpc" where
  "rpc_reply n rep c = (if n < length (rpc_pending c) then
     (let r = rpc_pending c ! n;
          c' = c\<lparr> rpc_pending := take n (rpc_pending c) @ drop (Suc n) (rpc_pending c) \<rparr> in
      case rep of HttpFailure \<Rightarrow> rpc_on_failure r c'
      | BadBody \<Rightarrow> c'
      | Decoded result error \<Rightarrow> rpc_on_success r result error c')
     else c)"

inductive rpc_step :: "rpc \<Rightarrow> rpc \<Rightarrow> bool" where
  call: "rpc_call a b args c = Some c' \<Longrightarrow> rpc_step c c'"
| reload: "rpc_step c (rpc_reload_methods c)"
| reply: "n < length (rpc_pending c) \<Longrightarrow> rpc_step c (rpc_reply n rep c)"

inductive rpc_reachable :: "rpc \<Rightarrow> bool" where
  init: "rpc_reachable rpc_new"
| step: "rpc_reachable c \<Longrightarrow> rpc_step c c' \<Longrightarrow> rpc_reachable c'"

inductive_cases rpc_stepE: "rpc_step c c'"

section \<open>Lemmas\<close>

lemma rpc_emit_state [simp]:
  "rpc_next (rpc_emit e c) = rpc_next c" "rpc_pending (rpc_emit e c) = rpc_pending c"
  "rpc_members (rpc_emit e c) = rpc_members c" "rpc_components (rpc_emit e c) = rpc_components c"
  "rpc_trace (rpc_emit e c) = rpc_trace c @ [e]"
  by (simp_all add: rpc_emit_def)

lemma rpc_execute_state [simp]:
  "rpc_next (rpc_execute m ps os c) = rpc_next c + 1"
  "rpc_pending (rpc_execute m ps os c) = rpc_pending c
     @ [\<lparr> rq_id = rpc_next c, rq_method = m, rq_params = ps, rq_options = os \<rparr>]"
  "rpc_trace (rpc_execute m ps os c) = rpc_trace c @ [Send (rpc_next c) m ps]"
  by (simp_all add: rpc_execute_def Let_def)

lemma rpc_set_methods_state [simp]:
  "rpc_next (rpc_set_methods ms c) = rpc_next c"
  "rpc_pending (rpc_set_methods ms c) = rpc_pending c"
  by (simp_all add: rpc_set_methods_def Let_def)

lemma rpc_on_failure_state [simp]:
  "rpc_next (rpc_on_failure r c) = rpc_next c"
  "rpc_pending (rpc_on_failure r c) = rpc_pending c"
  by (simp_all add: rpc_on_failure_def Let_def split: option.splits)

lemma rpc_on_success_state [simp]:
  "rpc_next (rpc_on_success r x e c) = rpc_next c"
  "rpc_pending (rpc_on_success r x e c) = rpc_pending c"
  by (simp_all add: rpc_on_success_def split: option.splits)

lemma rpc_reply_state:
  "n < length (rpc_pending c) \<Longrightarrow> rpc_next (rpc_reply n rep c) = rpc_next c
    \<and> rpc_pending (rpc_reply n rep c) = take n (rpc_pending c) @ drop (Suc n) (rpc_pending c)"
  by (cases rep) (simp_all add: rpc_reply_def Let_def)

text \<open>Outstanding requests have different ids, all used before.\<close>

definition rpc_ok :: "rpc \<Rightarrow> bool" where
  "rpc_ok c = (distinct (List.map rq_id (rpc_pending c)) \<and> (\<forall>r \<in> set (rpc_pending c). rq_id r < rpc_next c))"

lemma rpc_ok_execute [inv_intros]: "rpc_ok c \<Longrightarrow> rpc_ok (rpc_execute m ps os c)"
  by (auto simp: rpc_ok_def)

lemma rpc_ok_call [inv_intros]: "rpc_ok c \<Longrightarrow> rpc_call a b args c = Some c' \<Longrightarrow> rpc_ok c'"
  by (auto simp: rpc_call_def split: option.splits prod.splits intro: rpc_ok_execute)

lemma rpc_ok_reply [inv_intros]: "rpc_ok c \<Longrightarrow> n < length (rpc_pending c) \<Longrightarrow> rpc_ok (rpc_reply n rep c)"
proof -
  assume ok: "rpc_ok c" and n: "n < length (rpc_pending c)"
  let ?xs = "rpc_pending c"
  have "?xs = take n ?xs @ ?xs ! n # drop (Suc n) ?xs" using n by (rule id_take_nth_drop)
  then have "distinct (List.map rq_id (take n ?xs @ ?xs ! n # drop (Suc n) ?xs))"
    using ok by (metis rpc_ok_def)
  moreover have "\<forall>r \<in> set (take n ?xs @ drop (Suc n) ?xs). rq_id r < rpc_next c"
    using ok by (auto simp: rpc_ok_def dest: in_set_takeD in_set_dropD)
  ultimately show ?thesis using rpc_reply_state[OF n] by (auto simp: rpc_ok_def)
qed

lemma rpc_ok_step: "rpc_ok c \<Longrightarrow> rpc_step c c' \<Longrightarrow> rpc_ok c'"
  by (erule rpc_stepE) (auto intro: inv_intros simp: rpc_reload_methods_def)

text \<open>The methods of a list, by component.\<close>

definition methods_of :: "string list \<Rightarrow> string \<Rightarrow> string \<Rightarrow> string option" where
  "methods_of ms a b = (let xs = List.filter (\<lambda>m. split_dot m = (a, b)) ms in
     if xs = [] then None else Some (last xs))"

definition member :: "(string \<times> (string \<times> string) list) list \<Rightarrow> string \<Rightarrow> string \<Rightarrow> string option" where
  "member cs a b = (case map_of cs a of None \<Rightarrow> None | Some ob \<Rightarrow> map_of ob b)"

lemma member_add_method: "member (add_method m cs) a b = (if split_dot m = (a, b) then Some m else member cs a b)"
  by (auto simp: member_def add_method_def lookup_put split: prod.splits option.splits)

lemma methods_of_snoc: "methods_of (ms @ [m]) a b = (if split_dot m = (a, b) then Some m else methods_of ms a b)"
  by (simp add: methods_of_def Let_def)

lemma member_components: "member (each_do add_method ms []) a b = methods_of ms a b"
proof (induction ms rule: rev_induct)
  case Nil
  then show ?case by (simp add: member_def methods_of_def)
next
  case (snoc m ms)
  then show ?case by (simp add: member_add_method methods_of_snoc)
qed

lemma wf_components: "wf_obj (each_do add_method ms [])"
  by (rule each_do_invariant) (auto simp: add_method_def split: prod.splits intro: wf_obj_put)

lemma components_key: "has_key (each_do add_method ms []) a \<longleftrightarrow> (\<exists>m \<in> set ms. fst (split_dot m) = a)"
proof (induction ms rule: rev_induct)
  case (snoc m ms)
  then show ?case by (auto simp: add_method_def has_key_put split: prod.splits)
qed (simp add: has_key_def)

lemma for_in_put: "for_in put cs ob = apply_obj ob cs"
  by (induction ob cs rule: apply_obj.induct) auto

lemma each_do_skip [simp]: "each_do (\<lambda>n ms. ms) ns ms = ms"
  by (induction ns) auto

lemma rpc_set_methods_members:
  assumes "\<forall>m \<in> set ms. fst (split_dot m) \<noteq> ''false'' \<and> fst (split_dot m) \<noteq> ''true''"
  shows "map_of (rpc_members (rpc_set_methods ms c)) a =
    (case map_of (each_do add_method ms []) a of Some ob \<Rightarrow> Some ob | None \<Rightarrow> map_of (rpc_members c) a)"
proof -
  have "\<not> has_key (each_do add_method ms []) (negated_key n)" for n
    using assms by (auto simp: components_key negated_key_def)
  then show ?thesis
    by (simp add: rpc_set_methods_def Let_def for_in_put lookup_apply_obj wf_components)
qed

section \<open>Properties\<close>

text \<open>C8: Outstanding requests never share an id: whatever calls, reloads and replies happen in which
  order, every outstanding request has an id of its own, smaller than the next one to be used.\<close>

theorem rpc_ids_unique:
  assumes "rpc_reachable c"
  shows "distinct (List.map rq_id (rpc_pending c)) \<and> (\<forall>r \<in> set (rpc_pending c). rq_id r < rpc_next c)"
proof -
  have "rpc_ok c"
    using assms
  proof (induction rule: rpc_reachable.induct)
    case init
    then show ?case by (simp add: rpc_new_def rpc_reload_methods_def rpc_ok_def)
  next
    case (step c c')
    then show ?case by (blast intro: rpc_ok_step)
  qed
  then show ?thesis by (simp add: rpc_ok_def)
qed

text \<open>What happens to a request that gets a reply.\<close>

definition settled_effects :: "request \<Rightarrow> reply \<Rightarrow> rpc_effect list" where
  "settled_effects r rep =
     (let failed = [FireError (rq_id r)] @ (case callback ''failure'' (rq_options r) of None \<Rightarrow> []
            | Some f \<Rightarrow> [CallFailure f (map_of (rq_options r) ''scope'') (rq_id r)]) in
      case rep of HttpFailure \<Rightarrow> failed
      | BadBody \<Rightarrow> []
      | Decoded result error \<Rightarrow> if truthy error then failed
          else (case callback ''success'' (rq_options r) of None \<Rightarrow> []
            | Some f \<Rightarrow> if f = set_methods_id then [FireConnected]
                else [CallSuccess f (map_of (rq_options r) ''scope'') result]))"


text \<open>After the method list has arrived the client offers exactly what it lists, for every component
  that is listed: calling a listed method sends that method with the arguments, the trailing options
  object taken off when it has a callback or a scope.\<close>

theorem rpc_call_listed:
  assumes "\<forall>m \<in> set ms. fst (split_dot m) \<noteq> ''false'' \<and> fst (split_dot m) \<noteq> ''true''"
    and "methods_of ms a b = Some m"
  shows "rpc_call a b args (rpc_set_methods ms c)
    = Some (rpc_execute m (fst (parse_args args)) (snd (parse_args args)) (rpc_set_methods ms c))"
proof -
  have "member (each_do add_method ms []) a b = Some m"
    using assms(2) by (simp add: member_components)
  then obtain ob where ob: "map_of (each_do add_method ms []) a = Some ob" "map_of ob b = Some m"
    by (auto simp: member_def split: option.splits)
  then have "map_of (rpc_members (rpc_set_methods ms c)) a = Some ob"
    by (simp add: rpc_set_methods_members[OF assms(1)])
  then show ?thesis using ob by (simp add: rpc_call_def split: prod.splits)
qed

text \<open>Components that are gone stay: a component the new method list no longer has is kept with its
  old methods, because the test for its absence looks up the wrong key.\<close>

theorem rpc_stale_component_kept:
  assumes "\<forall>m \<in> set ms. fst (split_dot m) \<notin> {''false'', ''true'', a}"
    and "map_of (rpc_members c) a = Some ob"
  shows "map_of (rpc_members (rpc_set_methods ms c)) a = Some ob \<and> a \<notin> set (rpc_components (rpc_set_methods ms c))"
proof -
  have "\<not> has_key (each_do add_method ms []) a" using assms(1) by (auto simp: components_key)
  moreover from this have "map_of (each_do add_method ms []) a = None" by (simp add: has_key_def)
  moreover have "rpc_components (rpc_set_methods ms c) = keys_of (each_do add_method ms [])"
    by (simp add: rpc_set_methods_def Let_def)
  ultimately show ?thesis
    using assms by (subst rpc_set_methods_members) (auto simp: set_keys_of)
qed

theorem rpc_ids_unique_witness:
  "distinct (List.map rq_id (rpc_pending (rpc_reload_methods rpc_new)))"
  using rpc_ids_unique[OF rpc_reachable.step[OF rpc_reachable.init rpc_step.reload]] by blast


theorem rpc_call_listed_witness:
  "rpc_call ''web'' ''connected'' [AOpts [(''success'', PFun 3)]] (rpc_set_methods [''core.get_config'', ''web.connected''] rpc_new)
    = Some (rpc_execute ''web.connected'' [] [(''success'', PFun 3)]
        (rpc_set_methods [''core.get_config'', ''web.connected''] rpc_new))"
proof -
  have s: "split_dot ''core.get_config'' = (''core'', ''get_config'')" "split_dot ''web.connected'' = (''web'', ''connected'')"
    by code_simp+
  have p: "parse_args [AOpts [(''success'', PFun 3)]] = ([], [(''success'', PFun 3)])" by code_simp
  show ?thesis
    by (subst rpc_call_listed[where m = "''web.connected''"]) (simp_all add: s p methods_of_def)
qed

theorem rpc_stale_component_kept_witness:
  "map_of (rpc_members (rpc_set_methods [''web.connected''] (rpc_set_methods [''label.get_labels''] rpc_new))) ''label''
    = Some [(''get_labels'', ''label.get_labels'')]"
proof -
  have s: "split_dot ''web.connected'' = (''web'', ''connected'')" by code_simp
  have m: "map_of (rpc_members (rpc_set_methods [''label.get_labels''] rpc_new)) ''label''
    = Some [(''get_labels'', ''label.get_labels'')]" by code_simp
  show ?thesis
    using rpc_stale_component_kept[OF _ m, of "[''web.connected'']"] by (simp add: s)
qed

end
