(* ===== verification/Formatters.thy ===== *)
theory Formatters
  imports JSValue
begin

text \<open>
  \<open>Deluge.Formatters\<close> (Formatters.js): sizes, speeds, remaining times, dates and the
  escaping of text for HTML, with what they use of \<open>Date\<close>. Every number is a double
  and every operation on it rounds; the theorems show where this is visible.
\<close>

section \<open>Dates\<close>

text \<open>The calendar of \<open>Date\<close>: \<open>day_from_year y\<close> is the day number of 1 January of year \<open>y\<close>; the year
  of a day is found by a search from a lower bound.\<close>

definition day_from_year :: "int \<Rightarrow> int" where
  "day_from_year y = 365 * (y - 1970) + (y - 1969) div 4 - (y - 1901) div 100 + (y - 1601) div 400"

definition leap_year :: "int \<Rightarrow> bool" where
  "leap_year y = (y mod 4 = 0 \<and> (y mod 100 \<noteq> 0 \<or> y mod 400 = 0))"

lemma div_step: "0 < n \<Longrightarrow> (a + 1) div n = a div n + (if (a + 1) mod n = 0 then 1 else 0)" for a n :: int
proof (cases "(a + 1) mod n = 0")
  case True
  assume n: "0 < n"
  from True obtain q where "a + 1 = n * q" by (auto simp: mod_eq_0_iff_dvd)
  then have "a = n * (q - 1) + (n - 1)" by (simp add: algebra_simps)
  then have "a div n = q - 1" and "(a + 1) div n = q"
    using n \<open>a + 1 = n * q\<close> by (auto intro: int_div_pos_eq)
  then show ?thesis using True by simp
next
  case False
  assume n: "0 < n"
  have "(a + 1) mod n < n" "0 \<le> (a + 1) mod n" using n by simp_all
  moreover have "a = n * ((a + 1) div n) + ((a + 1) mod n - 1)" by (simp add: algebra_simps)
  ultimately have "a div n = (a + 1) div n" using False n
    by (intro int_div_pos_eq[of a n "(a + 1) div n" "(a + 1) mod n - 1"]) linarith+
  then show ?thesis using False by simp
qed

lemma day_from_year_Suc: "day_from_year (y + 1) = day_from_year y + (if leap_year y then 366 else 365)"
proof -
  have m: "(y - 1968) mod 4 = y mod 4" "(y - 1900) mod 100 = y mod 100" "(y - 1600) mod 400 = y mod 400"
    using mod_mult_self4[of 4 "-492" y] mod_mult_self4[of 100 "-19" y] mod_mult_self4[of 400 "-4" y]
    by simp_all
  have "(100::int) dvd 400" and "(4::int) dvd 100" by simp_all
  then have im: "y mod 400 = 0 \<Longrightarrow> y mod 100 = 0" "y mod 100 = 0 \<Longrightarrow> y mod 4 = 0"
    unfolding mod_eq_0_iff_dvd by (blast intro: dvd_trans)+
  have e: "y - 1969 + 1 = y - 1968" "y - 1901 + 1 = y - 1900" "y - 1601 + 1 = y - 1600" by simp_all
  define A B C where "A = (y - 1969) div 4" and "B = (y - 1901) div 100" and "C = (y - 1601) div 400"
  define p q r where "p \<longleftrightarrow> y mod 4 = 0" and "q \<longleftrightarrow> y mod 100 = 0" and "r \<longleftrightarrow> y mod 400 = 0"
  have d: "(y - 1968) div 4 = A + (if p then 1 else 0)" "(y - 1900) div 100 = B + (if q then 1 else 0)"
    "(y - 1600) div 400 = C + (if r then 1 else 0)"
    unfolding A_def B_def C_def p_def q_def r_def
    by (rule div_step[of 4 "y - 1969", OF zero_less_numeral, unfolded e m]
        div_step[of 100 "y - 1901", OF zero_less_numeral, unfolded e m]
        div_step[of 400 "y - 1601", OF zero_less_numeral, unfolded e m])+
  have l: "leap_year y \<longleftrightarrow> p \<and> (\<not> q \<or> r)"
    by (simp add: leap_year_def p_def q_def r_def)
  have "day_from_year (y + 1) = 365 * (y - 1969) + (y - 1968) div 4 - (y - 1900) div 100 + (y - 1600) div 400"
    by (simp add: day_from_year_def)
  moreover have "day_from_year y = 365 * (y - 1970) + A - B + C"
    by (simp add: day_from_year_def A_def B_def C_def)
  moreover have "r \<Longrightarrow> q" "q \<Longrightarrow> p" using im by (simp_all add: p_def q_def r_def)
  ultimately show ?thesis
    unfolding d l by (cases p; cases q; cases r) simp_all
qed

function year_search :: "int \<Rightarrow> int \<Rightarrow> int" where
  "year_search y d = (if day_from_year (y + 1) \<le> d then year_search (y + 1) d else y)"
  by auto

termination year_search
proof (relation "measure (\<lambda>(y, d). nat (d - day_from_year y))")
  fix y d :: int
  assume "day_from_year (y + 1) \<le> d"
  then show "((y + 1, d), (y, d)) \<in> measure (\<lambda>(y, d). nat (d - day_from_year y))"
    using day_from_year_Suc[of y] by (auto split: if_splits)
qed simp

declare year_search.simps [simp del]

definition year_of_day :: "int \<Rightarrow> int" where
  "year_of_day d = year_search (1970 + (if 0 \<le> d then d div 366 else d div 365)) d"

definition month_lengths :: "bool \<Rightarrow> int list" where
  "month_lengths leap = [31, if leap then 29 else 28, 31, 30, 31, 30, 31, 31, 30, 31, 30, 31]"

fun month_search :: "int list \<Rightarrow> int \<Rightarrow> int \<times> int" where
  "month_search [] d = (0, d)"
| "month_search (l # ls) d = (if d < l then (0, d) else
     (case month_search ls (d - l) of (m, r) \<Rightarrow> (m + 1, r)))"

text \<open>Year, month (from 1), day of the month, hour, minute and second of a local time in seconds.\<close>

definition civil :: "int \<Rightarrow> int \<times> int \<times> int \<times> int \<times> int \<times> int" where
  "civil t = (let d = t div 86400; r = t mod 86400; y = year_of_day d;
       (m, k) = month_search (month_lengths (leap_year y)) (d - day_from_year y)
     in (y, m + 1, k + 1, r div 3600, r mod 3600 div 60, r mod 60))"

text \<open>The loop of \<open>zeroPad\<close>, and the text it ends with.\<close>

partial_function (option) zero_pad_loop :: "string \<Rightarrow> nat \<Rightarrow> string option" where
  "zero_pad_loop s n = (if length s < n then zero_pad_loop (CHR ''0'' # s) n else Some s)"

definition zero_pad :: "string \<Rightarrow> nat \<Rightarrow> string" where
  "zero_pad s n = replicate (n - length s) CHR ''0'' @ s"

text \<open>C26: The loop that pads a text with zeros ends for every text and width, with the shortest text of at least that
  width, which stands for the same number.\<close>

theorem zero_pad_ends:
  "zero_pad_loop s n = Some (zero_pad s n) \<and> length (zero_pad s n) = max n (length s)
    \<and> digits_val (zero_pad s n) = digits_val s"
proof -
  have "zero_pad_loop s n = Some (zero_pad s n)"
  proof (induction "n - length s" arbitrary: s)
    case 0
    then show ?case by (subst zero_pad_loop.simps) (simp add: zero_pad_def)
  next
    case (Suc k)
    have "zero_pad_loop (CHR ''0'' # s) n = Some (zero_pad (CHR ''0'' # s) n)" using Suc by simp
    moreover have "replicate (n - Suc (length s)) CHR ''0'' @ CHR ''0'' # s = replicate (n - length s) CHR ''0'' @ s"
      using Suc(2) by (metis Suc_diff_Suc append_Cons replicate_Suc replicate_app_Cons_same zero_less_Suc zero_less_diff)
    ultimately show ?case using Suc(2) by (subst zero_pad_loop.simps) (simp add: zero_pad_def)
  qed
  moreover have "digits_val (replicate m CHR ''0'' @ s) = digits_val s" for m
    by (induction m) (simp_all add: digits_val_def digit_val_def)
  ultimately show ?thesis by (simp add: zero_pad_def max_def)
qed

text \<open>\<open>new Date(ms)\<close> holds a number of milliseconds without its fraction, in range, or is invalid.\<close>

definition date_ms :: "jsnum \<Rightarrow> int option" where
  "date_ms n = (case n of Fin x \<Rightarrow>
     if \<bar>x\<bar> \<le> 8640000000000000 then Some (if x < 0 then - \<lfloor>- x\<rfloor> else \<lfloor>x\<rfloor>) else None | _ \<Rightarrow> None)"

text \<open>\<open>tz\<close> is the offset of local time, in seconds, at a time in seconds.\<close>

definition fmt_date :: "(int \<Rightarrow> int) \<Rightarrow> jsval \<Rightarrow> string" where
  "fmt_date tz v = (case date_ms (num_mul (to_num v) (Fin 1000)) of
     None \<Rightarrow> ''NaN/NaN/NaN NaN:NaN:NaN''
   | Some ms \<Rightarrow> let t = ms div 1000 in
     (case civil (t + tz t) of (y, mo, d, h, mi, s) \<Rightarrow>
       zero_pad (int_str d) 2 @ ''/'' @ zero_pad (int_str mo) 2 @ ''/'' @ int_str y @ '' ''
       @ zero_pad (int_str h) 2 @ '':'' @ zero_pad (int_str mi) 2 @ '':'' @ zero_pad (int_str s) 2))"

section \<open>Sizes and times\<close>

definition fmt_units :: "string \<Rightarrow> string \<Rightarrow> string \<Rightarrow> jsval \<Rightarrow> bool \<Rightarrow> string" where
  "fmt_units k m g v show_zero =
     (if \<not> truthy v \<and> \<not> show_zero then []
      else let b = num_div (to_num v) (Fin 1024) in
        if num_lt b (Fin 1024) then num_to_fixed 1 b @ k
        else let b = num_div b (Fin 1024) in
          if num_lt b (Fin 1024) then num_to_fixed 1 b @ m
          else num_to_fixed 1 (num_div b (Fin 1024)) @ g)"

definition fmt_size :: "jsval \<Rightarrow> bool \<Rightarrow> string" where
  "fmt_size = fmt_units '' KiB'' '' MiB'' '' GiB''"

definition fmt_size_short :: "jsval \<Rightarrow> bool \<Rightarrow> string" where
  "fmt_size_short = fmt_units '' K'' '' M'' '' G''"

definition fmt_speed :: "jsval \<Rightarrow> bool \<Rightarrow> string" where
  "fmt_speed v show_zero = (if \<not> truthy v \<and> \<not> show_zero then [] else fmt_size v show_zero @ ''/s'')"

definition two_units :: "string \<Rightarrow> string \<Rightarrow> jsnum \<Rightarrow> jsnum \<Rightarrow> string" where
  "two_units u w a b = (if num_lt (Fin 0) b then num_str a @ u @ '' '' @ num_str b @ w else num_str a @ u)"

definition split_units :: "rat \<Rightarrow> jsnum \<Rightarrow> jsnum \<times> jsnum" where
  "split_units n t = (let a = num_floor t in (a, num_round (num_mul (Fin n) (num_sub t a))))"

definition fmt_time :: "jsnum \<Rightarrow> string" where
  "fmt_time t0 =
     (if num_le t0 (Fin 0) then ''&infin;''
      else let s = num_to_fixed 0 t0; t = str_num s in
        if num_lt t (Fin 60) then s @ ''s''
        else let t = num_div t (Fin 60) in
          if num_lt t (Fin 60) then (case split_units 60 t of (m, s) \<Rightarrow> two_units ''m'' ''s'' m s)
          else let t = num_div t (Fin 60) in
            if num_lt t (Fin 24) then (case split_units 60 t of (h, m) \<Rightarrow> two_units ''h'' ''m'' h m)
            else let t = num_div t (Fin 24) in (case split_units 24 t of (d, h) \<Rightarrow> two_units ''d'' ''h'' d h))"

definition fmt_plain :: "jsval \<Rightarrow> jsval" where
  "fmt_plain v = v"

section \<open>Escaping\<close>

text \<open>\<open>replace\<close> with a string replaces the first occurrence only.\<close>

fun replace_first :: "char \<Rightarrow> char \<Rightarrow> string \<Rightarrow> string" where
  "replace_first a b [] = []"
| "replace_first a b (c # cs) = (if c = a then b # cs else c # replace_first a b cs)"

definition css_class_escape :: "string \<Rightarrow> string" where
  "css_class_escape s = replace_first CHR ''.'' CHR ''_'' (lower s)"

definition char_to_entity :: "(char \<times> string) list" where
  "char_to_entity = [(CHR ''&'', ''&amp;''), (CHR ''>'', ''&gt;''), (CHR ''<'', ''&lt;''),
     (CHR 0x22, ''&quot;''), (CHR 0x27, ''&#39;'')]"

definition encode_char :: "char \<Rightarrow> string" where
  "encode_char c = (case map_of char_to_entity c of None \<Rightarrow> [c] | Some e \<Rightarrow> e)"

definition encode_str :: "string \<Rightarrow> string" where
  "encode_str s = concat (List.map encode_char s)"

definition html_encode :: "jsval \<Rightarrow> jsval" where
  "html_encode v = (if \<not> truthy v then v else Str (encode_str (to_str v)))"

section \<open>Lemmas\<close>

lemma num_div_pow2:
  assumes "\<bar>n\<bar> < 2 ^ 53" and "k \<le> 60" and "j \<le> k"
  shows "num_div (Fin (of_int n / 2 ^ j)) (Fin (2 ^ (k - j))) = Fin (of_int n / 2 ^ k)"
proof -
  have e: "of_int n / 2 ^ j / 2 ^ (k - j) = (of_int n / 2 ^ k :: rat)"
    using assms(3) by (simp add: power_add[symmetric])
  have "of_int n / 2 ^ k = (of_int n * 2 powi - int k :: rat)"
    by (simp add: power_int_minus divide_inverse)
  moreover have "fl (of_int n * 2 powi - int k) = of_int n * 2 powi - int k"
    using assms by (intro fl_exact) auto
  ultimately have fl: "fl (of_int n / 2 ^ k) = of_int n / 2 ^ k" by simp
  have "\<bar>of_int n / 2 ^ k :: rat\<bar> \<le> 2 ^ 60"
  proof -
    have "\<bar>of_int n\<bar> < (2::rat) ^ 53"
      using assms(1) by (metis of_int_abs of_int_less_iff of_int_numeral of_int_power)
    then have "\<bar>of_int n :: rat\<bar> \<le> 2 ^ 60 * 1" by simp
    also have "\<dots> \<le> 2 ^ 60 * 2 ^ k" by (intro mult_left_mono) simp_all
    finally show ?thesis by (simp add: abs_divide divide_le_eq)
  qed
  then show ?thesis
    using fl by (simp only: num_div.simps e) (simp add: num_of_rat_small)
qed

lemma split_units_exact:
  assumes x: "\<bar>x - (of_int a + of_int b / of_int n)\<bar> \<le> 2 powi -47"
    and n: "2 \<le> n" "n \<le> 60" and b: "0 < b" "b < n" and a: "0 \<le> a" "a < 60"
  shows "split_units (of_int n) (Fin x) = (Fin (of_int a), Fin (of_int b))"
proof -
  let ?e = "2 powi -47 :: rat" and ?f = "of_int b / of_int n :: rat"
  have e: "?e \<le> 1 / 100000" by (simp add: power_int_minus)
  have nr: "(2::rat) \<le> of_int n" "of_int n \<le> (60::rat)" using n by linarith+
  have f1: "1 / 60 \<le> ?f"
  proof -
    have "of_int n \<le> (60::rat) * of_int b" using n b by linarith
    then show ?thesis using nr by (simp add: field_simps)
  qed
  have f2: "?f \<le> 1 - 1 / 60"
  proof -
    have "(60::rat) * of_int b \<le> 60 * of_int n - of_int n" using n b by linarith
    then show ?thesis using nr by (simp add: field_simps)
  qed
  have floor: "\<lfloor>x\<rfloor> = a"
    using x e f1 f2 by (intro floor_unique) linarith+
  let ?d = "x - of_int a"
  have d: "\<bar>?d\<bar> < 1" "\<bar>?d - ?f\<bar> \<le> 1 / 100000" using x e f1 f2 by linarith+
  have fd: "\<bar>fl ?d - ?d\<bar> \<le> 2 powi (-53 - 1)"
    using d by (intro fl_error_bound) simp_all
  have e54: "(2::rat) powi (-53 - 1) \<le> 1 / 100000" by (simp add: power_int_minus)
  have fd': "\<bar>fl ?d - ?f\<bar> \<le> 1 / 50000" using fd e54 d by linarith
  have fdb: "\<bar>fl ?d\<bar> \<le> 2" using fd' f1 f2 by linarith
  have sub: "num_sub (Fin x) (num_floor (Fin x)) = Fin (fl ?d)"
    using fdb by (simp add: num_sub_def floor num_of_rat_fl)
  let ?p = "of_int n * fl ?d"
  have pb: "\<bar>?p - of_int b\<bar> \<le> 60 / 50000"
  proof -
    have "?p - of_int b = of_int n * (fl ?d - ?f)"
      using nr by (simp add: field_simps)
    then have "\<bar>?p - of_int b\<bar> = of_int n * \<bar>fl ?d - ?f\<bar>"
      using nr by (simp add: abs_mult)
    also have "\<dots> \<le> 60 * (1 / 50000)"
      using nr fd' by (intro mult_mono) auto
    finally show ?thesis by simp
  qed
  have bb: "(0::rat) \<le> of_int b" "of_int b \<le> (60::rat)" using b n by linarith+
  have "(2::rat) powi (-46 + 53) = 128" by simp
  then have pl: "\<bar>?p\<bar> < 2 powi (-46 + 53)" using pb bb by linarith
  have "\<bar>fl ?p - ?p\<bar> \<le> 2 powi (-46 - 1)"
    by (rule fl_error_bound[OF pl]) simp
  moreover have "(2::rat) powi (-46 - 1) \<le> 1 / 100000" by (simp add: power_int_minus)
  ultimately have fpb: "\<bar>fl ?p - of_int b\<bar> < 1 / 2"
    using pb by linarith
  have mul: "num_mul (Fin (of_int n)) (Fin (fl ?d)) = Fin (fl ?p)"
  proof -
    have "\<bar>fl ?p\<bar> \<le> 1000000000" using fpb bb by linarith
    then show ?thesis by (simp add: num_of_rat_fl)
  qed
  show ?thesis
    using fpb by (simp only: split_units_def Let_def sub mul) (simp add: floor math_round_eq)
qed

lemma num_div_small:
  assumes "\<bar>x\<bar> < 2 ^ 20" and "1 \<le> y"
  shows "num_div (Fin x) (Fin y) = Fin (fl (x / y))"
    and "\<bar>x / y\<bar> < 64 \<Longrightarrow> \<bar>fl (x / y) - x / y\<bar> \<le> 2 powi -48"
proof -
  have "\<bar>x / y\<bar> \<le> \<bar>x\<bar>"
  proof -
    have "\<bar>x\<bar> * 1 \<le> \<bar>x\<bar> * y" using assms(2) by (intro mult_left_mono) auto
    then show ?thesis using assms(2) by (simp add: abs_divide divide_le_eq)
  qed
  then have b: "\<bar>x / y\<bar> < 2 ^ 20" using assms(1) by linarith
  have "\<bar>fl (x / y) - x / y\<bar> \<le> 2 powi (-33 - 1)"
    by (rule fl_error_bound) (use b in simp_all)
  moreover have "(2::rat) powi (-33 - 1) \<le> 1" and "(2::rat) ^ 20 \<le> 2000000"
    by (simp_all add: power_int_minus)
  ultimately have "\<bar>fl (x / y)\<bar> \<le> 1000000000"
    using b by linarith
  then show "num_div (Fin x) (Fin y) = Fin (fl (x / y))"
    using assms(2) by (simp add: num_of_rat_fl)
  show "\<bar>fl (x / y) - x / y\<bar> \<le> 2 powi -48" if "\<bar>x / y\<bar> < 64"
    using fl_error_bound[of "x / y" "-47"] that by simp
qed

lemma split_units_whole:
  assumes "\<bar>a\<bar> < 2 ^ 53"
  shows "split_units n (Fin (of_int a)) = (Fin (of_int a), Fin 0)"
  using assms num_of_rat_int[of 0] math_round_eq[of 0 0]
  by (simp add: split_units_def num_sub_def)

lemma to_fixed_0_int: "0 \<le> n \<Longrightarrow> n < 2 ^ 53 \<Longrightarrow> num_to_fixed 0 (Fin (of_int n)) = dec_str n"
proof -
  assume n: "0 \<le> n" "n < 2 ^ 53"
  have "of_int n < (2::rat) ^ 53"
    using n(2) by (metis of_int_less_iff of_int_numeral of_int_power)
  then have "of_int n < (10::rat) ^ 21" by simp
  moreover have "\<lfloor>of_int n + 1 / 2 :: rat\<rfloor> = n" by (rule floor_unique) simp_all
  ultimately show ?thesis using n(1)
    by (simp add: to_fixed_def fixed_int_def Let_def)
qed

lemma fmt_time_minutes:
  assumes "60 \<le> t" and "t < 3600"
  shows "fmt_time (Fin (of_int t)) = two_units ''m'' ''s'' (Fin (of_int (t div 60))) (Fin (of_int (t mod 60)))"
proof -
  let ?x = "of_int t / 60 :: rat" and ?m = "t div 60" and ?s = "t mod 60"
  have t: "(60::rat) \<le> of_int t" "of_int t \<le> (3599::rat)" using assms by linarith+
  have x: "?x = of_int ?m + of_int ?s / of_int 60"
  proof -
    have "of_int t = (of_int (60 * ?m + ?s) :: rat)" by (simp only: mult_div_mod_eq)
    then have "of_int t = 60 * of_int ?m + (of_int ?s :: rat)"
      by (simp only: of_int_add of_int_mult of_int_numeral)
    then show ?thesis by (simp add: add_divide_distrib)
  qed
  have div: "num_div (Fin (of_int t)) (Fin 60) = Fin (fl ?x)"
    by (rule num_div_small(1)) (use t in simp_all)
  have err: "\<bar>fl ?x - ?x\<bar> \<le> 2 powi -48"
    by (rule num_div_small(2)) (use t in simp_all)
  have e: "(2::rat) powi -48 \<le> 2 powi -47" "(2::rat) powi -48 \<le> 1 / 100000" by (simp_all add: power_int_minus)
  have lt: "fl ?x < 60" using err e t by linarith
  have range: "0 \<le> ?m" "?m < 60" "0 \<le> ?s" "?s < 60" using assms by simp_all
  have split: "split_units 60 (Fin (fl ?x)) = (Fin (of_int ?m), Fin (of_int ?s))"
  proof (cases "?s = 0")
    case True
    then have "?x = of_int ?m" using x by simp
    moreover have "\<bar>?m\<bar> < 2 ^ 53" using range by simp
    ultimately show ?thesis using True split_units_whole[of ?m 60] by simp
  next
    case False
    have "\<bar>fl ?x - (of_int ?m + of_int ?s / of_int 60)\<bar> \<le> 2 powi -47"
      using err e unfolding x[symmetric] by linarith
    then have "split_units (of_int 60) (Fin (fl ?x)) = (Fin (of_int ?m), Fin (of_int ?s))"
      by (rule split_units_exact) (use range False in simp_all)
    then show ?thesis by simp
  qed
  have s: "num_to_fixed 0 (Fin (of_int t)) = dec_str t" "str_num (dec_str t) = Fin (of_int t)"
    using assms by (simp_all add: to_fixed_0_int str_num_dec_str del: num_to_fixed.simps)
  have ge: "\<not> num_le (Fin (of_int t)) (Fin 0)" "\<not> num_lt (Fin (of_int t)) (Fin 60)"
    using t by (simp_all add: num_le_def)
  show ?thesis
    unfolding fmt_time_def s Let_def using ge lt by (simp only: div s) (simp add: split)
qed

lemma fmt_time_seconds:
  assumes "0 < t" and "t < 60"
  shows "fmt_time (Fin (of_int t)) = dec_str t @ ''s''"
proof -
  have s: "num_to_fixed 0 (Fin (of_int t)) = dec_str t" "str_num (dec_str t) = Fin (of_int t)"
    using assms by (simp_all add: to_fixed_0_int str_num_dec_str del: num_to_fixed.simps)
  have "(0::rat) < of_int t" "of_int t < (60::rat)" using assms by linarith+
  then show ?thesis
    by (simp add: fmt_time_def s num_le_def del: num_to_fixed.simps)
qed

lemma num_str_int: "\<bar>i\<bar> < 2 ^ 53 \<Longrightarrow> num_str (Fin (of_int i)) = int_str i"
  by (simp add: rat_str_int)

lemma int_str_nonneg: "0 \<le> i \<Longrightarrow> int_str i = dec_str i"
  by (simp add: int_str_def)

section \<open>Properties\<close>

text \<open>Below one hour the remaining time is exact in spite of the rounding of the divisions: a whole
  number of seconds is shown as its minutes and seconds, the seconds left out when they are zero.\<close>

theorem fmt_time_exact_below_hour:
  assumes "0 < t" and "t < 3600"
  shows "fmt_time (Fin (of_int t)) =
    (if t < 60 then dec_str t @ ''s''
     else if t mod 60 = 0 then dec_str (t div 60) @ ''m''
     else dec_str (t div 60) @ ''m '' @ dec_str (t mod 60) @ ''s'')"
proof (cases "t < 60")
  case True
  then show ?thesis using assms(1) by (simp add: fmt_time_seconds)
next
  case False
  have "\<bar>t div 60\<bar> < 2 ^ 53" "\<bar>t mod 60\<bar> < 2 ^ 53" using assms by simp_all
  then have "num_str (Fin (of_int (t div 60))) = dec_str (t div 60)"
    "num_str (Fin (of_int (t mod 60))) = dec_str (t mod 60)"
    using assms by (simp_all only: num_str_int) (simp_all add: int_str_nonneg)
  moreover have "0 < t mod 60 \<longleftrightarrow> t mod 60 \<noteq> 0" by (simp add: order_less_le)
  ultimately show ?thesis
    using False assms by (simp add: fmt_time_minutes two_units_def del: num_str.simps)
qed

text \<open>From one hour on the second unit is rounded and not carried: one second below two hours
  reads 60 minutes, one second below two days 24 hours.\<close>

theorem fmt_time_no_carry:
  "fmt_time (Fin 7199) = ''1h 60m'' \<and> fmt_time (Fin 172799) = ''1d 24h''"
  by code_simp

text \<open>C14: A size is shown in the first of KiB, MiB and GiB in which it is below 1024 (GiB without
  bound), as the decimal nearest to the exact quotient: no error of the divisions shows.\<close>

theorem fmt_size_exact:
  assumes "0 \<le> n" and "n < 2 ^ 53"
  shows "fmt_size (JInt n) True =
      (if n < 2 ^ 20 then to_fixed 1 (of_int n / 2 ^ 10) @ '' KiB''
       else if n < 2 ^ 30 then to_fixed 1 (of_int n / 2 ^ 20) @ '' MiB''
       else to_fixed 1 (of_int n / 2 ^ 30) @ '' GiB'')
    \<and> \<bar>of_int (fixed_int 1 (of_int n / 2 ^ k)) / 10 - of_int n / 2 ^ k\<bar> \<le> (1 / 20 :: rat)"
proof -
  have n: "\<bar>n\<bar> < 2 ^ 53" using assms by simp
  have d1: "num_div (Fin (of_int n)) (Fin 1024) = Fin (of_int n / 2 ^ 10)"
    using num_div_pow2[OF n, of 10 0] by simp
  have d2: "num_div (Fin (of_int n / 2 ^ 10)) (Fin 1024) = Fin (of_int n / 2 ^ 20)"
    using num_div_pow2[OF n, of 20 10] by simp
  have d3: "num_div (Fin (of_int n / 2 ^ 20)) (Fin 1024) = Fin (of_int n / 2 ^ 30)"
    using num_div_pow2[OF n, of 30 20] by simp
  have nr: "(0::rat) \<le> of_int n" "of_int n < (2::rat) ^ 53"
    using assms by (simp, metis of_int_less_iff of_int_numeral of_int_power)
  have f: "num_to_fixed 1 (Fin (of_int n / 2 ^ j)) = to_fixed 1 (of_int n / 2 ^ j)" for j
  proof -
    have "of_int n * 1 \<le> (of_int n :: rat) * 2 ^ j" using nr(1) by (intro mult_left_mono) simp_all
    then have "of_int n / 2 ^ j \<le> (of_int n :: rat)" by (simp add: divide_le_eq)
    also have "\<dots> < 10 ^ 21" using nr(2) by simp
    finally show ?thesis using nr(1) by (simp add: abs_divide)
  qed
  have l: "of_int n / 2 ^ 10 < (1024::rat) \<longleftrightarrow> n < 2 ^ 20" "of_int n / 2 ^ 20 < (1024::rat) \<longleftrightarrow> n < 2 ^ 30"
    by (simp_all add: divide_less_eq)
  have "fmt_size (JInt n) True =
      (if n < 2 ^ 20 then to_fixed 1 (of_int n / 2 ^ 10) @ '' KiB''
       else if n < 2 ^ 30 then to_fixed 1 (of_int n / 2 ^ 20) @ '' MiB''
       else to_fixed 1 (of_int n / 2 ^ 30) @ '' GiB'')"
    unfolding fmt_size_def fmt_units_def Let_def
    by (simp only: to_num_def to_prim.simps prim_num.simps d1 d2 d3 f num_lt.simps l) simp
  moreover have "\<bar>of_int (fixed_int 1 (of_int n / 2 ^ k)) / 10 - of_int n / 2 ^ k\<bar> \<le> (1 / 20 :: rat)"
    using fixed_int_error[of 1 "of_int n / 2 ^ k"] nr(1) by simp
  ultimately show ?thesis ..
qed

text \<open>Reading the entities back.\<close>

fun decode_str :: "string \<Rightarrow> string" where
  "decode_str [] = []"
| "decode_str (c # cs) =
     (if c = CHR ''&'' then
        (if take 4 cs = ''amp;'' then CHR ''&'' # decode_str (drop 4 cs)
         else if take 3 cs = ''gt;'' then CHR ''>'' # decode_str (drop 3 cs)
         else if take 3 cs = ''lt;'' then CHR ''<'' # decode_str (drop 3 cs)
         else if take 5 cs = ''quot;'' then CHR 0x22 # decode_str (drop 5 cs)
         else if take 4 cs = ''#39;'' then CHR 0x27 # decode_str (drop 4 cs)
         else c # decode_str cs)
      else c # decode_str cs)"

lemma encode_char_cases:
  obtains "encode_char c = ''&amp;''" "c = CHR ''&''" | "encode_char c = ''&gt;''" "c = CHR ''>''"
  | "encode_char c = ''&lt;''" "c = CHR ''<''" | "encode_char c = ''&quot;''" "c = CHR 0x22"
  | "encode_char c = ''&#39;''" "c = CHR 0x27"
  | "encode_char c = [c]" "c \<notin> {CHR ''&'', CHR ''>'', CHR ''<'', CHR 0x22, CHR 0x27}"
  by (cases "c \<in> {CHR ''&'', CHR ''>'', CHR ''<'', CHR 0x22, CHR 0x27}")
    (auto simp: encode_char_def char_to_entity_def)

lemma decode_encode_str: "decode_str (encode_str s) = s"
proof (induction s)
  case (Cons c s)
  then show ?case
    by (cases c rule: encode_char_cases) (simp_all add: encode_str_def)
qed (simp add: encode_str_def)

lemma encode_str_safe: "set (encode_str s) \<inter> {CHR ''>'', CHR ''<'', CHR 0x22, CHR 0x27} = {}"
proof (induction s)
  case (Cons c s)
  then show ?case
    by (cases c rule: encode_char_cases) (simp_all add: encode_str_def)
qed (simp add: encode_str_def)

text \<open>The escaping for HTML is faithful: the text is recovered by reading the entities back, and
  no character that opens or closes a tag or quotes an attribute is left in it.\<close>

theorem html_encode_faithful:
  assumes "truthy v"
  shows "\<exists>e. html_encode v = Str e \<and> decode_str e = to_str v
    \<and> set e \<inter> {CHR ''>'', CHR ''<'', CHR 0x22, CHR 0x27} = {}"
  using assms encode_str_safe[of "to_str v"] by (simp add: html_encode_def decode_encode_str)

lemma day_from_year_up: "day_from_year (1970 + int k) \<le> 366 * int k"
proof (induction k)
  case (Suc k)
  have "1970 + int (Suc k) = 1970 + int k + 1" by simp
  then show ?case using Suc day_from_year_Suc[of "1970 + int k"] by (simp split: if_splits)
qed (simp add: day_from_year_def)

lemma day_from_year_down: "day_from_year (1970 - int k) \<le> - 365 * int k"
proof (induction k)
  case (Suc k)
  have "1970 - int k = 1970 - int (Suc k) + 1" by simp
  then show ?case using Suc day_from_year_Suc[of "1970 - int (Suc k)"] by (simp split: if_splits)
qed (simp add: day_from_year_def)

lemma year_search_bounds:
  "day_from_year y \<le> d \<Longrightarrow> day_from_year (year_search y d) \<le> d \<and> d < day_from_year (year_search y d + 1)"
proof (induction y d rule: year_search.induct)
  case (1 y d)
  then show ?case by (subst (1 2) year_search.simps) auto
qed

lemma year_of_day_bounds: "day_from_year (year_of_day d) \<le> d \<and> d < day_from_year (year_of_day d + 1)"
proof -
  have "day_from_year (1970 + (if 0 \<le> d then d div 366 else d div 365)) \<le> d"
  proof (cases "0 \<le> d")
    case True
    have "366 * (d div 366) \<le> d" by simp
    moreover have "0 \<le> d div 366" using True by simp
    ultimately show ?thesis using True day_from_year_up[of "nat (d div 366)"] by simp
  next
    case False
    have "365 * (d div 365) \<le> d" by simp
    moreover have "d div 365 < 0" using False by (simp add: div_neg_pos_less0)
    ultimately show ?thesis using False day_from_year_down[of "nat (- (d div 365))"] by simp
  qed
  then show ?thesis unfolding year_of_day_def by (rule year_search_bounds)
qed

lemma month_search_bounds:
  assumes "0 \<le> d" and "d < sum_list ls" and "month_search ls d = (m, r)"
  shows "0 \<le> m \<and> nat m < length ls \<and> 0 \<le> r \<and> r < ls ! nat m \<and> d = sum_list (take (nat m) ls) + r"
  using assms
proof (induction ls d arbitrary: m r rule: month_search.induct)
  case (2 l ls d)
  show ?case
  proof (cases "d < l")
    case False
    obtain m' r' where s: "month_search ls (d - l) = (m', r')" by fastforce
    have "0 \<le> m' \<and> nat m' < length ls \<and> 0 \<le> r' \<and> r' < ls ! nat m'
      \<and> d - l = sum_list (take (nat m') ls) + r'"
      using 2(1)[OF False _ _ s] 2(2,3) False by simp
    then show ?thesis using 2(4) False s by (auto simp: nat_add_distrib)
  qed (use 2 in auto)
qed simp

text \<open>The second a civil date and time denote.\<close>

definition civil_secs :: "int \<Rightarrow> int \<Rightarrow> int \<Rightarrow> int \<Rightarrow> int \<Rightarrow> int \<Rightarrow> int" where
  "civil_secs y mo d h mi s = 86400 * (day_from_year y
     + sum_list (take (nat (mo - 1)) (month_lengths (leap_year y))) + d - 1) + 3600 * h + 60 * mi + s"

definition civil_ok :: "int \<Rightarrow> int \<Rightarrow> int \<Rightarrow> int \<Rightarrow> int \<Rightarrow> int \<Rightarrow> bool" where
  "civil_ok y mo d h mi s = (1 \<le> mo \<and> mo \<le> 12 \<and> 1 \<le> d \<and> d \<le> month_lengths (leap_year y) ! nat (mo - 1)
     \<and> 0 \<le> h \<and> h < 24 \<and> 0 \<le> mi \<and> mi < 60 \<and> 0 \<le> s \<and> s < 60)"

lemma civil_okI:
  assumes "0 \<le> m" and "nat m < 12" and "0 \<le> k" and "k < month_lengths (leap_year y) ! nat m"
    and "0 \<le> h" "h < 24" "0 \<le> mi" "mi < 60" "0 \<le> s" "s < 60"
  shows "civil_ok y (m + 1) (k + 1) h mi s"
  using assms by (simp add: civil_ok_def)

lemma time_of_day:
  fixes r :: int
  assumes "0 \<le> r" and "r < 86400"
  shows "0 \<le> r div 3600" "r div 3600 < 24" "0 \<le> r mod 3600 div 60" "r mod 3600 div 60 < 60"
    "0 \<le> r mod 60" "r mod 60 < 60" "3600 * (r div 3600) + 60 * (r mod 3600 div 60) + r mod 60 = r"
proof -
  define a b c where "a = r div 3600" and "b = r mod 3600" and "c = b div 60"
  have b: "0 \<le> b" "b < 3600" "r = 3600 * a + b" by (simp_all add: a_def b_def)
  have "r mod 60 = b mod 60" by (simp add: b_def mod_mod_cancel)
  then have m: "b = 60 * c + r mod 60" "0 \<le> r mod 60" "r mod 60 < 60" by (simp_all add: c_def)
  define e where "e = r mod 60"
  have "0 \<le> a" "a < 24" "0 \<le> c" "c < 60" "3600 * a + 60 * c + e = r"
    using assms b m unfolding e_def[symmetric] by linarith+
  then show "0 \<le> r div 3600" "r div 3600 < 24" "0 \<le> r mod 3600 div 60" "r mod 3600 div 60 < 60"
    "0 \<le> r mod 60" "r mod 60 < 60" "3600 * (r div 3600) + 60 * (r mod 3600 div 60) + r mod 60 = r"
    using m unfolding a_def b_def c_def e_def by blast+
qed

lemma civil_correct:
  assumes "civil t = (y, mo, d, h, mi, s)"
  shows "civil_ok y mo d h mi s \<and> civil_secs y mo d h mi s = t"
proof -
  let ?d = "t div 86400" and ?r = "t mod 86400" and ?y = "year_of_day (t div 86400)"
  let ?ls = "month_lengths (leap_year ?y)"
  obtain m k where mk: "month_search ?ls (?d - day_from_year ?y) = (m, k)" by fastforce
  have sum: "sum_list ?ls = day_from_year (?y + 1) - day_from_year ?y"
    by (simp add: day_from_year_Suc month_lengths_def)
  have m: "0 \<le> m" "nat m < length ?ls" "0 \<le> k" "k < ?ls ! nat m"
    "?d - day_from_year ?y = sum_list (take (nat m) ?ls) + k"
    using month_search_bounds[OF _ _ mk] year_of_day_bounds[of ?d] sum by auto
  have eq: "y = ?y" "mo = m + 1" "d = k + 1" "h = ?r div 3600" "mi = ?r mod 3600 div 60" "s = ?r mod 60"
    using assms mk by (simp_all add: civil_def Let_def)
  have len: "length ?ls = 12" by (simp add: month_lengths_def)
  have r: "0 \<le> ?r" "?r < 86400" by (rule pos_mod_sign pos_mod_bound; simp)+
  note tod = time_of_day[OF r]
  have "civil_ok y mo d h mi s"
    unfolding eq by (rule civil_okI) (use m len tod in \<open>simp_all only:\<close>)
  moreover have "civil_secs y mo d h mi s = 86400 * ?d + (3600 * h + 60 * mi + s)"
    unfolding civil_secs_def using m(1,5) eq(1-3) by simp
  moreover have "86400 * ?d + ?r = t" by (rule mult_div_mod_eq)
  ultimately show ?thesis unfolding eq tod(7) by (simp only: simp_thms)
qed

text \<open>A date is shown as the day, month, year, hour, minute and second of the calendar that denote
  the local time exactly: each field is in its range, two digits wide at least, and together they
  add up to the timestamp.\<close>

theorem fmt_date_denotes:
  assumes "\<bar>t\<bar> \<le> 8640000000000"
  shows "\<exists>y mo d h mi s. fmt_date tz (JInt t) =
      zero_pad (int_str d) 2 @ ''/'' @ zero_pad (int_str mo) 2 @ ''/'' @ int_str y @ '' ''
       @ zero_pad (int_str h) 2 @ '':'' @ zero_pad (int_str mi) 2 @ '':'' @ zero_pad (int_str s) 2
    \<and> civil_ok y mo d h mi s \<and> civil_secs y mo d h mi s = t + tz t"
proof -
  have "num_of_rat (of_int (t * 1000)) = Fin (of_int (t * 1000))"
    using assms by (intro num_of_rat_int) simp
  then have "num_mul (Fin (of_int t)) (Fin 1000) = Fin (of_int (t * 1000))" by simp
  moreover have "date_ms (Fin (of_int (t * 1000))) = Some (t * 1000)"
  proof -
    have "\<bar>t * 1000\<bar> \<le> 8640000000000000" using assms by simp
    then have "\<bar>of_int (t * 1000) :: rat\<bar> \<le> 8640000000000000" by linarith
    moreover have "- of_int (t * 1000) = (of_int (- (t * 1000)) :: rat)" by simp
    ultimately show ?thesis unfolding date_ms_def by (simp only: jsnum.case floor_of_int if_True) simp
  qed
  ultimately have ms: "date_ms (num_mul (to_num (JInt t)) (Fin 1000)) = Some (t * 1000)"
    by (simp add: to_num_def del: num_mul.simps)
  obtain y mo d h mi s where c: "civil (t + tz t) = (y, mo, d, h, mi, s)" by (metis prod.exhaust)
  have div: "t * 1000 div 1000 = t" by simp
  have "fmt_date tz (JInt t) =
      zero_pad (int_str d) 2 @ ''/'' @ zero_pad (int_str mo) 2 @ ''/'' @ int_str y @ '' ''
       @ zero_pad (int_str h) 2 @ '':'' @ zero_pad (int_str mi) 2 @ '':'' @ zero_pad (int_str s) 2"
    unfolding fmt_date_def ms option.case Let_def div c prod.case ..
  then show ?thesis using civil_correct[OF c] by blast
qed

theorem fmt_date_denotes_witness:
  "\<exists>y mo d h mi s. fmt_date (\<lambda>t. 3600) (JInt 1709210096) =
      zero_pad (int_str d) 2 @ ''/'' @ zero_pad (int_str mo) 2 @ ''/'' @ int_str y @ '' ''
       @ zero_pad (int_str h) 2 @ '':'' @ zero_pad (int_str mi) 2 @ '':'' @ zero_pad (int_str s) 2
    \<and> civil_ok y mo d h mi s \<and> civil_secs y mo d h mi s = 1709210096 + 3600"
  by (rule fmt_date_denotes) simp

theorem fmt_time_exact_below_hour_witness: "fmt_time (Fin (of_int 3599)) = ''59m 59s''"
proof -
  have d: "dec_str (3599 div 60) = ''59''" "dec_str (3599 mod 60) = ''59''" by code_simp+
  show ?thesis by (subst fmt_time_exact_below_hour) (simp_all add: d[simplified])
qed

theorem fmt_size_exact_witness: "fmt_size (JInt 1048575) True = ''1024.0 KiB''"
proof -
  have "to_fixed 1 (of_int 1048575 / 2 ^ 10) = ''1024.0''" by code_simp
  then show ?thesis using fmt_size_exact[of 1048575 0] by simp
qed

theorem html_encode_faithful_witness:
  "\<exists>e. html_encode (Str ''a<b'') = Str e \<and> decode_str e = to_str (Str ''a<b'')
    \<and> set e \<inter> {CHR ''>'', CHR ''<'', CHR 0x22, CHR 0x27} = {}"
  by (rule html_encode_faithful) simp

end
