(* ===== verification/RecordStore.thy ===== *)
theory RecordStore
  imports JSValue
begin

text \<open>
  The record stores behind the grids (\<open>Ext.data.Store\<close>): records with an id and data,
  in display order. The locale \<open>record_store\<close> states what the grids rely on when they
  look records up, add and remove them; it is interpreted on association lists in
  display order. \<open>merge_row\<close> and \<open>sort_rows\<close> are the field update and the stable sort
  the torrent grid and the peers tab share.
\<close>

section \<open>The interface of a store\<close>

locale record_store =
  fixes empty_store :: "'s"
    and lookup :: "'s \<Rightarrow> string \<Rightarrow> 'r option"
    and insert_rec :: "string \<Rightarrow> 'r \<Rightarrow> 's \<Rightarrow> 's"
    and remove_rec :: "string \<Rightarrow> 's \<Rightarrow> 's"
    and ids :: "'s \<Rightarrow> string list"
    and invar :: "'s \<Rightarrow> bool"
  assumes lookup_empty: "lookup empty_store i = None"
    and lookup_insert: "invar s \<Longrightarrow> lookup (insert_rec i r s) j = (if j = i then Some r else lookup s j)"
    and lookup_remove: "invar s \<Longrightarrow> lookup (remove_rec i s) j = (if j = i then None else lookup s j)"
    and set_ids: "invar s \<Longrightarrow> set (ids s) = {i. lookup s i \<noteq> None}"
    and distinct_ids: "invar s \<Longrightarrow> distinct (ids s)"
    and invar_empty: "invar empty_store"
    and invar_insert: "invar s \<Longrightarrow> invar (insert_rec i r s)"
    and invar_remove: "invar s \<Longrightarrow> invar (remove_rec i s)"
begin

text \<open>Adding a list of records, and keeping only the records a predicate on ids accepts.\<close>

definition add_all :: "(string \<times> 'r) list \<Rightarrow> 's \<Rightarrow> 's" where
  "add_all rs s = each_do (\<lambda>(i, r). insert_rec i r) rs s"

definition prune :: "(string \<Rightarrow> bool) \<Rightarrow> 's \<Rightarrow> 's" where
  "prune keep s = each_do (\<lambda>i s. if keep i then s else remove_rec i s) (ids s) s"

lemma invar_add_all: "invar s \<Longrightarrow> invar (add_all rs s)"
  unfolding add_all_def by (rule each_do_invariant) (auto intro: invar_insert)

lemma lookup_add_all:
  "invar s \<Longrightarrow> distinct (List.map fst rs) \<Longrightarrow>
   lookup (add_all rs s) j = (case map_of rs j of Some r \<Rightarrow> Some r | None \<Rightarrow> lookup s j)"
proof (induction rs arbitrary: s)
  case (Cons p rs)
  obtain i r where p: "p = (i, r)" by (cases p)
  have "map_of rs i = None" using Cons.prems p by (simp add: map_of_eq_None_iff)
  moreover have "add_all (p # rs) s = add_all rs (insert_rec i r s)" by (simp add: add_all_def p)
  ultimately show ?case
    using Cons p by (auto simp: lookup_insert invar_insert split: option.splits)
qed (simp add: add_all_def)

lemma prune_steps:
  assumes "invar s"
  shows "invar (each_do (\<lambda>i s. if keep i then s else remove_rec i s) is s)
    \<and> lookup (each_do (\<lambda>i s. if keep i then s else remove_rec i s) is s) j
      = (if j \<in> set is \<and> \<not> keep j then None else lookup s j)"
  using assms
proof (induction "is" arbitrary: s)
  case (Cons i "is")
  then show ?case by (simp add: invar_remove lookup_remove)
qed simp

lemma invar_prune: "invar s \<Longrightarrow> invar (prune keep s)"
  unfolding prune_def by (simp add: prune_steps)

lemma lookup_prune: "invar s \<Longrightarrow> lookup (prune keep s) j = (if keep j then lookup s j else None)"
  unfolding prune_def using set_ids[of s] by (auto simp: prune_steps)

lemma set_ids_prune: "invar s \<Longrightarrow> set (ids (prune keep s)) = {i \<in> set (ids s). keep i}"
  by (auto simp: set_ids invar_prune lookup_prune)

end

section \<open>Stores as association lists\<close>

interpretation rows: record_store "[]" map_of "AList.update" "AList.delete" keys_of wf_obj
proof unfold_locales
  fix s :: "(string \<times> 'r) list" and i j :: string and r :: 'r
  show "map_of [] i = None" by simp
  show "map_of (put i r s) j = (if j = i then Some r else map_of s j)" by (rule lookup_put)
  show "map_of (del i s) j = (if j = i then None else map_of s j)" by (rule lookup_del)
  show "set (keys_of s) = {i. map_of s i \<noteq> None}" by (simp add: set_keys_of has_key_def)
  show "wf_obj s \<Longrightarrow> distinct (keys_of s)" by (simp add: wf_obj_def keys_of_def)
  show "wf_obj []" by simp
  show "wf_obj s \<Longrightarrow> wf_obj (put i r s)" by (rule wf_obj_put)
  show "wf_obj s \<Longrightarrow> wf_obj (del i s)" by (rule wf_obj_del)
qed

section \<open>Updating a record from a row of data\<close>

text \<open>\<open>Record.set\<close> ignores a value that prints like the one it has.\<close>

definition record_set :: "string \<Rightarrow> jsval \<Rightarrow> jsval obj \<Rightarrow> jsval obj" where
  "record_set k v d =
     (if (if ext_is_primitive v then to_str (oget d k) = to_str v else json_norm (oget d k) = json_norm v)
      then d else put k v d)"

definition merge_row :: "jsval obj \<Rightarrow> jsval obj \<Rightarrow> jsval obj" where
  "merge_row row d = for_in (\<lambda>k v d. if \<not> loose_eq (oget d k) v then record_set k v d else d) row d"

text \<open>What a merged value has in common with the value of the row.\<close>

definition shows_same :: "jsval \<Rightarrow> jsval \<Rightarrow> bool" where
  "shows_same a v = (a = v \<or> loose_eq a v \<or> to_str a = to_str v \<or> json_norm a = json_norm v)"

lemma merge_row_other: "k \<notin> fst ` set row \<Longrightarrow> oget (merge_row row d) k = oget d k"
  by (induction row arbitrary: d) (auto simp: merge_row_def record_set_def)

lemma merge_row_get:
  "wf_obj row \<Longrightarrow> map_of row k = Some v \<Longrightarrow> shows_same (oget (merge_row row d) k) v"
proof (induction row arbitrary: d)
  case (Cons p row)
  obtain j w where p: "p = (j, w)" by (cases p)
  have wf: "wf_obj row" "j \<notin> fst ` set row" using Cons.prems(1) p by (auto simp: wf_obj_def)
  let ?d = "if \<not> loose_eq (oget d j) w then record_set j w d else d"
  have step: "merge_row (p # row) d = merge_row row ?d" by (simp add: merge_row_def p)
  show ?case
  proof (cases "j = k")
    case True
    then have "v = w" using Cons.prems(2) p by simp
    moreover have "oget (merge_row row ?d) k = oget ?d k"
      using wf(2) True by (simp add: merge_row_other)
    ultimately show ?thesis
      unfolding step using True by (auto simp: shows_same_def record_set_def split: if_splits)
  next
    case False
    then show ?thesis unfolding step using Cons.IH wf(1) Cons.prems(2) p by simp
  qed
qed simp

text \<open>For the booleans, strings and whole numbers of one column nothing of the row is lost.\<close>

fun plain_value :: "jsval \<Rightarrow> bool" where
  "plain_value (Bool b) = True"
| "plain_value (Str s) = True"
| "plain_value (Num (Fin x)) = is_safe_int x"
| "plain_value v = False"

lemma safe_int_str: "is_safe_int x \<Longrightarrow> is_safe_int y \<Longrightarrow> rat_str x = rat_str y \<longleftrightarrow> x = y"
  by (auto simp: rat_str_def int_str_inject is_safe_int_def)

lemma shows_same_plain:
  assumes "shows_same a v" and "plain_value a" and "plain_value v" and "ext_type a = ext_type v"
  shows "a = v"
  using assms by (cases a rule: plain_value.cases; cases v rule: plain_value.cases)
    (auto simp: shows_same_def loose_eq_def safe_int_str split: if_splits)

section \<open>Sorting\<close>

text \<open>The stable sort of \<open>Ext.data.Store.sort\<close>: a record is placed after those that are not greater.\<close>

fun insert_by :: "('r \<Rightarrow> 'r \<Rightarrow> bool) \<Rightarrow> 'r \<Rightarrow> 'r list \<Rightarrow> 'r list" where
  "insert_by lt x [] = [x]"
| "insert_by lt x (y # ys) = (if lt x y then x # y # ys else y # insert_by lt x ys)"

definition stable_sort :: "('r \<Rightarrow> 'r \<Rightarrow> bool) \<Rightarrow> 'r list \<Rightarrow> 'r list" where
  "stable_sort lt xs = each_do (insert_by lt) xs []"

definition sort_rows :: "(jsval \<Rightarrow> jsval) \<Rightarrow> string \<Rightarrow> bool \<Rightarrow> (string \<times> jsval obj) list \<Rightarrow> (string \<times> jsval obj) list" where
  "sort_rows sort_type field desc rows = stable_sort
     (\<lambda>a b. let v = sort_type (oget (snd a) field); w = sort_type (oget (snd b) field)
            in if desc then js_lt w v else js_lt v w) rows"

lemma set_insert_by [simp]: "set (insert_by lt x ys) = insert x (set ys)"
  by (induction ys) auto

lemma keys_insert_by: "distinct (List.map fst (insert_by lt x ys)) \<longleftrightarrow> fst x \<notin> fst ` set ys \<and> distinct (List.map fst ys)"
  by (induction ys) auto

lemma set_stable_steps: "set (each_do (insert_by lt) xs acc) = set xs \<union> set acc"
  by (induction xs arbitrary: acc) auto

lemma set_stable_sort [simp]: "set (stable_sort lt xs) = set xs"
  by (simp add: stable_sort_def set_stable_steps)

lemma wf_stable_steps:
  "wf_obj (each_do (insert_by lt) xs acc) \<longleftrightarrow> wf_obj (xs @ acc)"
  by (induction xs arbitrary: acc) (auto simp: wf_obj_def keys_insert_by)

lemma wf_stable_sort [simp]: "wf_obj (stable_sort lt xs) \<longleftrightarrow> wf_obj xs"
  by (simp add: stable_sort_def wf_stable_steps)

lemma lookup_sort_rows [simp]: "wf_obj rows \<Longrightarrow> map_of (sort_rows st f desc rows) i = map_of rows i"
proof -
  assume wf: "wf_obj rows"
  let ?sorted = "sort_rows st f desc rows"
  have "wf_obj ?sorted" and "set ?sorted = set rows" using wf by (simp_all add: sort_rows_def)
  then have "map_of ?sorted = map_of rows"
    using wf by (simp add: wf_obj_def map_of_inject_set)
  then show ?thesis by simp
qed

text \<open>A strict order whose incomparability is transitive sorts: no record stands before a smaller one.\<close>

definition weak_order :: "('r \<Rightarrow> 'r \<Rightarrow> bool) \<Rightarrow> 'r set \<Rightarrow> bool" where
  "weak_order lt A = ((\<forall>x \<in> A. \<forall>y \<in> A. lt x y \<longrightarrow> \<not> lt y x) \<and> (\<forall>x \<in> A. \<forall>y \<in> A. \<forall>z \<in> A. lt x y \<longrightarrow> lt x z \<or> lt z y))"

lemma sorted_insert_by:
  assumes "weak_order lt (insert x (set ys))" and "sorted_wrt (\<lambda>a b. \<not> lt b a) ys"
  shows "sorted_wrt (\<lambda>a b. \<not> lt b a) (insert_by lt x ys)"
  using assms
proof (induction ys)
  case (Cons y ys)
  have wo: "weak_order lt (insert x (set ys))"
    using Cons.prems(1) by (auto simp: weak_order_def)
  show ?case
  proof (cases "lt x y")
    case True
    have "\<not> lt z x" if "z \<in> insert y (set ys)" for z
    proof
      assume "lt z x"
      then have "lt z y \<or> lt y x" using Cons.prems(1) that by (auto simp: weak_order_def)
      moreover have "\<not> lt z y"
        using that Cons.prems by (auto simp: weak_order_def)
      moreover have "\<not> lt y x"
        using Cons.prems(1) True by (auto simp: weak_order_def)
      ultimately show False by blast
    qed
    then show ?thesis using Cons.prems True by auto
  next
    case False
    then show ?thesis using Cons.IH[OF wo] Cons.prems by auto
  qed
qed simp

lemma sorted_stable_steps:
  "weak_order lt (set xs \<union> set acc) \<Longrightarrow> sorted_wrt (\<lambda>a b. \<not> lt b a) acc
    \<Longrightarrow> sorted_wrt (\<lambda>a b. \<not> lt b a) (each_do (insert_by lt) xs acc)"
proof (induction xs arbitrary: acc)
  case (Cons x xs)
  have "weak_order lt (insert x (set acc))" and "weak_order lt (set xs \<union> insert x (set acc))"
    using Cons.prems(1) by (auto simp: weak_order_def)
  then show ?case using Cons by (simp add: sorted_insert_by)
qed simp

lemma sorted_stable_sort: "weak_order lt (set xs) \<Longrightarrow> sorted_wrt (\<lambda>a b. \<not> lt b a) (stable_sort lt xs)"
  unfolding stable_sort_def by (rule sorted_stable_steps) auto

section \<open>Synchronising a store with rows from the daemon\<close>

text \<open>The state of the loop over the rows: the ids known to be shown, the store, and the records to be
  added after the loop. A known id without a record is dereferenced and fails.\<close>

type_synonym sync_state = "(string \<times> int) list \<times> (string \<times> jsval obj) list \<times> (string \<times> jsval obj) list"

definition sync_row :: "string \<times> jsval obj \<Rightarrow> sync_state \<Rightarrow> sync_state result" where
  "sync_row = (\<lambda>(i, row) (known, rows, new).
     if has_key known i then
       (case map_of rows i of None \<Rightarrow> Inl TypeError
        | Some d \<Rightarrow> Inr (known, put i (merge_row row d) rows, new))
     else Inr (put i 1 known, rows, new @ [(i, row)]))"

definition sync_add :: "sync_state \<Rightarrow> (string \<times> int) list \<times> (string \<times> jsval obj) list" where
  "sync_add = (\<lambda>(known, rows, new). (known, each_do (\<lambda>(i, r). put i r) new rows))"

definition sync_ok :: "(string \<times> int) list \<Rightarrow> (string \<times> jsval obj) list \<Rightarrow> bool" where
  "sync_ok known rows = (wf_obj known \<and> wf_obj rows \<and> (\<forall>i. has_key known i \<longleftrightarrow> has_key rows i))"

definition sync_inv :: "sync_state \<Rightarrow> bool" where
  "sync_inv = (\<lambda>(known, rows, new). wf_obj known \<and> wf_obj rows \<and> wf_obj new
     \<and> (\<forall>i. has_key known i \<longleftrightarrow> has_key rows i \<or> has_key new i) \<and> (\<forall>i. has_key new i \<longrightarrow> \<not> has_key rows i))"

lemma wf_obj_snoc: "wf_obj ob \<Longrightarrow> \<not> has_key ob i \<Longrightarrow> wf_obj (ob @ [(i, r)])"
  by (auto simp: wf_obj_def has_key_def map_of_eq_None_iff)

lemma has_key_snoc [simp]: "has_key (ob @ [(i, r)]) j = (has_key ob j \<or> j = i)"
  by (simp add: has_key_def)

lemma sync_rows_spec:
  assumes "sync_inv (known, rows, new)" and "wf_obj ts" and "\<forall>i. has_key ts i \<longrightarrow> \<not> has_key new i"
  shows "\<exists>known' rows'. each_result sync_row ts (known, rows, new)
      = Inr (known', rows', new @ List.filter (\<lambda>(i, r). \<not> has_key rows i) ts)
    \<and> sync_inv (known', rows', new @ List.filter (\<lambda>(i, r). \<not> has_key rows i) ts)
    \<and> (\<forall>i. has_key known' i \<longleftrightarrow> has_key known i \<or> has_key ts i)
    \<and> (\<forall>i. map_of rows' i = (case map_of ts i of None \<Rightarrow> map_of rows i
          | Some row \<Rightarrow> map_option (merge_row row) (map_of rows i)))"
  using assms
proof (induction ts arbitrary: known rows new)
  case (Cons p ts)
  obtain t row where p: "p = (t, row)" by (cases p)
  have wf: "wf_obj ts" and t: "map_of ts t = None" "\<not> has_key new t"
    using Cons.prems(2,3) p by (auto simp: wf_obj_def map_of_eq_None_iff has_key_def)
  have tn: "\<forall>i. has_key ts i \<longrightarrow> \<not> has_key new i \<and> i \<noteq> t"
    using Cons.prems(3) t(1) p by (auto simp: has_key_def split: if_splits)
  show ?case
  proof (cases "has_key rows t")
    case True
    then obtain d where d: "map_of rows t = Some d" by (auto simp: has_key_def)
    let ?rows = "put t (merge_row row d) rows"
    have inv: "sync_inv (known, ?rows, new)"
      using Cons.prems(1) True by (auto simp: sync_inv_def has_key_put intro: wf_obj_put)
    have same: "has_key ?rows = has_key rows" using True by (auto simp: has_key_put fun_eq_iff)
    have "has_key known t" using Cons.prems(1) True by (auto simp: sync_inv_def)
    then have e: "each_result sync_row (p # ts) (known, rows, new) = each_result sync_row ts (known, ?rows, new)"
      by (simp add: sync_row_def p d)
    have f: "List.filter (\<lambda>(i, r). \<not> has_key rows i) (p # ts) = List.filter (\<lambda>(i, r). \<not> has_key rows i) ts"
      using True p by simp
    have hk: "has_key (p # ts) i \<longleftrightarrow> i = t \<or> has_key ts i" for i by (auto simp: p has_key_def)
    obtain known' rows' where ih:
      "each_result sync_row ts (known, ?rows, new)
        = Inr (known', rows', new @ List.filter (\<lambda>(i, r). \<not> has_key rows i) ts)"
      "sync_inv (known', rows', new @ List.filter (\<lambda>(i, r). \<not> has_key rows i) ts)"
      "\<forall>i. has_key known' i \<longleftrightarrow> has_key known i \<or> has_key ts i"
      "\<forall>i. map_of rows' i = (case map_of ts i of None \<Rightarrow> map_of ?rows i
          | Some row \<Rightarrow> map_option (merge_row row) (map_of ?rows i))"
      using Cons.IH[OF inv wf] tn unfolding same by blast
    have "has_key known' i \<longleftrightarrow> has_key known i \<or> has_key (p # ts) i" for i
      using ih(3) hk \<open>has_key known t\<close> by auto
    moreover have "map_of rows' i = (case map_of (p # ts) i of None \<Rightarrow> map_of rows i
        | Some row \<Rightarrow> map_option (merge_row row) (map_of rows i))" for i
      using ih(4) t(1) d by (cases "i = t"; cases "map_of ts i") (simp_all add: p lookup_put)
    ultimately show ?thesis unfolding e f using ih(1,2) by blast
  next
    case False
    have inv: "sync_inv (put t 1 known, rows, new @ [(t, row)])"
      using Cons.prems(1) False t(2) by (auto simp: sync_inv_def has_key_put intro: wf_obj_put wf_obj_snoc)
    have "\<not> has_key known t" using Cons.prems(1) False t(2) by (auto simp: sync_inv_def)
    then have e: "each_result sync_row (p # ts) (known, rows, new)
        = each_result sync_row ts (put t 1 known, rows, new @ [(t, row)])"
      by (simp add: sync_row_def p)
    have f: "new @ List.filter (\<lambda>(i, r). \<not> has_key rows i) (p # ts)
        = (new @ [(t, row)]) @ List.filter (\<lambda>(i, r). \<not> has_key rows i) ts" using False p by simp
    have hk: "has_key (p # ts) i \<longleftrightarrow> i = t \<or> has_key ts i" for i by (auto simp: p has_key_def)
    have tn': "\<forall>i. has_key ts i \<longrightarrow> \<not> has_key (new @ [(t, row)]) i" using tn by auto
    obtain known' rows' where ih:
      "each_result sync_row ts (put t 1 known, rows, new @ [(t, row)])
        = Inr (known', rows', (new @ [(t, row)]) @ List.filter (\<lambda>(i, r). \<not> has_key rows i) ts)"
      "sync_inv (known', rows', (new @ [(t, row)]) @ List.filter (\<lambda>(i, r). \<not> has_key rows i) ts)"
      "\<forall>i. has_key known' i \<longleftrightarrow> has_key (put t 1 known) i \<or> has_key ts i"
      "\<forall>i. map_of rows' i = (case map_of ts i of None \<Rightarrow> map_of rows i
          | Some row \<Rightarrow> map_option (merge_row row) (map_of rows i))"
      using Cons.IH[OF inv wf tn'] by blast
    have "has_key known' i \<longleftrightarrow> has_key known i \<or> has_key (p # ts) i" for i
      using ih(3) hk by (auto simp: has_key_put)
    moreover have "map_of rows' i = (case map_of (p # ts) i of None \<Rightarrow> map_of rows i
        | Some row \<Rightarrow> map_option (merge_row row) (map_of rows i))" for i
      using ih(4) t(1) False by (cases "i = t") (simp_all add: p has_key_def)
    ultimately show ?thesis unfolding e f using ih(1,2) by blast
  qed
qed (simp add: has_key_def)

text \<open>The data an id has after the rows have been merged in.\<close>

definition synced :: "(string \<times> jsval obj) list \<Rightarrow> (string \<times> jsval obj) list \<Rightarrow> string \<Rightarrow> jsval obj option" where
  "synced rows ts i = (case map_of ts i of None \<Rightarrow> map_of rows i
     | Some row \<Rightarrow> Some (case map_of rows i of None \<Rightarrow> row | Some d \<Rightarrow> merge_row row d))"

lemma sync_spec:
  assumes "sync_ok known rows" and "wf_obj ts"
  shows "\<exists>known' rows'. map_sum id sync_add (each_result sync_row ts (known, rows, [])) = Inr (known', rows')
    \<and> sync_ok known' rows' \<and> (\<forall>i. map_of rows' i = synced rows ts i)"
proof -
  have inv: "sync_inv (known, rows, [])"
    using assms(1) by (auto simp: sync_ok_def sync_inv_def has_key_def)
  let ?new = "List.filter (\<lambda>(i, r). \<not> has_key rows i) ts"
  obtain known' rows' where r: "each_result sync_row ts (known, rows, []) = Inr (known', rows', ?new)"
    and inv': "sync_inv (known', rows', ?new)"
    and k: "\<forall>i. has_key known' i \<longleftrightarrow> has_key known i \<or> has_key ts i"
    and l: "\<forall>i. map_of rows' i = (case map_of ts i of None \<Rightarrow> map_of rows i
          | Some row \<Rightarrow> map_option (merge_row row) (map_of rows i))"
    using sync_rows_spec[OF inv assms(2)] by (auto simp: has_key_def)
  have wf: "wf_obj rows'" "wf_obj ?new" using inv' by (auto simp: sync_inv_def)
  have new: "map_of ?new i = (if has_key rows i then None else map_of ts i)" for i
  proof -
    have "map_of (List.filter (\<lambda>(i, r). P i) ts) i = (if P i then map_of ts i else None)" for P
      by (induction ts) auto
    then show ?thesis by simp
  qed
  have "distinct (List.map fst ?new)" using wf(2) by (simp add: wf_obj_def)
  then have add: "map_of (rows.add_all ?new rows') i
      = (case map_of ?new i of Some r \<Rightarrow> Some r | None \<Rightarrow> map_of rows' i)" for i
    by (rule rows.lookup_add_all[OF wf(1)])
  have look: "map_of (rows.add_all ?new rows') i = synced rows ts i" for i
  proof -
    have hk: "has_key rows i \<longleftrightarrow> map_of rows i \<noteq> None" by (simp add: has_key_def)
    show ?thesis using l add
      by (cases "map_of ts i"; cases "map_of rows i") (simp_all add: new synced_def hk)
  qed
  moreover have "sync_ok known' (rows.add_all ?new rows')"
    using inv' k look wf assms(1)
    by (auto simp: sync_ok_def sync_inv_def rows.invar_add_all has_key_def synced_def split: option.splits)
  ultimately show ?thesis
    using r by (auto simp: sync_add_def rows.add_all_def)
qed

text \<open>The loop that removes the records of ids the daemon no longer reports.\<close>

definition sync_remove :: "(string \<Rightarrow> bool) \<Rightarrow> (string \<times> int) list \<times> (string \<times> jsval obj) list
    \<Rightarrow> (string \<times> int) list \<times> (string \<times> jsval obj) list" where
  "sync_remove keep s = each_do (\<lambda>i (known, rows).
     if keep i then (known, rows) else (del i known, del i rows)) (keys_of (snd s)) s"

lemma sync_remove_eq:
  "sync_remove keep (known, rows) = (each_do (\<lambda>i s. if keep i then s else del i s) (keys_of rows) known,
     rows.prune keep rows)"
proof -
  have "each_do (\<lambda>i (known, rows). if keep i then (known, rows) else (del i known, del i rows)) is (known, rows)
    = (each_do (\<lambda>i s. if keep i then s else del i s) is known,
       each_do (\<lambda>i s. if keep i then s else del i s) is rows)" for "is"
    by (induction "is" arbitrary: known rows) auto
  then show ?thesis by (simp add: sync_remove_def rows.prune_def)
qed

lemma sync_remove_spec:
  assumes "sync_ok known rows" and "sync_remove keep (known, rows) = (known', rows')"
  shows "sync_ok known' rows' \<and> (\<forall>i. map_of rows' i = (if keep i then map_of rows i else None))"
proof -
  have wf: "wf_obj known" "wf_obj rows" using assms(1) by (auto simp: sync_ok_def)
  have eq: "known' = each_do (\<lambda>i s. if keep i then s else del i s) (keys_of rows) known"
    "rows' = rows.prune keep rows"
    using assms(2) by (auto simp: sync_remove_eq)
  have k: "wf_obj known' \<and> map_of known' i = (if i \<in> set (keys_of rows) \<and> \<not> keep i then None else map_of known i)" for i
    unfolding eq using rows.prune_steps[OF wf(1)] by blast
  have r: "map_of rows' i = (if keep i then map_of rows i else None)" for i
    unfolding eq by (rule rows.lookup_prune[OF wf(2)])
  have "wf_obj rows'" unfolding eq by (rule rows.invar_prune[OF wf(2)])
  moreover have "has_key known' i \<longleftrightarrow> has_key rows' i" for i
  proof -
    have same: "has_key known i \<longleftrightarrow> has_key rows i" using assms(1) by (simp add: sync_ok_def)
    show ?thesis using k[of i] r[of i] same
      by (cases "keep i"; cases "has_key rows i") (simp_all add: set_keys_of, simp_all add: has_key_def)
  qed
  ultimately show ?thesis using k r by (simp add: sync_ok_def)
qed

end
