(* ===== verification/GridRender.thy ===== *)
theory GridRender
  imports Formatters RecordStore
begin

text \<open>
  What the cells of the grids show and how their columns sort: the keys requested
  from the daemon (Keys.js), the sort functions (data/SortTypes.js), the progress
  bar and small helpers of Deluge.js, the renderers of TorrentGrid.js and of
  details/PeersTab.js, and the column and field tables of both grids.
\<close>

section \<open>Keys requested from the daemon\<close>

definition keys_grid :: "string list" where
  "keys_grid = [''queue'', ''name'', ''total_wanted'', ''state'', ''progress'', ''num_seeds'',
     ''total_seeds'', ''num_peers'', ''total_peers'', ''download_payload_rate'',
     ''upload_payload_rate'', ''eta'', ''ratio'', ''distributed_copies'', ''is_auto_managed'',
     ''time_added'', ''tracker_host'', ''download_location'', ''last_seen_complete'', ''total_done'',
     ''total_uploaded'', ''max_download_speed'', ''max_upload_speed'', ''seeds_peers_ratio'',
     ''total_remaining'', ''completed_time'', ''time_since_transfer'']"

text \<open>The status keys are extended by the grid keys when the file is loaded.\<close>

definition keys_status :: "string list" where
  "keys_status = [''total_done'', ''total_payload_download'', ''total_uploaded'',
     ''total_payload_upload'', ''next_announce'', ''tracker_status'', ''num_pieces'', ''piece_length'',
     ''is_auto_managed'', ''active_time'', ''seeding_time'', ''time_since_transfer'', ''seed_rank'',
     ''last_seen_complete'', ''completed_time'', ''owner'', ''public'', ''shared''] @ keys_grid"

definition keys_files :: "string list" where
  "keys_files = [''files'', ''file_progress'', ''file_priorities'']"

definition keys_peers :: "string list" where
  "keys_peers = [''peers'']"

definition keys_details :: "string list" where
  "keys_details = [''name'', ''download_location'', ''total_size'', ''num_files'', ''message'',
     ''tracker_host'', ''comment'', ''creator'']"

definition keys_options :: "string list" where
  "keys_options = [''max_download_speed'', ''max_upload_speed'', ''max_connections'',
     ''max_upload_slots'', ''is_auto_managed'', ''stop_at_ratio'', ''stop_ratio'', ''remove_at_ratio'',
     ''private'', ''prioritize_first_last'', ''move_completed'', ''move_completed_path'', ''super_seeding'']"

section \<open>Helpers on objects\<close>

definition is_object_empty :: "jsval obj \<Rightarrow> bool" where
  "is_object_empty ob = (ob = [])"

text \<open>\<open>None\<close> stands for a missing object. Only the properties of the first object are compared.\<close>

definition are_objects_equal :: "jsval obj option \<Rightarrow> jsval obj option \<Rightarrow> bool" where
  "are_objects_equal a b = (case (a, b) of (Some x, Some y) \<Rightarrow>
       for_in (\<lambda>k v eq. if \<not> loose_eq v (oget y k) then False else eq) x True
     | _ \<Rightarrow> False)"

definition ext_keys :: "jsval obj \<Rightarrow> string list" where
  "ext_keys ob = for_in (\<lambda>k v ks. ks @ [k]) ob []"

definition ext_values :: "jsval obj \<Rightarrow> jsval list" where
  "ext_values ob = for_in (\<lambda>k v vs. vs @ [v]) ob []"

definition ext_splat :: "jsval \<Rightarrow> jsval list" where
  "ext_splat v = (case ext_type v of None \<Rightarrow> [] | Some t \<Rightarrow>
     (case v of Arr r xs \<Rightarrow> xs | _ \<Rightarrow> [v]))"

lemma ext_keys_eq: "ext_keys ob = keys_of ob"
proof -
  have "for_in (\<lambda>k v ks. ks @ [k]) ob acc = acc @ keys_of ob" for acc
    by (induction ob arbitrary: acc) (auto simp: keys_of_def)
  then show ?thesis by (simp add: ext_keys_def)
qed

lemma are_objects_equal_iff:
  "are_objects_equal (Some x) (Some y) \<longleftrightarrow> (\<forall>(k, v) \<in> set x. loose_eq v (oget y k))"
proof -
  have "for_in (\<lambda>k v eq. if \<not> loose_eq v (oget y k) then False else eq) x e
      \<longleftrightarrow> e \<and> (\<forall>(k, v) \<in> set x. loose_eq v (oget y k))" for e
  proof (induction x arbitrary: e)
    case (Cons p x)
    show ?case by (cases p) (simp add: Cons.IH)
  qed simp
  then show ?thesis by (simp add: are_objects_equal_def)
qed

section \<open>The progress bar\<close>

text \<open>\<open>progress\<close> is a number or the text of one; \<open>modifier\<close> is left out by every caller.\<close>

definition progress_bar :: "jsval \<Rightarrow> jsnum \<Rightarrow> string \<Rightarrow> jsval \<Rightarrow> string" where
  "progress_bar progress width txt modifier0 =
     (let modifier = (if is_empty modifier0 then JInt 10 else modifier0);
          progress_width = num_to_fixed 0 (num_mul (num_div width (Fin 100)) (to_num progress));
          bar_width = num_sub (str_num progress_width) (Fin 1);
          d = num_sub (str_num progress_width) (to_num modifier);
          text_width = (if num_lt (Fin 0) d then d else Fin 0)
      in ''<div class=\"x-progress-wrap x-progress-renderered\">'' @
         ''<div class=\"x-progress-inner\">'' @
         ''<div style=\"width: '' @ num_str bar_width @ ''px\" class=\"x-progress-bar\">'' @
         ''<div style=\"z-index: 99; width: '' @ num_str text_width @ ''px\" class=\"x-progress-text\">'' @
         ''<div style=\"width: '' @ num_str width @ ''px;\">'' @ txt @ ''</div>'' @
         ''</div>'' @
         ''</div>'' @
         ''<div class=\"x-progress-text x-progress-text-back\">'' @
         ''<div style=\"width: '' @ num_str width @ ''px;\">'' @ txt @ ''</div>'' @
         ''</div>'' @
         ''</div>'' @
         ''</div>'')"

section \<open>Sort functions\<close>

text \<open>The address pattern is searched for anywhere in the value; without a match the function fails.\<close>

definition take_digits :: "string \<Rightarrow> (string \<times> string) option" where
  "take_digits s = (let d = takeWhile is_digit s in if d = [] then None else Some (d, dropWhile is_digit s))"

definition octet_then :: "char \<Rightarrow> string \<Rightarrow> (int \<times> string) option" where
  "octet_then c s = (case take_digits s of None \<Rightarrow> None | Some (d, r) \<Rightarrow>
     if length d \<le> 3 \<and> r \<noteq> [] \<and> hd r = c then Some (digits_val d, tl r) else None)"

definition ip_match_here :: "string \<Rightarrow> (int \<times> int \<times> int \<times> int) option" where
  "ip_match_here s = (case octet_then CHR ''.'' s of None \<Rightarrow> None | Some (a, s) \<Rightarrow>
     (case octet_then CHR ''.'' s of None \<Rightarrow> None | Some (b, s) \<Rightarrow>
     (case octet_then CHR ''.'' s of None \<Rightarrow> None | Some (c, s) \<Rightarrow>
     (case octet_then CHR '':'' s of None \<Rightarrow> None | Some (d, s) \<Rightarrow>
     (if take_digits s = None then None else Some (a, b, c, d))))))"

fun ip_match :: "string \<Rightarrow> (int \<times> int \<times> int \<times> int) option" where
  "ip_match [] = None"
| "ip_match (c # cs) = (case ip_match_here (c # cs) of Some m \<Rightarrow> Some m | None \<Rightarrow> ip_match cs)"

definition as_ip_address :: "string \<Rightarrow> jsval result" where
  "as_ip_address s = (case ip_match s of None \<Rightarrow> Inl TypeError
     | Some (a, b, c, d) \<Rightarrow> Inr (JInt (((a * 256 + b) * 256 + c) * 256 + d)))"

definition as_queue_position :: "jsval \<Rightarrow> jsval" where
  "as_queue_position v = (if js_lt (JInt (-1)) v then v else Num (Fin max_double))"

definition as_name :: "jsval \<Rightarrow> jsval" where
  "as_name v = Str (lower (to_str v))"

definition eta_sorter :: "jsval \<Rightarrow> jsval" where
  "eta_sorter eta =
     (if strict_eq eta (JInt 0) then Num (Fin max_double)
      else if js_lt eta (JInt (-1)) \<or> num_eq (to_num eta) (Fin (-1)) then JInt (2 ^ 53 - 1)
      else eta)"

section \<open>Renderers of the torrent grid\<close>

definition queue_renderer :: "jsval \<Rightarrow> jsval" where
  "queue_renderer v = (if loose_eq v (JInt (-1)) then Str [] else js_plus v (JInt 1))"

definition torrent_name_renderer :: "jsval \<Rightarrow> jsval obj \<Rightarrow> jsval result" where
  "torrent_name_renderer v data = (case oget data ''state'' of
     Str st \<Rightarrow> Inr (Str (''<div class=\"torrent-name x-deluge-'' @ lower st @ ''\">''
       @ to_str (html_encode v) @ ''</div>''))
   | _ \<Rightarrow> Inl TypeError)"

definition torrent_speed_renderer :: "jsval \<Rightarrow> jsval" where
  "torrent_speed_renderer v = (if \<not> truthy v then Undef else Str (fmt_speed v False))"

definition torrent_limit_renderer :: "jsval \<Rightarrow> jsval" where
  "torrent_limit_renderer v = (if loose_eq v (JInt (-1)) then Str []
     else Str (fmt_speed (Num (num_mul (to_num v) (Fin 1024))) False))"

text \<open>\<open>width\<close> is the number read from the style of the column.\<close>

definition torrent_progress_renderer :: "(string \<Rightarrow> string) \<Rightarrow> jsnum \<Rightarrow> jsval \<Rightarrow> jsval obj \<Rightarrow> string" where
  "torrent_progress_renderer tr width v data =
     (let n = to_num v; txt = tr (to_str (oget data ''state'')) @ '' '' @ num_to_fixed 2 n @ ''%''
      in progress_bar (Num n) (num_sub width (Fin 8)) txt Undef)"

definition of_total :: "string \<Rightarrow> jsval \<Rightarrow> jsval obj \<Rightarrow> jsval" where
  "of_total k v data = (if js_lt (JInt (-1)) (oget data k)
     then Str (to_str v @ '' ('' @ to_str (oget data k) @ '')'') else v)"

definition seeds_renderer :: "jsval \<Rightarrow> jsval obj \<Rightarrow> jsval" where
  "seeds_renderer = of_total ''total_seeds''"

definition peers_renderer :: "jsval \<Rightarrow> jsval obj \<Rightarrow> jsval" where
  "peers_renderer = of_total ''total_peers''"

definition avail_renderer :: "jsval \<Rightarrow> jsval" where
  "avail_renderer v = (if js_lt v (JInt 0) then Str ''&infin;'' else Num (str_num (num_to_fixed 3 (to_num v))))"

definition tracker_renderer :: "string \<Rightarrow> jsval \<Rightarrow> string" where
  "tracker_renderer base v = (let h = to_str (html_encode v) in
     ''<div style=\"background: url('' @ base @ ''tracker/'' @ h
       @ '') no-repeat; background-size: contain; padding-left: 20px;\">'' @ h @ ''</div>'')"

definition date_or_never :: "(string \<Rightarrow> string) \<Rightarrow> (int \<Rightarrow> int) \<Rightarrow> jsval \<Rightarrow> string" where
  "date_or_never tr tz v = (if js_lt (JInt 0) v then fmt_date tz v else tr ''Never'')"

definition time_or_inf :: "jsval \<Rightarrow> string" where
  "time_or_inf v = (if strict_eq v (JInt 0) then []
     else if js_lt v (JInt (-1)) \<or> num_eq (to_num v) (Fin (-1)) then ''&infin;''
     else fmt_time (to_num v))"

end
