(* ===== verification/TorrentGrid.thy ===== *)
theory TorrentGrid
  imports GridRender
begin

text \<open>
  The torrent grid (TorrentGrid.js, data/TorrentRecord.js) and the peers tab
  (details/PeersTab.js, data/PeerRecord.js): the column and field tables, the rows and
  the selection, and the synchronisation of the rows with each reply of the daemon.
\<close>

section \<open>Columns and fields\<close>

datatype renderer =
    RQueue | RName | RSize | RProgress | RSeeds | RPeers | RSpeed | RTimeOrInf | RAvail | RDate
  | RDateOrNever | RTracker | RHtmlEncode | RPlain | RLimit | RTime
  | RFlag | RPeerAddress | RPeerProgress | RRate

record column =
  col_header :: string
  col_width :: int
  col_hidden :: bool
  col_sortable :: bool
  col_renderer :: renderer
  col_data :: string

definition col :: "string \<Rightarrow> int \<Rightarrow> bool \<Rightarrow> renderer \<Rightarrow> string \<Rightarrow> column" where
  "col h w hid r d = \<lparr> col_header = h, col_width = w, col_hidden = hid, col_sortable = True,
     col_renderer = r, col_data = d \<rparr>"

definition grid_columns :: "column list" where
  "grid_columns =
    [col ''#'' 30 False RQueue ''queue'',
     col ''Name'' 150 False RName ''name'',
     col ''Size'' 75 False RSize ''total_wanted'',
     col ''Progress'' 150 False RProgress ''progress'',
     col ''Seeds'' 60 True RSeeds ''num_seeds'',
     col ''Peers'' 60 True RPeers ''num_peers'',
     col ''Down Speed'' 80 False RSpeed ''download_payload_rate'',
     col ''Up Speed'' 80 False RSpeed ''upload_payload_rate'',
     col ''ETA'' 60 False RTimeOrInf ''eta'',
     col ''Ratio'' 60 True RAvail ''ratio'',
     col ''Avail'' 60 True RAvail ''distributed_copies'',
     col ''Added'' 80 True RDate ''time_added'',
     col ''Complete Seen'' 80 True RDateOrNever ''last_seen_complete'',
     col ''Completed'' 80 True RDateOrNever ''completed_time'',
     col ''Tracker'' 120 True RTracker ''tracker_host'',
     col ''Download Folder'' 120 True RHtmlEncode ''download_location'',
     col ''Owner'' 80 False RHtmlEncode ''owner'',
     col ''Public'' 80 True RPlain ''public'',
     col ''Shared'' 80 True RPlain ''shared'',
     col ''Downloaded'' 75 True RSize ''total_done'',
     col ''Uploaded'' 75 True RSize ''total_uploaded'',
     col ''Remaining'' 75 True RSize ''total_remaining'',
     col ''Down Limit'' 75 True RLimit ''max_download_speed'',
     col ''Up Limit'' 75 True RLimit ''max_upload_speed'',
     col ''Seeds:Peers'' 75 True RAvail ''seeds_peers_ratio'',
     col ''Last Transfer'' 75 True RTime ''time_since_transfer'']"

text \<open>The type of a field, \<open>''auto''\<close> when none is given, and how its values sort.\<close>

datatype sort_kind = SortNone | SortQueue | SortName | SortEta | SortIP | SortUpper

definition grid_fields :: "(string \<times> string \<times> sort_kind) list" where
  "grid_fields =
    [(''queue'', ''auto'', SortQueue),
     (''name'', ''auto'', SortName),
     (''total_wanted'', ''int'', SortNone),
     (''state'', ''auto'', SortNone),
     (''progress'', ''float'', SortNone),
     (''num_seeds'', ''int'', SortNone),
     (''total_seeds'', ''int'', SortNone),
     (''num_peers'', ''int'', SortNone),
     (''total_peers'', ''int'', SortNone),
     (''download_payload_rate'', ''int'', SortNone),
     (''upload_payload_rate'', ''int'', SortNone),
     (''eta'', ''int'', SortEta),
     (''ratio'', ''float'', SortNone),
     (''distributed_copies'', ''float'', SortNone),
     (''time_added'', ''int'', SortNone),
     (''last_seen_complete'', ''int'', SortNone),
     (''completed_time'', ''int'', SortNone),
     (''tracker_host'', ''auto'', SortNone),
     (''download_location'', ''auto'', SortNone),
     (''total_done'', ''int'', SortNone),
     (''total_uploaded'', ''int'', SortNone),
     (''total_remaining'', ''int'', SortNone),
     (''max_download_speed'', ''int'', SortNone),
     (''max_upload_speed'', ''int'', SortNone),
     (''seeds_peers_ratio'', ''float'', SortNone),
     (''time_since_transfer'', ''int'', SortNone)]"

text \<open>The record types of data/TorrentRecord.js and data/PeerRecord.js. A string field without a sort
  function of its own sorts by its upper case.\<close>

definition torrent_record_fields :: "(string \<times> string \<times> sort_kind) list" where
  "torrent_record_fields =
    [(''queue'', ''int'', SortNone), (''name'', ''string'', SortName), (''total_wanted'', ''int'', SortNone),
     (''state'', ''string'', SortUpper), (''progress'', ''int'', SortNone), (''num_seeds'', ''int'', SortNone),
     (''total_seeds'', ''int'', SortNone), (''num_peers'', ''int'', SortNone), (''total_peers'', ''int'', SortNone),
     (''download_payload_rate'', ''int'', SortNone), (''upload_payload_rate'', ''int'', SortNone),
     (''eta'', ''int'', SortNone), (''ratio'', ''float'', SortNone), (''distributed_copies'', ''float'', SortNone),
     (''time_added'', ''int'', SortNone), (''tracker_host'', ''string'', SortUpper),
     (''save_path'', ''string'', SortUpper), (''total_done'', ''int'', SortNone),
     (''total_uploaded'', ''int'', SortNone), (''total_remaining'', ''int'', SortNone),
     (''max_download_speed'', ''int'', SortNone), (''max_upload_speed'', ''int'', SortNone),
     (''seeds_peers_ratio'', ''float'', SortNone), (''time_since_transfer'', ''int'', SortNone)]"

definition peer_fields :: "(string \<times> string \<times> sort_kind) list" where
  "peer_fields =
    [(''country'', ''string'', SortUpper), (''ip'', ''string'', SortIP), (''client'', ''string'', SortUpper),
     (''progress'', ''float'', SortNone), (''down_speed'', ''int'', SortNone), (''up_speed'', ''int'', SortNone),
     (''seed'', ''int'', SortNone)]"

definition peer_columns :: "column list" where
  "peer_columns =
    [col ''&nbsp;'' 30 False RFlag ''country'',
     col ''Address'' 125 False RPeerAddress ''ip'',
     col ''Client'' 125 False RHtmlEncode ''client'',
     col ''Progress'' 150 False RPeerProgress ''progress'',
     col ''Down Speed'' 100 False RRate ''down_speed'',
     col ''Up Speed'' 100 False RRate ''up_speed'']"

section \<open>Renderers of the peers tab\<close>

fun drop_first :: "char \<Rightarrow> string \<Rightarrow> string" where
  "drop_first c [] = []"
| "drop_first c (d # ds) = (if d = c then ds else d # drop_first c ds)"

definition flag_renderer :: "string \<Rightarrow> string \<Rightarrow> string" where
  "flag_renderer base v = (if drop_first CHR '' '' (drop_first CHR '' '' v) = [] then []
     else ''<img alt=\"'' @ v @ ''\" title=\"'' @ v @ ''\" src=\"'' @ base @ ''flag/'' @ v @ ''\" />'')"

definition peer_address :: "string \<Rightarrow> string" where
  "peer_address v = (let parts = split_char CHR '':'' v in
     if 2 < length parts then ''['' @ join_str '':'' (butlast parts) @ '']:'' @ last parts else v)"

definition peer_address_renderer :: "string \<Rightarrow> jsval obj \<Rightarrow> string" where
  "peer_address_renderer v data =
     ''<div class=\"'' @ (if loose_eq (oget data ''seed'') (JInt 1024) then ''x-deluge-seed'' else ''x-deluge-peer'')
       @ ''\">'' @ peer_address v @ ''</div>''"

definition peer_progress_renderer :: "jsnum \<Rightarrow> jsval \<Rightarrow> string" where
  "peer_progress_renderer width v = (let p = num_to_fixed 0 (num_mul (to_num v) (Fin 100))
     in progress_bar (Str p) (num_sub width (Fin 8)) (p @ ''%'') Undef)"

section \<open>Sorting a store by a field\<close>

definition sort_value :: "sort_kind \<Rightarrow> jsval \<Rightarrow> jsval result" where
  "sort_value k v = (case k of
     SortNone \<Rightarrow> Inr v
   | SortQueue \<Rightarrow> Inr (as_queue_position v)
   | SortName \<Rightarrow> Inr (as_name v)
   | SortEta \<Rightarrow> Inr (eta_sorter v)
   | SortIP \<Rightarrow> (case v of Str s \<Rightarrow> as_ip_address s | _ \<Rightarrow> Inl TypeError)
   | SortUpper \<Rightarrow> Inr (Str (List.map upper_char (to_str v))))"

definition result_val :: "jsval result \<Rightarrow> jsval" where
  "result_val r = (case r of Inl e \<Rightarrow> Undef | Inr v \<Rightarrow> v)"

text \<open>An unknown field leaves the store as it is. The sort function runs on every record as soon as
  there are two, and an exception of it ends the sort.\<close>

definition store_sort :: "(string \<times> string \<times> sort_kind) list \<Rightarrow> string \<Rightarrow> bool
    \<Rightarrow> (string \<times> jsval obj) list \<Rightarrow> (string \<times> jsval obj) list result" where
  "store_sort flds field desc rows = (case map_of flds field of
     None \<Rightarrow> Inr rows
   | Some (ty, k) \<Rightarrow>
       if 2 \<le> length rows \<and> (\<exists>(i, d) \<in> set rows. \<exists>e. sort_value k (oget d field) = Inl e) then Inl TypeError
       else Inr (sort_rows (\<lambda>v. result_val (sort_value k v)) field desc rows))"

section \<open>The torrent grid\<close>

text \<open>\<open>g_known\<close> is the object \<open>torrents\<close>, \<open>g_rows\<close> the store, \<open>g_sel\<close> the selected ids in the order
  of selection, \<open>g_sort\<close> the sorted field and whether it descends.\<close>

record grid =
  g_known :: "(string \<times> int) list"
  g_rows :: "(string \<times> jsval obj) list"
  g_sel :: "string list"
  g_sort :: "(string \<times> bool) option"

definition grid_new :: grid where
  "grid_new = \<lparr> g_known = [], g_rows = [], g_sel = [], g_sort = None \<rparr>"

text \<open>Removing a record deselects it; clearing the store refreshes the view, which deselects all.\<close>

definition grid_clear_store :: "grid \<Rightarrow> grid" where
  "grid_clear_store g = g\<lparr> g_rows := [], g_sel := [] \<rparr>"

definition grid_on_disconnect :: "grid \<Rightarrow> grid" where
  "grid_on_disconnect g = (grid_clear_store g)\<lparr> g_known := [] \<rparr>"

definition grid_set_rows :: "(string \<times> int) list \<Rightarrow> (string \<times> jsval obj) list \<Rightarrow> grid \<Rightarrow> grid" where
  "grid_set_rows known rows g = g\<lparr> g_known := known, g_rows := rows,
     g_sel := List.filter (\<lambda>i. has_key rows i) (g_sel g) \<rparr>"

definition grid_sort :: "grid \<Rightarrow> grid result" where
  "grid_sort g = (case g_sort g of None \<Rightarrow> Inr g
     | Some (field, desc) \<Rightarrow> map_sum id (\<lambda>rows. g\<lparr> g_rows := rows \<rparr>) (store_sort grid_fields field desc (g_rows g)))"

definition grid_update :: "(string \<times> jsval obj) list \<Rightarrow> bool \<Rightarrow> grid \<Rightarrow> grid result" where
  "grid_update torrents wipe g =
     (let g = (if wipe then grid_on_disconnect g else g) in
      bind_result (each_result sync_row torrents (g_known g, g_rows g, []))
        (\<lambda>s. case sync_remove (has_key torrents) (sync_add s) of
           (known, rows) \<Rightarrow> grid_sort (grid_set_rows known rows g)))"

definition grid_on_torrents_removed :: "string list \<Rightarrow> grid \<Rightarrow> grid" where
  "grid_on_torrents_removed ids g = each_do (\<lambda>i g. g\<lparr> g_sel := remove_first i (g_sel g),
     g_rows := del i (g_rows g), g_known := del i (g_known g) \<rparr>) ids g"

definition grid_select_all :: "grid \<Rightarrow> grid" where
  "grid_select_all g = g\<lparr> g_sel := keys_of (g_rows g) \<rparr>"

text \<open>Right-click on a row: it becomes the only selected row unless it is selected already.\<close>

definition grid_context_menu :: "nat \<Rightarrow> grid \<Rightarrow> grid" where
  "grid_context_menu n g = (if n < length (g_rows g) then
       (let i = fst (g_rows g ! n) in if i \<in> set (g_sel g) then g else g\<lparr> g_sel := [i] \<rparr>)
     else g)"

definition grid_get_torrent :: "grid \<Rightarrow> nat \<Rightarrow> (string \<times> jsval obj) option" where
  "grid_get_torrent g n = (if n < length (g_rows g) then Some (g_rows g ! n) else None)"

definition grid_get_selected :: "grid \<Rightarrow> (string \<times> jsval obj) option" where
  "grid_get_selected g = (case g_sel g of [] \<Rightarrow> None
     | i # is \<Rightarrow> (case map_of (g_rows g) i of None \<Rightarrow> None | Some d \<Rightarrow> Some (i, d)))"

definition grid_get_selections :: "grid \<Rightarrow> (string \<times> jsval obj) list" where
  "grid_get_selections g = List.map (\<lambda>i. (i, the (map_of (g_rows g) i))) (g_sel g)"

definition grid_get_selected_id :: "grid \<Rightarrow> string result" where
  "grid_get_selected_id g = (case grid_get_selected g of None \<Rightarrow> Inl TypeError | Some (i, d) \<Rightarrow> Inr i)"

definition grid_get_selected_ids :: "grid \<Rightarrow> string list" where
  "grid_get_selected_ids g = each_do (\<lambda>(i, d) ids. ids @ [i]) (grid_get_selections g) []"

section \<open>The peers tab\<close>

record peers_tab =
  pt_known :: "(string \<times> int) list"
  pt_rows :: "(string \<times> jsval obj) list"
  pt_sort :: "(string \<times> bool) option"

definition peers_clear :: "peers_tab \<Rightarrow> peers_tab" where
  "peers_clear p = p\<lparr> pt_rows := [], pt_known := [] \<rparr>"

definition peer_ip :: "jsval obj \<Rightarrow> string" where
  "peer_ip d = to_str (oget d ''ip'')"

text \<open>The reply is \<open>None\<close> when there is none. The addresses of the reply are looked up when the rows
  that are gone are removed.\<close>

definition peers_on_request_complete :: "jsval obj list option \<Rightarrow> peers_tab \<Rightarrow> peers_tab result" where
  "peers_on_request_complete torrent p = (case torrent of None \<Rightarrow> Inr p
     | Some peers \<Rightarrow>
       let ts = List.map (\<lambda>d. (peer_ip d, d)) peers in
       bind_result (each_result sync_row ts (pt_known p, pt_rows p, []))
         (\<lambda>s. case sync_remove (has_key ts) (sync_add s) of
            (known, rows) \<Rightarrow> (let p' = p\<lparr> pt_known := known, pt_rows := rows \<rparr> in
              (case pt_sort p' of None \<Rightarrow> Inr p'
               | Some (field, desc) \<Rightarrow>
                   map_sum id (\<lambda>rows. p'\<lparr> pt_rows := rows \<rparr>) (store_sort peer_fields field desc (pt_rows p'))))))"

section \<open>Lemmas\<close>

text \<open>The grid is consistent: the known ids are those of the records, each once, and the selection
  holds ids of records only.\<close>

definition grid_ok :: "grid \<Rightarrow> bool" where
  "grid_ok g = (sync_ok (g_known g) (g_rows g) \<and> (\<forall>i \<in> set (g_sel g). has_key (g_rows g) i)
     \<and> distinct (g_sel g))"

definition peers_ok :: "peers_tab \<Rightarrow> bool" where
  "peers_ok p = sync_ok (pt_known p) (pt_rows p)"

lemma sort_value_total: "k \<noteq> SortIP \<Longrightarrow> \<exists>w. sort_value k v = Inr w"
  by (cases k) (auto simp: sort_value_def)

lemma grid_fields_total: "map_of grid_fields f = Some (ty, k) \<Longrightarrow> k \<noteq> SortIP"
  by (drule map_of_SomeD) (auto simp: grid_fields_def)

lemma store_sort_grid:
  "\<exists>rows'. store_sort grid_fields f desc rows = Inr rows' \<and> set rows' = set rows \<and> (wf_obj rows' \<longleftrightarrow> wf_obj rows)"
proof (cases "map_of grid_fields f")
  case (Some tk)
  obtain ty k where tk: "tk = (ty, k)" by (cases tk)
  have "sort_value k v \<noteq> Inl e" for v e
    using sort_value_total[OF grid_fields_total, of f ty k v] Some tk by auto
  then show ?thesis using Some tk by (auto simp: store_sort_def sort_rows_def)
qed (simp add: store_sort_def)

lemma store_sort_perm:
  "store_sort flds f desc rows = Inr rows' \<Longrightarrow> set rows' = set rows \<and> (wf_obj rows' \<longleftrightarrow> wf_obj rows)"
  by (auto simp: store_sort_def sort_rows_def split: option.splits if_splits)

lemma wf_same_lookup: "wf_obj rows \<Longrightarrow> wf_obj rows' \<Longrightarrow> set rows' = set rows \<Longrightarrow> map_of rows' = map_of rows"
  by (simp add: wf_obj_def map_of_inject_set)

lemma sync_ok_perm:
  "sync_ok known rows \<Longrightarrow> set rows' = set rows \<Longrightarrow> wf_obj rows' \<longleftrightarrow> wf_obj rows \<Longrightarrow>
   sync_ok known rows' \<and> map_of rows' = map_of rows"
  using wf_same_lookup[of rows rows'] by (auto simp: sync_ok_def has_key_def)

lemma sync_ok_del: "sync_ok known rows \<Longrightarrow> sync_ok (del i known) (del i rows)"
  by (auto simp: sync_ok_def has_key_del intro: wf_obj_del)

lemma sync_round:
  assumes "sync_ok known rows" and "wf_obj ts"
  obtains known' rows' where
    "bind_result (each_result sync_row ts (known, rows, [])) (\<lambda>s. Inr (sync_remove (has_key ts) (sync_add s)))
       = Inr (known', rows')"
    and "sync_ok known' rows'"
    and "\<And>i. map_of rows' i = (if has_key ts i then synced rows ts i else None)"
proof -
  obtain known1 rows1 where s: "map_sum id sync_add (each_result sync_row ts (known, rows, [])) = Inr (known1, rows1)"
    and ok: "sync_ok known1 rows1" and l: "\<forall>i. map_of rows1 i = synced rows ts i"
    using sync_spec[OF assms] by blast
  obtain known2 rows2 where r: "sync_remove (has_key ts) (known1, rows1) = (known2, rows2)" by fastforce
  have "sync_ok known2 rows2" and "\<forall>i. map_of rows2 i = (if has_key ts i then map_of rows1 i else None)"
    using sync_remove_spec[OF ok r] by auto
  moreover have "bind_result (each_result sync_row ts (known, rows, [])) (\<lambda>s. Inr (sync_remove (has_key ts) (sync_add s)))
      = Inr (known2, rows2)"
    using s r by (cases "each_result sync_row ts (known, rows, [])") auto
  ultimately show ?thesis using that l by simp
qed

lemma bind_result_assoc: "bind_result r (\<lambda>x. f (g x)) = bind_result (bind_result r (\<lambda>x. Inr (g x))) f"
  by (cases r) auto

lemma grid_update_result:
  assumes "grid_ok g" and "wf_obj ts"
  obtains g' where "grid_update ts wipe g = Inr g'" and "grid_ok g'"
    and "\<And>i. map_of (g_rows g') i = (if has_key ts i then synced (if wipe then [] else g_rows g) ts i else None)"
    and "g_sel g' = (if wipe then [] else List.filter (has_key ts) (g_sel g))"
    and "g_sort g' = g_sort g"
proof -
  define h where "h = (if wipe then grid_on_disconnect g else g)"
  have h: "sync_ok (g_known h) (g_rows h)" "g_rows h = (if wipe then [] else g_rows g)"
    "g_sel h = (if wipe then [] else g_sel g)" "g_sort h = g_sort g" "\<forall>i \<in> set (g_sel h). has_key (g_rows h) i"
    using assms(1)
    by (auto simp: h_def grid_on_disconnect_def grid_clear_store_def grid_ok_def sync_ok_def has_key_def)
  obtain known rows where r: "bind_result (each_result sync_row ts (g_known h, g_rows h, []))
        (\<lambda>s. Inr (sync_remove (has_key ts) (sync_add s))) = Inr (known, rows)"
    and ok: "sync_ok known rows"
    and l: "\<And>i. map_of rows i = (if has_key ts i then synced (g_rows h) ts i else None)"
    using sync_round[OF h(1) assms(2)] by blast
  let ?k = "grid_set_rows known rows h"
  have u: "grid_update ts wipe g = grid_sort ?k"
    unfolding grid_update_def Let_def h_def[symmetric]
    by (subst bind_result_assoc) (simp add: r)
  have keep: "has_key rows i \<longleftrightarrow> has_key ts i" for i
    using l[of i] by (auto simp: has_key_def synced_def split: option.splits)
  have sel: "g_sel ?k = (if wipe then [] else List.filter (has_key ts) (g_sel g))"
    using h(3) by (simp add: grid_set_rows_def keep)
  obtain rows' where s: "grid_sort ?k = Inr (?k\<lparr> g_rows := rows' \<rparr>)"
    and p: "set rows' = set rows" "wf_obj rows' \<longleftrightarrow> wf_obj rows"
  proof (cases "g_sort ?k")
    case None
    have "grid_sort ?k = Inr (?k\<lparr> g_rows := rows \<rparr>)"
      using None by (simp add: grid_sort_def) (simp add: grid_set_rows_def)
    then show ?thesis using that by blast
  next
    case (Some fd)
    obtain f desc where "fd = (f, desc)" by (cases fd)
    moreover obtain rows' where "store_sort grid_fields f desc rows = Inr rows'"
      "set rows' = set rows" "wf_obj rows' \<longleftrightarrow> wf_obj rows"
      using store_sort_grid by blast
    moreover have "g_rows ?k = rows" by (simp add: grid_set_rows_def)
    ultimately show ?thesis using that[of rows'] Some by (simp add: grid_sort_def)
  qed
  note perm = sync_ok_perm[OF ok p]
  have "\<forall>i \<in> set (g_sel ?k). has_key rows' i" and "g_known ?k = known"
    using perm by (simp_all add: grid_set_rows_def has_key_def)
  moreover have "distinct (g_sel ?k)"
    using assms(1) unfolding sel by (simp add: grid_ok_def)
  ultimately have "grid_ok (?k\<lparr> g_rows := rows' \<rparr>)"
    using perm by (simp add: grid_ok_def)
  then show ?thesis
    using that[of "?k\<lparr> g_rows := rows' \<rparr>"] u s sel l perm h(2,4) by (simp add: grid_set_rows_def)
qed

lemma grid_ok_new [inv_intros]: "grid_ok grid_new"
  by (simp add: grid_ok_def grid_new_def sync_ok_def has_key_def)

lemma grid_ok_disconnect [inv_intros]: "grid_ok (grid_on_disconnect g)"
  by (simp add: grid_ok_def grid_on_disconnect_def grid_clear_store_def sync_ok_def has_key_def)

lemma in_remove_first: "x \<in> set (remove_first y xs) \<Longrightarrow> x \<in> set xs"
  by (induction y xs rule: remove_first.induct) (auto split: if_splits)

lemma remove_first_distinct: "distinct xs \<Longrightarrow> set (remove_first y xs) = set xs - {y}"
  by (induction y xs rule: remove_first.induct) auto

lemma distinct_remove_first: "distinct xs \<Longrightarrow> distinct (remove_first y xs)"
  by (induction y xs rule: remove_first.induct) (auto dest: in_remove_first)

lemma grid_ok_removed [inv_intros]: "grid_ok g \<Longrightarrow> grid_ok (grid_on_torrents_removed ids g)"
  unfolding grid_on_torrents_removed_def
  by (rule each_do_invariant[where P = grid_ok])
    (auto simp: grid_ok_def sync_ok_del has_key_del remove_first_distinct distinct_remove_first)

lemma grid_ok_select_all [inv_intros]: "grid_ok g \<Longrightarrow> grid_ok (grid_select_all g)"
  by (auto simp: grid_ok_def grid_select_all_def set_keys_of sync_ok_def rows.distinct_ids)

lemma grid_ok_context_menu [inv_intros]: "grid_ok g \<Longrightarrow> grid_ok (grid_context_menu n g)"
proof -
  have "n < length (g_rows g) \<Longrightarrow> has_key (g_rows g) (fst (g_rows g ! n))"
    by (metis mem_Collect_eq set_keys_of keys_of_def nth_mem nth_map length_map)
  then show "grid_ok g \<Longrightarrow> grid_ok (grid_context_menu n g)"
    by (auto simp: grid_ok_def grid_context_menu_def Let_def)
qed

lemma grid_selected_ids_eq: "grid_get_selected_ids g = g_sel g"
proof -
  have "each_do (\<lambda>(i, d) ids. ids @ [i]) ps acc = acc @ List.map fst ps" for ps :: "(string \<times> jsval obj) list" and acc
    by (induction ps arbitrary: acc) auto
  then show ?thesis by (simp add: grid_get_selected_ids_def grid_get_selections_def comp_def)
qed

section \<open>Properties\<close>

text \<open>C2: After a reply has been processed the grid shows exactly the torrents of the reply, whether
  or not it was wiped first: every value of the reply is the one shown (or prints alike), a torrent
  that is new shows the data of the reply itself, and the update never fails.\<close>

theorem grid_update_sync:
  assumes "grid_ok g" and "wf_obj torrents" and "\<forall>(t, row) \<in> set torrents. wf_obj row"
  shows "\<exists>g'. grid_update torrents wipe g = Inr g' \<and> grid_ok g'
    \<and> set (keys_of (g_rows g')) = set (keys_of torrents)
    \<and> (\<forall>t row k v. map_of torrents t = Some row \<longrightarrow> map_of row k = Some v \<longrightarrow>
         shows_same (oget (the (map_of (g_rows g') t)) k) v)
    \<and> (\<forall>t. wipe \<or> \<not> has_key (g_rows g) t \<longrightarrow> map_of (g_rows g') t = map_of torrents t)"
proof -
  obtain g' where g': "grid_update torrents wipe g = Inr g'" "grid_ok g'"
    and l: "\<And>i. map_of (g_rows g') i
      = (if has_key torrents i then synced (if wipe then [] else g_rows g) torrents i else None)"
    using grid_update_result[OF assms(1,2)] by metis
  have "set (keys_of (g_rows g')) = set (keys_of torrents)"
    using l by (auto simp: set_keys_of has_key_def synced_def split: option.splits if_splits)
  moreover have "shows_same (oget (the (map_of (g_rows g') t)) k) v"
    if t: "map_of torrents t = Some row" and k: "map_of row k = Some v" for t row k v
  proof -
    have wf: "wf_obj row" using t assms(3) by (auto dest: map_of_SomeD)
    have "has_key torrents t" using t by (simp add: has_key_def)
    then have "the (map_of (g_rows g') t) = (case map_of (if wipe then [] else g_rows g) t of
        None \<Rightarrow> row | Some d \<Rightarrow> merge_row row d)"
      using l[of t] t by (simp add: synced_def)
    moreover have "shows_same (oget row k) v" using k by (simp add: shows_same_def oget_def)
    ultimately show ?thesis
      using merge_row_get[OF wf k] by (auto split: option.splits)
  qed
  moreover have "map_of (g_rows g') t = map_of torrents t" if "wipe \<or> \<not> has_key (g_rows g) t" for t
    using l[of t] that by (auto simp: synced_def has_key_def split: option.splits)
  ultimately show ?thesis using g' by blast
qed

text \<open>C13: The grid stays consistent under every operation: known ids and records agree, no id occurs
  twice, and only records that exist are selected.\<close>

theorem grid_ok_preserved:
  assumes "grid_ok g"
  shows "grid_ok (grid_on_disconnect g) \<and> grid_ok (grid_on_torrents_removed ids g)
    \<and> grid_ok (grid_select_all g) \<and> grid_ok (grid_context_menu n g)
    \<and> (wf_obj torrents \<longrightarrow> (\<exists>g'. grid_update torrents wipe g = Inr g' \<and> grid_ok g'))"
  using assms grid_update_result[OF assms, of torrents wipe]
  by (metis grid_ok_disconnect grid_ok_removed grid_ok_select_all grid_ok_context_menu)

text \<open>The selection survives an update as far as the torrents do, in its order; a wipe drops it. The
  selected ids are those the menus act on, and none of them is without a record.\<close>

theorem grid_update_selection:
  assumes "grid_ok g" and "wf_obj torrents" and "grid_update torrents wipe g = Inr g'"
  shows "grid_get_selected_ids g' = (if wipe then [] else List.filter (has_key torrents) (grid_get_selected_ids g))
    \<and> (\<forall>i \<in> set (grid_get_selected_ids g'). has_key (g_rows g') i)"
proof -
  obtain g1 where g1: "grid_update torrents wipe g = Inr g1" "grid_ok g1"
    "g_sel g1 = (if wipe then [] else List.filter (has_key torrents) (g_sel g))"
    using grid_update_result[OF assms(1,2)] by metis
  then have "g' = g1" using assms(3) by simp
  then show ?thesis using g1 by (auto simp: grid_selected_ids_eq grid_ok_def)
qed

text \<open>Torrents reported as removed leave the store, the table of known ids and the selection at
  once; every other torrent stays as it was.\<close>

theorem grid_torrents_removed:
  assumes "grid_ok g"
  shows "has_key (g_rows (grid_on_torrents_removed ids g)) t = (t \<notin> set ids \<and> has_key (g_rows g) t)
    \<and> has_key (g_known (grid_on_torrents_removed ids g)) t = (t \<notin> set ids \<and> has_key (g_known g) t)
    \<and> set (g_sel (grid_on_torrents_removed ids g)) = set (g_sel g) - set ids"
proof -
  have "distinct (g_sel g) \<Longrightarrow> has_key (g_rows (grid_on_torrents_removed ids g)) t = (t \<notin> set ids \<and> has_key (g_rows g) t)
    \<and> has_key (g_known (grid_on_torrents_removed ids g)) t = (t \<notin> set ids \<and> has_key (g_known g) t)
    \<and> set (g_sel (grid_on_torrents_removed ids g)) = set (g_sel g) - set ids"
    unfolding grid_on_torrents_removed_def
    by (induction ids arbitrary: g) (auto simp: has_key_del remove_first_distinct distinct_remove_first)
  then show ?thesis using assms by (simp add: grid_ok_def)
qed

text \<open>The columns Owner, Public and Shared can show nothing and do not sort: their fields are neither
  among the keys the grid requests from the daemon nor among the fields of its store, which hold for
  every other column.\<close>

theorem grid_columns_without_data:
  "List.map col_header (List.filter (\<lambda>c. col_data c \<notin> set keys_grid) grid_columns)
     = [''Owner'', ''Public'', ''Shared'']
   \<and> List.map col_header (List.filter (\<lambda>c. map_of grid_fields (col_data c) = None) grid_columns)
     = [''Owner'', ''Public'', ''Shared'']
   \<and> store_sort grid_fields ''owner'' desc rows = Inr rows"
proof -
  have "List.map col_header (List.filter (\<lambda>c. col_data c \<notin> set keys_grid) grid_columns)
     = [''Owner'', ''Public'', ''Shared'']" by code_simp
  moreover have "List.map col_header (List.filter (\<lambda>c. map_of grid_fields (col_data c) = None) grid_columns)
     = [''Owner'', ''Public'', ''Shared'']" by code_simp
  moreover have "map_of grid_fields ''owner'' = None" by code_simp
  ultimately show ?thesis by (simp add: store_sort_def)
qed

lemma peers_complete_result:
  assumes "peers_ok p" and "distinct (List.map peer_ip peers)" and "pt_sort p = None"
  shows "\<exists>p'. peers_on_request_complete (Some peers) p = Inr p' \<and> peers_ok p'
    \<and> set (keys_of (pt_rows p')) = set (List.map peer_ip peers)"
proof -
  let ?ts = "List.map (\<lambda>d. (peer_ip d, d)) peers"
  have wf: "wf_obj ?ts" using assms(2) by (simp add: wf_obj_def comp_def)
  obtain known rows where r: "bind_result (each_result sync_row ?ts (pt_known p, pt_rows p, []))
        (\<lambda>s. Inr (sync_remove (has_key ?ts) (sync_add s))) = Inr (known, rows)"
    and ok: "sync_ok known rows"
    and l: "\<And>i. map_of rows i = (if has_key ?ts i then synced (pt_rows p) ?ts i else None)"
    using sync_round[OF assms(1)[unfolded peers_ok_def] wf] by blast
  have "peers_on_request_complete (Some peers) p = Inr (p\<lparr> pt_known := known, pt_rows := rows \<rparr>)"
    unfolding peers_on_request_complete_def Let_def option.case
    by (subst bind_result_assoc) (simp add: r assms(3))
  moreover have "set (keys_of rows) = set (List.map peer_ip peers)"
  proof -
    have "set (keys_of rows) = {i. has_key ?ts i}"
      using l by (auto simp: set_keys_of has_key_def synced_def split: option.splits if_splits)
    then show ?thesis by (simp add: set_keys_of[symmetric] keys_of_def comp_def)
  qed
  ultimately show ?thesis using ok by (auto simp: peers_ok_def)
qed

text \<open>The peers tab shows exactly the peers of the reply, one row for each address, when no column
  is sorted.\<close>

theorem peers_sync:
  assumes "peers_ok p" and "distinct (List.map peer_ip peers)" and "pt_sort p = None"
  shows "\<exists>p'. peers_on_request_complete (Some peers) p = Inr p' \<and> peers_ok p'
    \<and> set (keys_of (pt_rows p')) = set (List.map peer_ip peers)"
  using assms by (rule peers_complete_result)

text \<open>Sorting the peers by address fails as soon as two peers are shown of which one has an IPv6
  address (no dotted quad followed by a colon in it): the sort function reads from a match that does
  not exist.\<close>

theorem peers_sort_ipv6_fails:
  assumes "2 \<le> length rows" and "(i, d) \<in> set rows" and "oget d ''ip'' = Str a" and "ip_match a = None"
  shows "store_sort peer_fields ''ip'' desc rows = Inl TypeError"
proof -
  have "map_of peer_fields ''ip'' = Some (''string'', SortIP)" by code_simp
  moreover have "sort_value SortIP (oget d ''ip'') = Inl TypeError"
    using assms(3,4) by (simp add: sort_value_def as_ip_address_def)
  ultimately show ?thesis using assms(1,2) by (auto simp: store_sort_def)
qed

section \<open>Witnesses\<close>

definition sample_grid :: grid where
  "sample_grid = \<lparr> g_known = [(''a'', 1), (''b'', 1)],
     g_rows = [(''a'', [(''name'', Str ''x''), (''progress'', JInt 10)]), (''b'', [(''name'', Str ''y'')])],
     g_sel = [''b'', ''a''], g_sort = Some (''name'', True) \<rparr>"

lemma sample_grid_ok: "grid_ok sample_grid"
proof -
  have "has_key (g_known sample_grid) i \<longleftrightarrow> has_key (g_rows sample_grid) i" for i
    by (simp add: sample_grid_def has_key_def)
  then show ?thesis by (simp add: grid_ok_def sync_ok_def wf_obj_def) (simp add: sample_grid_def has_key_def)
qed

definition sample_reply :: "(string \<times> jsval obj) list" where
  "sample_reply = [(''b'', [(''name'', Str ''z'')]), (''c'', [(''name'', Str ''w'')])]"

lemma sample_reply_wf: "wf_obj sample_reply" "\<forall>(t, row) \<in> set sample_reply. wf_obj row"
  by (simp_all add: sample_reply_def wf_obj_def)

theorem grid_update_sync_witness:
  "\<exists>g'. grid_update sample_reply False sample_grid = Inr g'
     \<and> set (keys_of (g_rows g')) = {''b'', ''c''} \<and> shows_same (oget (the (map_of (g_rows g') ''b'')) ''name'') (Str ''z'')"
proof -
  have "set (keys_of sample_reply) = {''b'', ''c''}" "map_of sample_reply ''b'' = Some [(''name'', Str ''z'')]"
    by (simp_all add: sample_reply_def keys_of_def)
  then show ?thesis
    using grid_update_sync[OF sample_grid_ok sample_reply_wf, of False] by (metis map_of_Cons_code(2))
qed

theorem grid_ok_preserved_witness: "grid_ok (grid_context_menu 1 sample_grid)"
  using grid_ok_preserved[OF sample_grid_ok] by blast

theorem grid_update_selection_witness:
  "\<exists>g'. grid_update sample_reply False sample_grid = Inr g' \<and> grid_get_selected_ids g' = [''b'']"
proof -
  obtain g' where g': "grid_update sample_reply False sample_grid = Inr g'"
    using grid_update_result[OF sample_grid_ok sample_reply_wf(1)] by metis
  have "List.filter (has_key sample_reply) (grid_get_selected_ids sample_grid) = [''b'']"
    by (simp add: grid_selected_ids_eq) (simp add: sample_grid_def sample_reply_def has_key_def)
  then show ?thesis
    using g' grid_update_selection[OF sample_grid_ok sample_reply_wf(1) g'] by simp
qed

theorem grid_torrents_removed_witness:
  "set (g_sel (grid_on_torrents_removed [''b''] sample_grid)) = {''a''}"
  using grid_torrents_removed[OF sample_grid_ok, of "[''b'']"] by (auto simp: sample_grid_def)

definition sample_peers :: "jsval obj list" where
  "sample_peers = [[(''ip'', Str ''10.0.0.1:6881'')], [(''ip'', Str ''::1:6881'')]]"

theorem peers_sync_witness:
  "\<exists>p'. peers_on_request_complete (Some sample_peers) \<lparr> pt_known = [], pt_rows = [], pt_sort = None \<rparr> = Inr p'
     \<and> set (keys_of (pt_rows p')) = {''10.0.0.1:6881'', ''::1:6881''}"
  using peers_sync[of "\<lparr> pt_known = [], pt_rows = [], pt_sort = None \<rparr>" sample_peers]
  by (auto simp: sample_peers_def peer_ip_def oget_def peers_ok_def sync_ok_def has_key_def)

theorem peers_sort_ipv6_fails_witness:
  "store_sort peer_fields ''ip'' False (List.map (\<lambda>d. (peer_ip d, d)) sample_peers) = Inl TypeError"
proof (rule peers_sort_ipv6_fails)
  show "2 \<le> length (List.map (\<lambda>d. (peer_ip d, d)) sample_peers)" by (simp add: sample_peers_def)
  show "(''::1:6881'', [(''ip'', Str ''::1:6881'')]) \<in> set (List.map (\<lambda>d. (peer_ip d, d)) sample_peers)"
    by (simp add: sample_peers_def peer_ip_def oget_def)
  show "oget [(''ip'', Str ''::1:6881'')] ''ip'' = Str ''::1:6881''" by (simp add: oget_def)
  show "ip_match ''::1:6881'' = None" by code_simp
qed

end
