(* ===== verification/Sidebar.thy ===== *)
theory Sidebar
  imports GridRender
begin

text \<open>
  The filter panels (FilterPanel.js) and the sidebar that holds them (Sidebar.js): the
  states a filter offers with their counts, the selected state, and the filter values
  sent with each poll. A change of selection is the event \<open>selectionchange\<close>, on which
  the interface polls at once; \<open>fp_log\<close> holds the selection after each of these.
\<close>

section \<open>Filter panels\<close>

record panel =
  fp_type :: string
  fp_title :: string
  fp_states :: "jsval obj"
  fp_rows :: "(string \<times> string \<times> jsval) list"
  fp_sel :: "string option"
  fp_log :: "string option list"

definition capitalize :: "string \<Rightarrow> string" where
  "capitalize p = (case p of [] \<Rightarrow> []
     | c # cs \<Rightarrow> (let n = (of_char c :: int) in if 97 \<le> n \<and> n \<le> 122 then char_of (n - 32) else c) # cs)"

fun split_spaces :: "string \<Rightarrow> string list" where
  "split_spaces [] = [[]]"
| "split_spaces (c # cs) = (if c = CHR '' '' then [] # split_spaces cs
     else (case split_spaces cs of [] \<Rightarrow> [[c]] | p # ps \<Rightarrow> (c # p) # ps))"

definition filter_title :: "string \<Rightarrow> string" where
  "filter_title ty =
     (if ty = ''state'' then ''States''
      else if ty = ''tracker_host'' then ''Trackers''
      else if ty = ''owner'' then ''Owner''
      else if ty = ''label'' then ''Labels''
      else each_do (\<lambda>p t. t @ capitalize p @ '' '') (split_spaces (replace_first CHR ''_'' CHR '' '' ty)) [])"

definition panel_new :: "(string \<Rightarrow> string) \<Rightarrow> string \<Rightarrow> panel" where
  "panel_new tr ty = \<lparr> fp_type = ty, fp_title = tr (filter_title ty), fp_states = [], fp_rows = [],
     fp_sel = None, fp_log = [] \<rparr>"

definition panel_get_state :: "panel \<Rightarrow> jsval" where
  "panel_get_state p = (case fp_sel p of None \<Rightarrow> Undef
     | Some i \<Rightarrow> if i = ''All'' then Undef else Str i)"

definition panel_get_states :: "panel \<Rightarrow> jsval obj" where
  "panel_get_states p = fp_states p"

definition shown_states :: "bool \<Rightarrow> (string \<times> jsval) list \<Rightarrow> (string \<times> jsval) list" where
  "shown_states show_zero states = (if show_zero then states
     else List.filter (\<lambda>(n, c). js_lt (JInt 0) c \<or> n = ''All'') states)"

text \<open>\<open>store.insert(i, record)\<close>.\<close>

definition insert_at :: "nat \<Rightarrow> 'a \<Rightarrow> 'a list \<Rightarrow> 'a list" where
  "insert_at i x xs = take i xs @ x # drop i xs"

text \<open>The list selects a row: an event unless the row is selected already or there is none.\<close>

definition panel_select :: "nat \<Rightarrow> panel \<Rightarrow> panel" where
  "panel_select n p = (if n < length (fp_rows p) \<and> fp_sel p \<noteq> Some (fst (fp_rows p ! n))
     then p\<lparr> fp_sel := Some (fst (fp_rows p ! n)), fp_log := fp_log p @ [Some (fst (fp_rows p ! n))] \<rparr> else p)"

text \<open>Removing the selected record deselects it, an event.\<close>

definition panel_remove :: "string \<Rightarrow> panel \<Rightarrow> panel" where
  "panel_remove i p = (let p' = p\<lparr> fp_rows := del i (fp_rows p) \<rparr> in
     if fp_sel p = Some i then p'\<lparr> fp_sel := None, fp_log := fp_log p @ [None] \<rparr> else p')"

definition set_count :: "jsval \<Rightarrow> jsval \<Rightarrow> jsval" where
  "set_count v old = (if (if ext_is_primitive v then to_str old = to_str v else json_norm old = json_norm v)
     then old else v)"

fun update_rows :: "(string \<Rightarrow> string) \<Rightarrow> nat \<Rightarrow> (string \<times> jsval) list \<Rightarrow> panel \<Rightarrow> panel" where
  "update_rows tr i [] p = p"
| "update_rows tr i ((n, c) # ss) p = update_rows tr (Suc i) ss
     (case map_of (fp_rows p) n of
        None \<Rightarrow> p\<lparr> fp_rows := insert_at i (n, tr n, c) (fp_rows p) \<rparr>
      | Some (lbl, old) \<Rightarrow> p\<lparr> fp_rows := put n (tr n, set_count c old) (fp_rows p) \<rparr>)"

text \<open>After the removal of a record the code selects the first row only when the removed record is still
  selected, which it never is; at the end the first row is selected when nothing is.\<close>

definition panel_update_states :: "(string \<Rightarrow> string) \<Rightarrow> bool \<Rightarrow> (string \<times> jsval) list \<Rightarrow> panel \<Rightarrow> panel" where
  "panel_update_states tr show_zero states p =
     (let p = p\<lparr> fp_states := each_do (\<lambda>(n, c). put n c) states [] \<rparr>;
          shown = shown_states show_zero states;
          p = update_rows tr 0 shown p;
          p = each_do (\<lambda>i p. if has_key shown i then p
                else (let p' = panel_remove i p in
                  if fp_sel p' = Some i then panel_select 0 p' else p')) (keys_of (fp_rows p)) p
      in if fp_sel p = None then panel_select 0 p else p)"

section \<open>The sidebar\<close>

type_synonym sidebar = "(string \<times> panel) list"

definition sidebar_create_filter :: "(string \<Rightarrow> string) \<Rightarrow> bool \<Rightarrow> string \<Rightarrow> (string \<times> jsval) list \<Rightarrow> sidebar \<Rightarrow> sidebar" where
  "sidebar_create_filter tr show_zero ty states sb =
     put ty (panel_update_states tr show_zero states (panel_new tr ty)) sb"

definition sidebar_get_filter :: "sidebar \<Rightarrow> string \<Rightarrow> panel option" where
  "sidebar_get_filter sb ty = map_of sb ty"

definition sidebar_has_filter :: "sidebar \<Rightarrow> string \<Rightarrow> bool" where
  "sidebar_has_filter sb ty = has_key sb ty"

text \<open>With several filters at once every panel takes part; otherwise only the one that is open, the
  active item of the layout, whatever it has selected: the test \<open>!state == null\<close> never holds.\<close>

definition sidebar_get_filter_states :: "bool \<Rightarrow> string option \<Rightarrow> sidebar \<Rightarrow> jsval obj" where
  "sidebar_get_filter_states multiple active sb =
     (if multiple then
        each_do (\<lambda>(ty, p) states. let st = panel_get_state p in
          if nullish st then states else put (fp_type p) st states) sb []
      else (case active of None \<Rightarrow> []
        | Some ty \<Rightarrow> (case map_of sb ty of None \<Rightarrow> []
            | Some p \<Rightarrow> let st = panel_get_state p in
                if loose_eq (Bool (\<not> truthy st)) Null then [] else put (fp_type p) st [])))"

definition sidebar_on_disconnect :: "sidebar \<Rightarrow> sidebar" where
  "sidebar_on_disconnect sb = []"

definition sidebar_update :: "(string \<Rightarrow> string) \<Rightarrow> bool \<Rightarrow> (string \<times> (string \<times> jsval) list) list \<Rightarrow> sidebar \<Rightarrow> sidebar" where
  "sidebar_update tr show_zero filters sb =
     (let sb = for_in (\<lambda>ty states sb. case map_of sb ty of
            Some p \<Rightarrow> put ty (panel_update_states tr show_zero states p) sb
          | None \<Rightarrow> sidebar_create_filter tr show_zero ty states sb) filters sb
      in each_do (\<lambda>ty sb. if ty \<in> set (keys_of filters) then sb else del ty sb) (keys_of sb) sb)"

text \<open>The sidebar at each change of selection during an update, when the interface polls.\<close>

definition sidebar_snapshots :: "(string \<Rightarrow> string) \<Rightarrow> bool \<Rightarrow> (string \<times> (string \<times> jsval) list) list
    \<Rightarrow> sidebar \<Rightarrow> sidebar list" where
  "sidebar_snapshots tr show_zero filters sb = snd (for_in
     (\<lambda>ty states (sb, snaps).
        let p = (case map_of sb ty of Some p \<Rightarrow> p | None \<Rightarrow> panel_new tr ty);
            q = panel_update_states tr show_zero states p
        in (put ty q sb, snaps @ List.map (\<lambda>sel. put ty (q\<lparr> fp_sel := sel \<rparr>) sb) (drop (length (fp_log p)) (fp_log q))))
     filters (sb, []))"

text \<open>A click on the header of a panel: whether the interface polls for the click itself, the panel, which
  may select its first row (a poll more).\<close>

definition sidebar_header_click :: "bool \<Rightarrow> string \<Rightarrow> sidebar \<Rightarrow> bool \<times> sidebar" where
  "sidebar_header_click multiple ty sb = (\<not> multiple, case map_of sb ty of None \<Rightarrow> sb
     | Some p \<Rightarrow> put ty (if fp_sel p = None then panel_select 0 p else p) sb)"

section \<open>Lemmas\<close>

definition panel_ok :: "panel \<Rightarrow> bool" where
  "panel_ok p = (wf_obj (fp_rows p) \<and> (case fp_sel p of None \<Rightarrow> fp_rows p = [] | Some i \<Rightarrow> has_key (fp_rows p) i))"

lemma set_insert_at [simp]: "set (insert_at i x xs) = insert x (set xs)"
proof -
  have "set xs = set (take i xs) \<union> set (drop i xs)"
    by (metis append_take_drop_id set_append)
  then show ?thesis by (auto simp: insert_at_def)
qed

lemma wf_insert_at:
  assumes "wf_obj ob" and "map_of ob n = None"
  shows "wf_obj (insert_at i (n, v) ob)"
proof -
  have m: "List.map fst (insert_at i (n, v) ob) = insert_at i n (List.map fst ob)"
    by (simp add: insert_at_def take_map drop_map)
  have "distinct (take i (List.map fst ob))" "distinct (drop i (List.map fst ob))"
    "set (take i (List.map fst ob)) \<inter> set (drop i (List.map fst ob)) = {}"
    using assms(1) set_take_disj_set_drop_if_distinct[of "List.map fst ob" i i] by (simp_all add: wf_obj_def)
  moreover have "n \<notin> set (take i (List.map fst ob)) \<union> set (drop i (List.map fst ob))"
    using assms(2) by (metis append_take_drop_id map_of_eq_None_iff set_append set_map)
  ultimately have "distinct (insert_at i n (List.map fst ob))"
    unfolding insert_at_def distinct_append by auto
  then show ?thesis by (simp only: wf_obj_def m)
qed

lemma has_key_set: "has_key ob i \<longleftrightarrow> i \<in> fst ` set ob"
  by (simp add: has_key_def map_of_eq_None_iff)

lemma has_key_insert_at [simp]: "has_key (insert_at i (n, v) ob) j \<longleftrightarrow> j = n \<or> has_key ob j"
  by (auto simp: has_key_set)

lemma update_rows_state:
  assumes "wf_obj (fp_rows p)"
  shows "wf_obj (fp_rows (update_rows tr i ss p))
    \<and> (\<forall>j. has_key (fp_rows (update_rows tr i ss p)) j \<longleftrightarrow> has_key (fp_rows p) j \<or> has_key ss j)
    \<and> fp_sel (update_rows tr i ss p) = fp_sel p \<and> fp_log (update_rows tr i ss p) = fp_log p
    \<and> fp_states (update_rows tr i ss p) = fp_states p \<and> fp_type (update_rows tr i ss p) = fp_type p"
  using assms
proof (induction tr i ss p rule: update_rows.induct)
  case (2 tr i n c ss p)
  let ?q = "case map_of (fp_rows p) n of
      None \<Rightarrow> p\<lparr> fp_rows := insert_at i (n, tr n, c) (fp_rows p) \<rparr>
    | Some (lbl, old) \<Rightarrow> p\<lparr> fp_rows := put n (tr n, set_count c old) (fp_rows p) \<rparr>"
  have q: "wf_obj (fp_rows ?q)" "\<And>j. has_key (fp_rows ?q) j \<longleftrightarrow> has_key (fp_rows p) j \<or> j = n"
    "fp_sel ?q = fp_sel p" "fp_log ?q = fp_log p" "fp_states ?q = fp_states p" "fp_type ?q = fp_type p"
    using 2(2) by (auto simp: wf_insert_at has_key_put intro: wf_obj_put split: option.splits)
  have "has_key ((n, c) # ss) j \<longleftrightarrow> j = n \<or> has_key ss j" for j by (auto simp: has_key_def)
  then show ?case using 2(1)[OF q(1)] q by auto
qed (simp add: has_key_def)

definition remove_gone :: "(string \<Rightarrow> bool) \<Rightarrow> string list \<Rightarrow> panel \<Rightarrow> panel" where
  "remove_gone keep is p = each_do (\<lambda>i p. if keep i then p
     else (let p' = panel_remove i p in if fp_sel p' = Some i then panel_select 0 p' else p')) is p"

lemma remove_gone_state:
  assumes "wf_obj (fp_rows p)"
  shows "wf_obj (fp_rows (remove_gone keep is p))
    \<and> (\<forall>j. has_key (fp_rows (remove_gone keep is p)) j \<longleftrightarrow> has_key (fp_rows p) j \<and> (j \<in> set is \<longrightarrow> keep j))
    \<and> fp_sel (remove_gone keep is p) = (case fp_sel p of None \<Rightarrow> None
        | Some i \<Rightarrow> if i \<in> set is \<and> \<not> keep i then None else Some i)
    \<and> fp_states (remove_gone keep is p) = fp_states p \<and> fp_type (remove_gone keep is p) = fp_type p"
  using assms
proof (induction "is" arbitrary: p)
  case Nil
  then show ?case by (simp add: remove_gone_def split: option.splits)
next
  case (Cons i "is")
  let ?q = "if keep i then p else panel_remove i p"
  have step: "remove_gone keep (i # is) p = remove_gone keep is ?q"
    by (auto simp: remove_gone_def panel_remove_def Let_def)
  have "wf_obj (fp_rows ?q)" using Cons.prems by (simp add: panel_remove_def Let_def wf_obj_del)
  from Cons.IH[OF this] show ?case unfolding step
    by (auto simp: panel_remove_def Let_def has_key_del split: option.splits if_splits)
qed

lemma panel_update_unfold:
  "panel_update_states tr sz states p =
    (let shown = shown_states sz states;
         q = update_rows tr 0 shown (p\<lparr> fp_states := each_do (\<lambda>(n, c). put n c) states [] \<rparr>);
         r = remove_gone (has_key shown) (keys_of (fp_rows q)) q
     in if fp_sel r = None then panel_select 0 r else r)"
  by (simp add: panel_update_states_def remove_gone_def Let_def)

lemma panel_select_state [simp]:
  "fp_rows (panel_select n p) = fp_rows p" "fp_states (panel_select n p) = fp_states p"
  "fp_type (panel_select n p) = fp_type p"
  by (simp_all add: panel_select_def)

lemma panel_update_spec:
  assumes "panel_ok p" and q_def: "q = panel_update_states tr sz states p"
  shows "panel_ok q" and "\<And>j. has_key (fp_rows q) j \<longleftrightarrow> has_key (shown_states sz states) j"
    and "fp_states q = each_do (\<lambda>(n, c). put n c) states []" and "fp_type q = fp_type p"
    and "\<And>i. fp_sel p = Some i \<Longrightarrow> has_key (shown_states sz states) i \<Longrightarrow> fp_sel q = Some i"
proof -
  let ?shown = "shown_states sz states"
  let ?p = "p\<lparr> fp_states := each_do (\<lambda>(n, c). put n c) states [] \<rparr>"
  define q1 where "q1 = update_rows tr 0 ?shown ?p"
  define r where "r = remove_gone (has_key ?shown) (keys_of (fp_rows q1)) q1"
  have q: "q = (if fp_sel r = None then panel_select 0 r else r)"
    by (simp add: q_def panel_update_unfold Let_def q1_def r_def)
  have wf: "wf_obj (fp_rows p)" and sel: "\<And>i. fp_sel p = Some i \<Longrightarrow> has_key (fp_rows p) i"
    using assms(1) by (auto simp: panel_ok_def)
  have q1: "wf_obj (fp_rows q1)" "\<And>j. has_key (fp_rows q1) j \<longleftrightarrow> has_key (fp_rows p) j \<or> has_key ?shown j"
    "fp_sel q1 = fp_sel p" "fp_states q1 = each_do (\<lambda>(n, c). put n c) states []" "fp_type q1 = fp_type p"
    using update_rows_state[of ?p tr 0 ?shown] wf by (simp_all add: q1_def)
  have r: "wf_obj (fp_rows r)" "\<And>j. has_key (fp_rows r) j \<longleftrightarrow> has_key ?shown j"
    "fp_sel r = (case fp_sel p of None \<Rightarrow> None | Some i \<Rightarrow> if has_key ?shown i then Some i else None)"
    "fp_states r = each_do (\<lambda>(n, c). put n c) states []" "fp_type r = fp_type p"
    using remove_gone_state[OF q1(1), of "has_key ?shown" "keys_of (fp_rows q1)"] q1 sel
    by (auto simp: r_def set_keys_of split: option.splits)
  show "has_key (fp_rows q) j \<longleftrightarrow> has_key ?shown j" for j using r(2) by (simp add: q)
  show "fp_states q = each_do (\<lambda>(n, c). put n c) states []" "fp_type q = fp_type p" using r by (simp_all add: q)
  show "fp_sel q = Some i" if "fp_sel p = Some i" "has_key ?shown i" for i
    using that r(3) by (simp add: q)
  show "panel_ok q"
  proof (cases "fp_sel r")
    case None
    have "fp_rows r \<noteq> [] \<Longrightarrow> has_key (fp_rows r) (fst (fp_rows r ! 0))"
      by (cases "fp_rows r") (auto simp: has_key_def)
    then show ?thesis using None r(1) by (auto simp: q panel_ok_def panel_select_def)
  next
    case (Some i)
    then have "has_key ?shown i" using r(3) by (auto split: option.splits if_splits)
    then show ?thesis using Some r(1,2) by (simp add: q panel_ok_def)
  qed
qed

lemma panel_ok_new [simp]: "panel_ok (panel_new tr ty)"
  by (simp add: panel_ok_def panel_new_def)

lemma fp_type_new [simp]: "fp_type (panel_new tr ty) = ty"
  by (simp add: panel_new_def)

text \<open>Every panel of the sidebar is consistent and stands under its own type, each type once.\<close>

definition sidebar_ok :: "sidebar \<Rightarrow> bool" where
  "sidebar_ok sb = (wf_obj sb \<and> (\<forall>(ty, p) \<in> set sb. panel_ok p \<and> fp_type p = ty))"

lemma sidebar_ok_lookup: "sidebar_ok sb \<Longrightarrow> map_of sb ty = Some p \<Longrightarrow> panel_ok p \<and> fp_type p = ty"
  by (auto simp: sidebar_ok_def dest: map_of_SomeD)

lemma sidebar_ok_put: "sidebar_ok sb \<Longrightarrow> panel_ok p \<Longrightarrow> fp_type p = ty \<Longrightarrow> sidebar_ok (put ty p sb)"
  by (auto simp: sidebar_ok_def intro: wf_obj_put dest!: in_put)

lemma sidebar_ok_del: "sidebar_ok sb \<Longrightarrow> sidebar_ok (del ty sb)"
  by (auto simp: sidebar_ok_def intro: wf_obj_del dest!: in_del)

definition update_panel :: "(string \<Rightarrow> string) \<Rightarrow> bool \<Rightarrow> string \<Rightarrow> (string \<times> jsval) list \<Rightarrow> sidebar \<Rightarrow> panel" where
  "update_panel tr sz ty states sb = panel_update_states tr sz states
     (case map_of sb ty of Some p \<Rightarrow> p | None \<Rightarrow> panel_new tr ty)"

lemma update_panel_ok:
  "sidebar_ok sb \<Longrightarrow> panel_ok (update_panel tr sz ty states sb) \<and> fp_type (update_panel tr sz ty states sb) = ty"
proof -
  assume ok: "sidebar_ok sb"
  let ?p = "case map_of sb ty of Some p \<Rightarrow> p | None \<Rightarrow> panel_new tr ty"
  have "panel_ok ?p" and "fp_type ?p = ty"
    using sidebar_ok_lookup[OF ok, of ty] by (auto split: option.splits)
  then show ?thesis using panel_update_spec(1,4)[OF _ refl] by (simp add: update_panel_def)
qed

lemma sidebar_update_unfold:
  "sidebar_update tr sz filters sb =
    (let sb1 = for_in (\<lambda>ty states sb. put ty (update_panel tr sz ty states sb) sb) filters sb
     in rows.prune (has_key filters) sb1)"
proof -
  have f: "(\<lambda>ty states sb. case map_of sb ty of
            Some p \<Rightarrow> put ty (panel_update_states tr sz states p) sb
          | None \<Rightarrow> sidebar_create_filter tr sz ty states sb)
      = (\<lambda>ty states sb. put ty (update_panel tr sz ty states sb) sb)"
    by (auto simp: fun_eq_iff update_panel_def sidebar_create_filter_def split: option.splits)
  show ?thesis
    by (simp add: sidebar_update_def rows.prune_def Let_def f set_keys_of)
qed

lemma for_in_panels:
  "sidebar_ok sb \<Longrightarrow> wf_obj filters \<Longrightarrow>
   sidebar_ok (for_in (\<lambda>ty states sb. put ty (update_panel tr sz ty states sb) sb) filters sb)
   \<and> (\<forall>ty. map_of (for_in (\<lambda>ty states sb. put ty (update_panel tr sz ty states sb) sb) filters sb) ty
        = (case map_of filters ty of None \<Rightarrow> map_of sb ty | Some states \<Rightarrow> Some (update_panel tr sz ty states sb)))"
proof (induction filters arbitrary: sb)
  case (Cons f filters)
  obtain t states where f: "f = (t, states)" by (cases f)
  let ?sb = "put t (update_panel tr sz t states sb) sb"
  have wf: "wf_obj filters" "map_of filters t = None"
    using Cons.prems(2) f by (auto simp: wf_obj_def map_of_eq_None_iff)
  have ok: "sidebar_ok ?sb"
    using Cons.prems(1) update_panel_ok by (blast intro: sidebar_ok_put)
  have other: "ty \<noteq> t \<Longrightarrow> update_panel tr sz ty st ?sb = update_panel tr sz ty st sb" for ty st
    by (simp add: update_panel_def lookup_put)
  note ih = Cons.IH[OF ok wf(1)]
  have "map_of (for_in (\<lambda>ty states sb. put ty (update_panel tr sz ty states sb) sb) (f # filters) sb) ty
        = (case map_of (f # filters) ty of None \<Rightarrow> map_of sb ty | Some states \<Rightarrow> Some (update_panel tr sz ty states sb))" for ty
    using ih wf(2) other[of ty]
    by (cases "ty = t"; cases "map_of filters ty") (simp_all add: f lookup_put)
  then show ?case using ih f by simp
qed simp

lemma sidebar_update_result:
  assumes "sidebar_ok sb" and "wf_obj filters"
  shows "sidebar_ok (sidebar_update tr sz filters sb)
    \<and> (\<forall>ty. has_key (sidebar_update tr sz filters sb) ty \<longleftrightarrow> has_key filters ty)
    \<and> (\<forall>ty states. map_of filters ty = Some states \<longrightarrow>
        (\<exists>p. map_of (sidebar_update tr sz filters sb) ty = Some p
          \<and> (\<forall>j. has_key (fp_rows p) j \<longleftrightarrow> has_key (shown_states sz states) j)
          \<and> (\<forall>p0 i. map_of sb ty = Some p0 \<longrightarrow> fp_sel p0 = Some i \<longrightarrow> has_key (shown_states sz states) i
               \<longrightarrow> fp_sel p = Some i)))"
proof -
  let ?sb1 = "for_in (\<lambda>ty states sb. put ty (update_panel tr sz ty states sb) sb) filters sb"
  have ok1: "sidebar_ok ?sb1" and l1: "\<And>ty. map_of ?sb1 ty
      = (case map_of filters ty of None \<Rightarrow> map_of sb ty | Some states \<Rightarrow> Some (update_panel tr sz ty states sb))"
    using for_in_panels[OF assms] by auto
  have u: "sidebar_update tr sz filters sb = rows.prune (has_key filters) ?sb1"
    by (simp add: sidebar_update_unfold Let_def)
  have wf1: "wf_obj ?sb1" using ok1 by (simp add: sidebar_ok_def)
  have l: "map_of (sidebar_update tr sz filters sb) ty
      = (case map_of filters ty of None \<Rightarrow> None | Some states \<Rightarrow> Some (update_panel tr sz ty states sb))" for ty
    unfolding u using l1 by (simp add: rows.lookup_prune[OF wf1] has_key_def split: option.splits)
  have wf: "wf_obj (sidebar_update tr sz filters sb)"
    unfolding u by (rule rows.invar_prune[OF wf1])
  have "panel_ok p \<and> fp_type p = ty" if "(ty, p) \<in> set (sidebar_update tr sz filters sb)" for ty p
  proof -
    have "map_of (sidebar_update tr sz filters sb) ty = Some p"
      using that wf by (simp add: wf_obj_def)
    then show ?thesis using l[of ty] update_panel_ok[OF assms(1)] by (auto split: option.splits)
  qed
  then have ok: "sidebar_ok (sidebar_update tr sz filters sb)"
    using wf by (auto simp: sidebar_ok_def)
  have panel: "has_key (fp_rows (update_panel tr sz ty states sb)) j \<longleftrightarrow> has_key (shown_states sz states) j"
    "map_of sb ty = Some p0 \<Longrightarrow> fp_sel p0 = Some i \<Longrightarrow> has_key (shown_states sz states) i
      \<Longrightarrow> fp_sel (update_panel tr sz ty states sb) = Some i" for ty states j p0 i
  proof -
    let ?p = "case map_of sb ty of Some p \<Rightarrow> p | None \<Rightarrow> panel_new tr ty"
    have "panel_ok ?p" using sidebar_ok_lookup[OF assms(1), of ty] by (auto split: option.splits)
    note spec = panel_update_spec[OF this refl, where tr = tr and sz = sz and states = states]
    show "has_key (fp_rows (update_panel tr sz ty states sb)) j \<longleftrightarrow> has_key (shown_states sz states) j"
      using spec(2) by (simp add: update_panel_def)
    show "fp_sel (update_panel tr sz ty states sb) = Some i"
      if "map_of sb ty = Some p0" "fp_sel p0 = Some i" "has_key (shown_states sz states) i"
      using spec(5) that by (simp add: update_panel_def)
  qed
  show ?thesis
    using ok l panel by (auto simp: has_key_def split: option.splits)
qed

section \<open>Properties\<close>


text \<open>With one filter at a time the filter of the open panel is always sent, with the value
  undefined when All or nothing is selected: the test that is to leave it out never holds.\<close>

theorem sidebar_single_filter_sent:
  assumes "map_of sb ty = Some p"
  shows "sidebar_get_filter_states False (Some ty) sb = [(fp_type p, panel_get_state p)]"
  using assms by (simp add: sidebar_get_filter_states_def loose_eq_def Let_def)

text \<open>With several filters at once exactly the panels with a selection other than All are sent,
  each under its own type with the selected state.\<close>

theorem sidebar_multiple_filters:
  assumes "sidebar_ok sb"
  shows "oget (sidebar_get_filter_states True active sb) ty
    = (case map_of sb ty of None \<Rightarrow> Undef | Some p \<Rightarrow> panel_get_state p)"
proof -
  let ?f = "\<lambda>(ty, p) states. let st = panel_get_state p in if nullish st then states else put (fp_type p) st states"
  have "sidebar_ok sb \<Longrightarrow> oget (each_do ?f sb acc) ty
      = (case map_of sb ty of None \<Rightarrow> oget acc ty
         | Some p \<Rightarrow> if nullish (panel_get_state p) then oget acc ty else panel_get_state p)" for acc
  proof (induction sb arbitrary: acc)
    case (Cons x sb)
    obtain t p where x: "x = (t, p)" by (cases x)
    have "sidebar_ok sb" "fp_type p = t" "map_of sb t = None"
      using Cons.prems x by (auto simp: sidebar_ok_def wf_obj_def map_of_eq_None_iff)
    then show ?case
      using Cons.IH by (simp add: x Let_def split: option.splits)
  qed simp
  from this[OF assms, of "[]"] show ?thesis
    by (auto simp: sidebar_get_filter_states_def panel_get_state_def split: option.splits)
qed

definition sample_filters :: "(string \<times> (string \<times> jsval) list) list" where
  "sample_filters = [(''state'', [(''All'', JInt 2), (''Seeding'', JInt 2), (''Paused'', JInt 0)]),
     (''tracker_host'', [(''All'', JInt 2), (''t.org'', JInt 1)])]"


theorem sidebar_single_filter_sent_witness:
  "sidebar_get_filter_states False (Some ''owner'') [(''owner'', panel_new id ''owner'')] = [(''owner'', Undef)]"
  by (subst sidebar_single_filter_sent[where p = "panel_new id ''owner''"])
    (simp_all add: panel_new_def panel_get_state_def)

theorem sidebar_multiple_filters_witness:
  "oget (sidebar_get_filter_states True None [(''state'', (panel_new id ''state'')\<lparr> fp_sel := Some ''Paused'',
      fp_rows := [(''Paused'', ''Paused'', JInt 1)] \<rparr>)]) ''state'' = Str ''Paused''"
  by (subst sidebar_multiple_filters)
    (simp_all add: sidebar_ok_def wf_obj_def panel_ok_def panel_new_def panel_get_state_def has_key_def)

end
