(* ===== verification/Timers.thy ===== *)
theory Timers
  imports Prelude
begin

text \<open>
  The timers of the browser: \<open>setTimeout\<close> arms a timer and returns a number that is
  never zero and never used again, \<open>clearTimeout\<close> disarms it, and an armed timer may
  go off, after which it is no longer armed. The locale states what the pollers rely
  on; it is interpreted on a list of armed timers.
\<close>

locale timer_service =
  fixes set_timer :: "'a \<Rightarrow> 't \<Rightarrow> nat \<times> 't"
    and clear_timer :: "nat \<Rightarrow> 't \<Rightarrow> 't"
    and armed :: "'t \<Rightarrow> (nat \<times> 'a) list"
    and invar :: "'t \<Rightarrow> bool"
  assumes invar_set: "invar t \<Longrightarrow> invar (snd (set_timer a t))"
    and invar_clear: "invar t \<Longrightarrow> invar (clear_timer i t)"
    and armed_set: "invar t \<Longrightarrow> armed (snd (set_timer a t)) = armed t @ [(fst (set_timer a t), a)]"
    and set_fresh: "invar t \<Longrightarrow> fst (set_timer a t) \<notin> fst ` set (armed t)"
    and armed_clear: "armed (clear_timer i t) = List.filter (\<lambda>(j, a). j \<noteq> i) (armed t)"
begin

text \<open>A poller that clears its old timer before it arms a new one.\<close>

definition rearm :: "nat option \<Rightarrow> 'a \<Rightarrow> 't \<Rightarrow> nat \<times> 't" where
  "rearm old a t = set_timer a (case old of None \<Rightarrow> t | Some i \<Rightarrow> clear_timer i t)"

lemma rearm_armed:
  assumes "invar t"
  shows "armed (snd (rearm old a t)) = (case old of None \<Rightarrow> armed t
      | Some i \<Rightarrow> List.filter (\<lambda>(j, a). j \<noteq> i) (armed t)) @ [(fst (rearm old a t), a)]"
  using assms by (auto simp: rearm_def armed_set armed_clear invar_clear split: option.splits)

text \<open>If it owns every timer that is armed, it owns exactly the new one afterwards.\<close>

lemma rearm_single:
  assumes "invar t" and "\<forall>(j, b) \<in> set (armed t). old = Some j"
  shows "armed (snd (rearm old a t)) = [(fst (rearm old a t), a)]"
proof (cases old)
  case None
  then have "armed t = []" using assms(2) by (cases "armed t") auto
  then show ?thesis using None rearm_armed[OF assms(1), of old a] by simp
next
  case (Some i)
  then have "List.filter (\<lambda>(j, a). j \<noteq> i) (armed t) = []"
    using assms(2) by (auto simp: filter_empty_conv)
  then show ?thesis using Some rearm_armed[OF assms(1), of old a] by simp
qed

end

record 'a timers =
  tm_next :: nat
  tm_armed :: "(nat \<times> 'a) list"

definition timers_new :: "'a timers" where
  "timers_new = \<lparr> tm_next = 1, tm_armed = [] \<rparr>"

definition set_timeout :: "'a \<Rightarrow> 'a timers \<Rightarrow> nat \<times> 'a timers" where
  "set_timeout a t = (tm_next t, t\<lparr> tm_next := tm_next t + 1, tm_armed := tm_armed t @ [(tm_next t, a)] \<rparr>)"

definition clear_timeout :: "nat \<Rightarrow> 'a timers \<Rightarrow> 'a timers" where
  "clear_timeout i t = t\<lparr> tm_armed := List.filter (\<lambda>(j, a). j \<noteq> i) (tm_armed t) \<rparr>"

definition timers_ok :: "'a timers \<Rightarrow> bool" where
  "timers_ok t = (0 < tm_next t \<and> distinct (List.map fst (tm_armed t))
     \<and> (\<forall>(i, a) \<in> set (tm_armed t). 0 < i \<and> i < tm_next t))"

lemma timers_ok_new [simp]: "timers_ok timers_new"
  by (simp add: timers_ok_def timers_new_def)

lemma timers_ok_set: "timers_ok t \<Longrightarrow> timers_ok (snd (set_timeout a t))"
  by (auto simp: timers_ok_def set_timeout_def)

lemma distinct_map_filterI: "distinct (List.map f xs) \<Longrightarrow> distinct (List.map f (List.filter P xs))"
  by (induction xs) auto

lemma timers_ok_clear: "timers_ok t \<Longrightarrow> timers_ok (clear_timeout i t)"
  by (auto simp: timers_ok_def clear_timeout_def distinct_map_filterI)

interpretation tm: timer_service set_timeout clear_timeout tm_armed timers_ok
  by unfold_locales
    (simp_all add: timers_ok_set timers_ok_clear, auto simp: timers_ok_def set_timeout_def clear_timeout_def)

end
