(* ===== verification/Poll.thy ===== *)
theory Poll
  imports TorrentGrid Sidebar Timers
begin

text \<open>
  The controller of the interface (UI.js): the poll of the daemon every two seconds,
  what a reply changes, the loss and the check of the connection, and the plugins that
  come and go. Requests, timers and user actions are the steps of a state machine; the
  request sent, messages and calls into other components are its trace.
\<close>

section \<open>State\<close>

datatype ui_action = UpdateTimer | CheckTimer

datatype ui_effect =
    ReqUpdateUi "jsval obj"
  | ReqConnected
  | DetailsUpdate
  | LostConnectionMessage
  | StatusText string
  | ShowConnectionManager
  | StatusbarUpdate
  | SetTitle string
  | ReqGetPlugins
  | ReqPluginResources string
  | LoadScript string string
  | EnablePlugin string
  | DisablePlugin string
  | Raise js_error

text \<open>The configuration of the page (\<open>deluge.config\<close>) and the translation function.\<close>

record ui_cfg =
  cfg_multiple_filters :: bool
  cfg_show_zero :: bool
  cfg_session_speed :: bool
  cfg_tr :: "string \<Rightarrow> string"
  cfg_title :: string

text \<open>\<open>ui_polls\<close> and \<open>ui_checks\<close> count the outstanding requests \<open>web.update_ui\<close> and \<open>web.connected\<close>;
  \<open>ui_active\<close> is the open panel of the sidebar.\<close>

record ui =
  ui_timers :: "ui_action timers"
  ui_running :: "nat option"
  ui_checking :: "nat option"
  ui_error_count :: int
  ui_filters :: "jsval obj option"
  ui_old_filters :: "jsval obj option"
  ui_polls :: nat
  ui_checks :: nat
  ui_grid :: grid
  ui_sidebar :: sidebar
  ui_active :: "string option"
  ui_plugins :: "string list"
  ui_registered :: "string list"
  ui_trace :: "ui_effect list"

definition ui_new :: ui where
  "ui_new = \<lparr> ui_timers = timers_new, ui_running = None, ui_checking = None, ui_error_count = 0,
     ui_filters = None, ui_old_filters = None, ui_polls = 0, ui_checks = 0, ui_grid = grid_new,
     ui_sidebar = [], ui_active = None, ui_plugins = [], ui_registered = [], ui_trace = [] \<rparr>"

record reply_data =
  rd_connected :: bool
  rd_torrents :: "(string \<times> jsval obj) list"
  rd_download_rate :: jsval
  rd_upload_rate :: jsval
  rd_filters :: "(string \<times> (string \<times> jsval) list) list"

definition ui_emit :: "ui_effect \<Rightarrow> ui \<Rightarrow> ui" where
  "ui_emit e s = s\<lparr> ui_trace := ui_trace s @ [e] \<rparr>"

section \<open>Operations\<close>

text \<open>\<open>x = setTimeout(f, 2000)\<close> and \<open>if (x) clearTimeout(x)\<close>.\<close>

definition ui_arm_running :: "ui \<Rightarrow> ui" where
  "ui_arm_running s = (case set_timeout UpdateTimer (ui_timers s) of (i, t) \<Rightarrow>
     s\<lparr> ui_running := Some i, ui_timers := t \<rparr>)"

definition ui_arm_checking :: "ui \<Rightarrow> ui" where
  "ui_arm_checking s = (case set_timeout CheckTimer (ui_timers s) of (i, t) \<Rightarrow>
     s\<lparr> ui_checking := Some i, ui_timers := t \<rparr>)"

definition ui_clear :: "nat option \<Rightarrow> ui \<Rightarrow> ui" where
  "ui_clear x s = (case x of None \<Rightarrow> s | Some i \<Rightarrow> s\<lparr> ui_timers := clear_timeout i (ui_timers s) \<rparr>)"

definition ui_clear_running :: "ui \<Rightarrow> ui" where
  "ui_clear_running s = (ui_clear (ui_running s) s)\<lparr> ui_running := None \<rparr>"

definition ui_check_connection :: "ui \<Rightarrow> ui" where
  "ui_check_connection s = (ui_emit ReqConnected s)\<lparr> ui_checks := ui_checks s + 1 \<rparr>"

definition ui_update_with :: "ui_cfg \<Rightarrow> sidebar \<Rightarrow> ui \<Rightarrow> ui" where
  "ui_update_with cfg sb s =
     (let filters = sidebar_get_filter_states (cfg_multiple_filters cfg) (ui_active s) sb;
          s = s\<lparr> ui_old_filters := ui_filters s, ui_filters := Some filters \<rparr>
      in ui_emit DetailsUpdate ((ui_emit (ReqUpdateUi filters) s)\<lparr> ui_polls := ui_polls s + 1 \<rparr>))"

definition ui_update :: "ui_cfg \<Rightarrow> ui \<Rightarrow> ui" where
  "ui_update cfg s = ui_update_with cfg (ui_sidebar s) s"

definition ui_stop :: "ui \<Rightarrow> ui" where
  "ui_stop s = (if ui_running s \<noteq> None
     then (ui_clear_running s)\<lparr> ui_grid := grid_clear_store (ui_grid s) \<rparr> else s)"

definition ui_on_disconnect :: "ui \<Rightarrow> ui" where
  "ui_on_disconnect s = ui_stop s"

text \<open>The event \<open>disconnect\<close>: the grid, the sidebar and then the controller listen to it.\<close>

definition ui_fire_disconnect :: "ui \<Rightarrow> ui" where
  "ui_fire_disconnect s = ui_on_disconnect (s\<lparr> ui_grid := grid_on_disconnect (ui_grid s),
     ui_sidebar := sidebar_on_disconnect (ui_sidebar s) \<rparr>)"

definition ui_on_connection_error :: "ui \<Rightarrow> ui" where
  "ui_on_connection_error s = ui_arm_checking (ui_clear (ui_checking s) s)"

definition ui_on_connection_success :: "ui_cfg \<Rightarrow> bool \<Rightarrow> ui \<Rightarrow> ui" where
  "ui_on_connection_success cfg result s =
     (let s = (ui_clear (ui_checking s) s)\<lparr> ui_checking := None \<rparr>;
          s = ui_update cfg (ui_arm_running s);
          s = ui_emit (StatusText ''Connection restored'') s
      in if \<not> result then ui_emit ShowConnectionManager s else s)"

definition ui_on_update_error :: "ui \<Rightarrow> ui" where
  "ui_on_update_error s =
     (let s = (if ui_error_count s = 2 then
          ui_arm_checking (ui_emit (StatusText ''Lost connection to webserver'')
            (ui_fire_disconnect (ui_emit LostConnectionMessage s)))
        else s)
      in ui_clear_running (s\<lparr> ui_error_count := ui_error_count s + 1 \<rparr>))"

definition session_title :: "ui_cfg \<Rightarrow> reply_data \<Rightarrow> string" where
  "session_title cfg d = ''D: '' @ fmt_size_short (rd_download_rate d) True @ '' U: ''
     @ fmt_size_short (rd_upload_rate d) True @ '' - '' @ cfg_title cfg"

definition ui_on_update :: "ui_cfg \<Rightarrow> reply_data \<Rightarrow> ui \<Rightarrow> ui" where
  "ui_on_update cfg d s0 =
     (let s = ui_clear_running s0 in
      if \<not> rd_connected d then ui_emit ShowConnectionManager (ui_fire_disconnect s)
      else
        let s = ui_arm_running s;
            s = (if cfg_session_speed cfg then ui_emit (SetTitle (session_title cfg d)) s else s)
        in (case grid_update (rd_torrents d) (\<not> are_objects_equal (ui_filters s) (ui_old_filters s)) (ui_grid s) of
            Inl e \<Rightarrow> ui_emit (Raise e) s
          | Inr g \<Rightarrow>
              let s = ui_emit StatusbarUpdate (s\<lparr> ui_grid := g \<rparr>);
                  snaps = sidebar_snapshots (cfg_tr cfg) (cfg_show_zero cfg) (rd_filters d) (ui_sidebar s);
                  s = each_do (ui_update_with cfg) snaps s;
                  s = s\<lparr> ui_sidebar := sidebar_update (cfg_tr cfg) (cfg_show_zero cfg) (rd_filters d) (ui_sidebar s) \<rparr>
              in s\<lparr> ui_error_count := 0 \<rparr>))"

definition ui_on_connect :: "ui_cfg \<Rightarrow> ui \<Rightarrow> ui" where
  "ui_on_connect cfg s = ui_emit ReqGetPlugins
     (if ui_running s = None then ui_update cfg (ui_arm_running s) else s)"

subsection \<open>Plugins\<close>

text \<open>A plugin is known under the name it registers; \<open>ui_plugins\<close> are the instances, \<open>ui_registered\<close> the
  classes in the plugin store.\<close>

definition ui_on_got_plugins :: "string list \<Rightarrow> ui \<Rightarrow> ui" where
  "ui_on_got_plugins enabled s = each_do
     (\<lambda>p s. if p \<in> set (ui_plugins s) then s else ui_emit (ReqPluginResources p) s) enabled s"

definition ui_on_plugin_enabled :: "string \<Rightarrow> ui \<Rightarrow> ui" where
  "ui_on_plugin_enabled p s =
     (if p \<in> set (ui_plugins s) then ui_emit (EnablePlugin p) s else ui_emit (ReqPluginResources p) s)"

definition ui_on_got_plugin_resources :: "bool \<Rightarrow> string \<Rightarrow> string list \<Rightarrow> string list \<Rightarrow> ui \<Rightarrow> ui" where
  "ui_on_got_plugin_resources debug name scripts debug_scripts s =
     each_do (\<lambda>sc. ui_emit (LoadScript sc name)) (if debug then debug_scripts else scripts) s"

definition ui_on_plugin_disabled :: "string \<Rightarrow> ui \<Rightarrow> ui" where
  "ui_on_plugin_disabled p s = (if p \<in> set (ui_plugins s) then ui_emit (DisablePlugin p) s else s)"

definition register_plugin :: "string \<Rightarrow> ui \<Rightarrow> ui" where
  "register_plugin p s = s\<lparr> ui_registered := (if p \<in> set (ui_registered s) then ui_registered s
     else ui_registered s @ [p]) \<rparr>"

definition has_plugin :: "string \<Rightarrow> ui \<Rightarrow> bool" where
  "has_plugin p s = (p \<in> set (ui_registered s))"

definition create_and_enable :: "string \<Rightarrow> ui \<Rightarrow> ui" where
  "create_and_enable p s = (ui_emit (EnablePlugin p) s)\<lparr> ui_plugins :=
     (if p \<in> set (ui_plugins s) then ui_plugins s else ui_plugins s @ [p]) \<rparr>"

definition ui_on_plugin_loaded :: "string \<Rightarrow> ui \<Rightarrow> ui" where
  "ui_on_plugin_loaded p s = (if \<not> has_plugin p s then s else create_and_enable p s)"

text \<open>What \<open>initialize\<close> does for the plugins the page was delivered with.\<close>

definition ui_initialize :: "ui \<Rightarrow> ui" where
  "ui_initialize s = each_do create_and_enable (ui_registered s) s"

section \<open>The state machine\<close>

text \<open>A timer that goes off is no longer armed; the variable that holds it keeps its number.\<close>

definition ui_fire_timer :: "ui_cfg \<Rightarrow> nat \<times> ui_action \<Rightarrow> ui \<Rightarrow> ui" where
  "ui_fire_timer cfg ta s = (let s = s\<lparr> ui_timers := clear_timeout (fst ta) (ui_timers s) \<rparr> in
     case snd ta of UpdateTimer \<Rightarrow> ui_update cfg s | CheckTimer \<Rightarrow> ui_check_connection s)"

definition ui_reply_ok :: "ui_cfg \<Rightarrow> reply_data \<Rightarrow> ui \<Rightarrow> ui" where
  "ui_reply_ok cfg d s = ui_on_update cfg d (s\<lparr> ui_polls := ui_polls s - 1 \<rparr>)"

definition ui_reply_error :: "ui \<Rightarrow> ui" where
  "ui_reply_error s = ui_on_update_error (s\<lparr> ui_polls := ui_polls s - 1 \<rparr>)"

text \<open>The steps while the daemon answers: timers, replies of a connected daemon, a selection in the
  sidebar, the event \<open>connect\<close>.\<close>

inductive ui_good_step :: "ui_cfg \<Rightarrow> ui \<Rightarrow> ui \<Rightarrow> bool" for cfg where
  good_timer: "ta \<in> set (tm_armed (ui_timers s)) \<Longrightarrow> ui_good_step cfg s (ui_fire_timer cfg ta s)"
| good_reply: "0 < ui_polls s \<Longrightarrow> rd_connected d \<Longrightarrow> wf_obj (rd_torrents d) \<Longrightarrow> wf_obj (rd_filters d) \<Longrightarrow>
    ui_good_step cfg s (ui_reply_ok cfg d s)"
| good_select: "ui_good_step cfg s (ui_update cfg s)"
| good_connect: "ui_good_step cfg s (ui_on_connect cfg s)"
| good_removed: "ui_good_step cfg s (s\<lparr> ui_grid := grid_on_torrents_removed ids (ui_grid s) \<rparr>)"

inductive ui_connected_run :: "ui_cfg \<Rightarrow> ui \<Rightarrow> bool" for cfg where
  run_connect: "ui_connected_run cfg (ui_on_connect cfg ui_new)"
| run_step: "ui_connected_run cfg s \<Longrightarrow> ui_good_step cfg s t \<Longrightarrow> ui_connected_run cfg t"

inductive_cases ui_good_stepE: "ui_good_step cfg s t"

definition polling :: "ui \<Rightarrow> bool" where
  "polling s = (0 < ui_polls s \<or> (\<exists>i. (i, UpdateTimer) \<in> set (tm_armed (ui_timers s))))"

section \<open>Lemmas\<close>

lemma ui_emit_state [simp]:
  "ui_timers (ui_emit e s) = ui_timers s" "ui_running (ui_emit e s) = ui_running s"
  "ui_checking (ui_emit e s) = ui_checking s" "ui_error_count (ui_emit e s) = ui_error_count s"
  "ui_polls (ui_emit e s) = ui_polls s" "ui_grid (ui_emit e s) = ui_grid s"
  "ui_sidebar (ui_emit e s) = ui_sidebar s" "ui_filters (ui_emit e s) = ui_filters s"
  "ui_old_filters (ui_emit e s) = ui_old_filters s" "ui_plugins (ui_emit e s) = ui_plugins s"
  "ui_registered (ui_emit e s) = ui_registered s" "ui_trace (ui_emit e s) = ui_trace s @ [e]"
  "ui_checks (ui_emit e s) = ui_checks s"
  by (simp_all add: ui_emit_def)

lemma ui_update_with_state [simp]:
  "ui_timers (ui_update_with cfg sb s) = ui_timers s" "ui_running (ui_update_with cfg sb s) = ui_running s"
  "ui_polls (ui_update_with cfg sb s) = ui_polls s + 1" "ui_grid (ui_update_with cfg sb s) = ui_grid s"
  "ui_sidebar (ui_update_with cfg sb s) = ui_sidebar s"
  "ui_error_count (ui_update_with cfg sb s) = ui_error_count s"
  "ui_checking (ui_update_with cfg sb s) = ui_checking s"
  by (simp_all add: ui_update_with_def Let_def)

lemma ui_update_state [simp]:
  "ui_timers (ui_update cfg s) = ui_timers s" "ui_running (ui_update cfg s) = ui_running s"
  "ui_polls (ui_update cfg s) = ui_polls s + 1" "ui_grid (ui_update cfg s) = ui_grid s"
  "ui_sidebar (ui_update cfg s) = ui_sidebar s" "ui_error_count (ui_update cfg s) = ui_error_count s"
  by (simp_all add: ui_update_def)

lemma ui_updates_state [simp]:
  "ui_timers (each_do (ui_update_with cfg) sbs s) = ui_timers s"
  "ui_running (each_do (ui_update_with cfg) sbs s) = ui_running s"
  "ui_polls (each_do (ui_update_with cfg) sbs s) = ui_polls s + length sbs"
  "ui_grid (each_do (ui_update_with cfg) sbs s) = ui_grid s"
  "ui_sidebar (each_do (ui_update_with cfg) sbs s) = ui_sidebar s"
  by (induction sbs arbitrary: s) auto

lemma ui_clear_state [simp]:
  "ui_polls (ui_clear x s) = ui_polls s" "ui_running (ui_clear x s) = ui_running s"
  "ui_grid (ui_clear x s) = ui_grid s" "ui_sidebar (ui_clear x s) = ui_sidebar s"
  "ui_trace (ui_clear x s) = ui_trace s" "ui_error_count (ui_clear x s) = ui_error_count s"
  by (simp_all add: ui_clear_def split: option.splits)

lemma ui_clear_running_state [simp]:
  "ui_polls (ui_clear_running s) = ui_polls s" "ui_running (ui_clear_running s) = None"
  "ui_grid (ui_clear_running s) = ui_grid s" "ui_sidebar (ui_clear_running s) = ui_sidebar s"
  "ui_trace (ui_clear_running s) = ui_trace s" "ui_error_count (ui_clear_running s) = ui_error_count s"
  by (simp_all add: ui_clear_running_def)

lemma ui_arm_running_state [simp]:
  "ui_polls (ui_arm_running s) = ui_polls s" "ui_grid (ui_arm_running s) = ui_grid s"
  "ui_sidebar (ui_arm_running s) = ui_sidebar s" "ui_trace (ui_arm_running s) = ui_trace s"
  "ui_error_count (ui_arm_running s) = ui_error_count s"
  by (simp_all add: ui_arm_running_def split: prod.splits)

text \<open>Ending one poll and arming the timer of the next is the re-arming of the timer service.\<close>

lemma ui_rearm:
  "ui_timers (ui_arm_running (ui_clear_running s)) = snd (tm.rearm (ui_running s) UpdateTimer (ui_timers s))"
  "ui_running (ui_arm_running (ui_clear_running s)) = Some (fst (tm.rearm (ui_running s) UpdateTimer (ui_timers s)))"
  by (auto simp: ui_arm_running_def ui_clear_running_def ui_clear_def tm.rearm_def split: prod.splits option.splits)

lemma ui_update_timers:
  assumes "rd_connected d"
  shows "ui_timers (ui_on_update cfg d s) = snd (tm.rearm (ui_running s) UpdateTimer (ui_timers s))"
    and "ui_running (ui_on_update cfg d s) = Some (fst (tm.rearm (ui_running s) UpdateTimer (ui_timers s)))"
    and "ui_polls s \<le> ui_polls (ui_on_update cfg d s)"
  using assms by (simp_all add: ui_on_update_def Let_def ui_rearm split: sum.splits)

lemma tm_rearm_in: "(fst (tm.rearm old a t), a) \<in> set (tm_armed (snd (tm.rearm old a t)))"
  by (simp add: tm.rearm_def set_timeout_def split: option.splits)

definition ui_ok :: "ui \<Rightarrow> bool" where
  "ui_ok s = (timers_ok (ui_timers s) \<and> grid_ok (ui_grid s) \<and> sidebar_ok (ui_sidebar s))"

lemma timers_ok_rearm: "timers_ok t \<Longrightarrow> timers_ok (snd (tm.rearm old a t))"
  by (auto simp: tm.rearm_def timers_ok_set timers_ok_clear split: option.splits)

text \<open>What a reply of a connected daemon leads to.\<close>

lemma ui_on_update_result:
  assumes "ui_ok s" and "rd_connected d" and "wf_obj (rd_torrents d)" and "wf_obj (rd_filters d)"
  obtains g where "grid_update (rd_torrents d) (\<not> are_objects_equal (ui_filters s) (ui_old_filters s)) (ui_grid s) = Inr g"
    and "grid_ok g" and "ui_grid (ui_on_update cfg d s) = g"
    and "ui_sidebar (ui_on_update cfg d s) = sidebar_update (cfg_tr cfg) (cfg_show_zero cfg) (rd_filters d) (ui_sidebar s)"
    and "ui_error_count (ui_on_update cfg d s) = 0" and "ui_ok (ui_on_update cfg d s)"
proof -
  let ?w = "\<not> are_objects_equal (ui_filters s) (ui_old_filters s)"
  obtain g where g: "grid_update (rd_torrents d) ?w (ui_grid s) = Inr g" "grid_ok g"
    using grid_update_result[of "ui_grid s" "rd_torrents d" ?w] assms(1,3) by (metis ui_ok_def)
  have f: "ui_filters (ui_arm_running (ui_clear_running s)) = ui_filters s"
    "ui_old_filters (ui_arm_running (ui_clear_running s)) = ui_old_filters s"
    by (auto simp: ui_arm_running_def ui_clear_running_def ui_clear_def split: prod.splits option.splits)
  have eqs: "ui_grid (ui_on_update cfg d s) = g" "ui_error_count (ui_on_update cfg d s) = 0"
    "ui_sidebar (ui_on_update cfg d s) = sidebar_update (cfg_tr cfg) (cfg_show_zero cfg) (rd_filters d) (ui_sidebar s)"
    using assms(2) g(1) f by (simp_all add: ui_on_update_def Let_def)
  have "timers_ok (ui_timers (ui_on_update cfg d s))"
    using assms(1) by (simp add: ui_update_timers[OF assms(2)] timers_ok_rearm ui_ok_def)
  moreover have "sidebar_ok (sidebar_update (cfg_tr cfg) (cfg_show_zero cfg) (rd_filters d) (ui_sidebar s))"
    using sidebar_update_result[of "ui_sidebar s" "rd_filters d"] assms(1,4) by (simp add: ui_ok_def)
  ultimately have "ui_ok (ui_on_update cfg d s)" using g(2) eqs by (simp add: ui_ok_def)
  then show ?thesis using that g eqs by blast
qed

lemma ui_arm_running_timers [simp]:
  "timers_ok (ui_timers s) \<Longrightarrow> timers_ok (ui_timers (ui_arm_running s))"
  "\<exists>i. (i, UpdateTimer) \<in> set (tm_armed (ui_timers (ui_arm_running s)))"
  by (auto simp: ui_arm_running_def set_timeout_def timers_ok_def)

lemma ui_ok_good_step:
  assumes "ui_ok s" and "ui_good_step cfg s t"
  shows "ui_ok t"
  using assms(2)
proof (cases rule: ui_good_step.cases)
  case (good_timer ta)
  then show ?thesis using assms(1)
    by (auto simp: ui_ok_def ui_fire_timer_def ui_check_connection_def Let_def timers_ok_clear split: ui_action.splits)
next
  case (good_reply d)
  have "ui_ok (s\<lparr> ui_polls := ui_polls s - 1 \<rparr>)" using assms(1) by (simp add: ui_ok_def)
  from ui_on_update_result[OF this good_reply(3,4,5)] show ?thesis
    using good_reply(1) by (metis ui_reply_ok_def)
next
  case good_select
  then show ?thesis using assms(1) by (simp add: ui_ok_def)
next
  case good_connect
  then show ?thesis using assms(1) by (simp add: ui_ok_def ui_on_connect_def)
next
  case (good_removed ids)
  then show ?thesis using assms(1) by (simp add: ui_ok_def grid_ok_removed)
qed

lemma polling_good_step:
  assumes "ui_ok s" and "polling s" and "ui_good_step cfg s t"
  shows "polling t"
  using assms(3)
proof (cases rule: ui_good_step.cases)
  case (good_timer ta)
  obtain i act where ta: "ta = (i, act)" by (cases ta)
  show ?thesis
  proof (cases act)
    case UpdateTimer
    then show ?thesis using good_timer ta by (simp add: polling_def ui_fire_timer_def Let_def)
  next
    case CheckTimer
    have "distinct (List.map fst (tm_armed (ui_timers s)))"
      using assms(1) by (simp add: ui_ok_def timers_ok_def)
    then have "(j, UpdateTimer) \<in> set (tm_armed (ui_timers s)) \<Longrightarrow> j \<noteq> i" for j
      using good_timer(2) ta CheckTimer by (metis eq_key_imp_eq_value ui_action.distinct(1))
    then show ?thesis using assms(2) good_timer(1) ta CheckTimer
      by (auto simp: polling_def ui_fire_timer_def ui_check_connection_def clear_timeout_def Let_def)
  qed
next
  case (good_reply d)
  then show ?thesis
    using tm_rearm_in[of "ui_running s" UpdateTimer "ui_timers s"]
    by (auto simp: polling_def ui_reply_ok_def ui_update_timers)
next
  case good_select
  then show ?thesis by (simp add: polling_def)
next
  case good_connect
  then show ?thesis using assms(2) by (simp add: polling_def ui_on_connect_def)
next
  case (good_removed ids)
  then show ?thesis using assms(2) by (simp add: polling_def)
qed

lemma ui_ok_new: "ui_ok ui_new"
  by (simp add: ui_ok_def ui_new_def grid_ok_new sidebar_ok_def)

lemma connected_run_ok:
  assumes "ui_connected_run cfg s"
  shows "ui_ok s \<and> polling s"
  using assms
proof (induction rule: ui_connected_run.induct)
  case run_connect
  have "ui_ok (ui_on_connect cfg ui_new)"
    using ui_ok_new by (rule ui_ok_good_step[OF _ good_connect])
  then show ?case by (simp add: polling_def ui_on_connect_def) (simp add: ui_new_def)
next
  case (run_step s t)
  then show ?case using ui_ok_good_step polling_good_step by blast
qed

section \<open>Properties\<close>

text \<open>C5: While the daemon answers the interface never stops polling: in every state reached from the
  event \<open>connect\<close> by timers, replies, selections and further such events a poll is outstanding or a
  timer is armed for the next one.\<close>

theorem poll_alive_while_answered:
  assumes "ui_connected_run cfg s"
  shows "0 < ui_polls s \<or> (\<exists>i. (i, UpdateTimer) \<in> set (tm_armed (ui_timers s)))"
  using connected_run_ok[OF assms] by (simp add: polling_def)


text \<open>C6: A single failed poll ends the polling, silently: from the steady state of one armed timer and
  no outstanding request, when the timer goes off and the request fails for the first time, no timer
  is armed, no request is outstanding, the connection is not checked and no message has been shown;
  the three failures the code waits for cannot come.\<close>

theorem poll_dies_on_first_failure:
  assumes "tm_armed (ui_timers s) = [(i, UpdateTimer)]" and "ui_running s = Some i"
    and "ui_polls s = 0" and "ui_error_count s = 0"
    and t: "t = ui_reply_error (ui_fire_timer cfg (i, UpdateTimer) s)"
  shows "tm_armed (ui_timers t) = [] \<and> ui_polls t = 0 \<and> ui_checks t = ui_checks s \<and> ui_running t = None
    \<and> (\<exists>filters. ui_trace t = ui_trace s @ [ReqUpdateUi filters, DetailsUpdate])"
  using assms(1-4)
  by (simp add: t ui_reply_error_def ui_fire_timer_def ui_on_update_error_def ui_clear_running_def
      ui_clear_def ui_update_def ui_update_with_def clear_timeout_def ui_emit_def Let_def)

text \<open>A plugin with two scripts is created and enabled twice: each script that has loaded after the
  plugin is registered creates a new instance and enables it.\<close>

theorem plugin_scripts_enable_twice:
  assumes "p \<in> set (ui_registered s)"
  shows "ui_trace (ui_on_plugin_loaded p (ui_on_plugin_loaded p s)) = ui_trace s @ [EnablePlugin p, EnablePlugin p]"
  using assms by (simp add: ui_on_plugin_loaded_def has_plugin_def create_and_enable_def ui_emit_def)

text \<open>Only plugins that are not there yet are fetched after a connection, each once.\<close>

theorem plugins_fetched:
  "ui_trace (ui_on_got_plugins enabled s) = ui_trace s
    @ List.map ReqPluginResources (List.filter (\<lambda>p. p \<notin> set (ui_plugins s)) enabled)"
  unfolding ui_on_got_plugins_def
  by (induction enabled arbitrary: s) (auto simp: ui_emit_def)

definition sample_cfg :: ui_cfg where
  "sample_cfg = \<lparr> cfg_multiple_filters = True, cfg_show_zero = True, cfg_session_speed = False,
     cfg_tr = id, cfg_title = ''Deluge'' \<rparr>"

definition sample_data :: reply_data where
  "sample_data = \<lparr> rd_connected = True, rd_torrents = [(''t1'', [(''name'', Str ''x'')])],
     rd_download_rate = JInt 0, rd_upload_rate = JInt 0, rd_filters = [(''state'', [(''All'', JInt 1)])] \<rparr>"

theorem poll_alive_while_answered_witness:
  "0 < ui_polls (ui_on_connect sample_cfg ui_new)
    \<or> (\<exists>i. (i, UpdateTimer) \<in> set (tm_armed (ui_timers (ui_on_connect sample_cfg ui_new))))"
  by (rule poll_alive_while_answered[OF run_connect])


theorem poll_dies_on_first_failure_witness:
  "tm_armed (ui_timers (ui_reply_error (ui_fire_timer sample_cfg (1, UpdateTimer) (ui_arm_running ui_new)))) = []"
proof -
  have "tm_armed (ui_timers (ui_arm_running ui_new)) = [(1, UpdateTimer)]"
    "ui_running (ui_arm_running ui_new) = Some 1" "ui_polls (ui_arm_running ui_new) = 0"
    "ui_error_count (ui_arm_running ui_new) = 0"
    by (simp_all add: ui_arm_running_def ui_new_def set_timeout_def timers_new_def)
  from poll_dies_on_first_failure[OF this refl, of sample_cfg] show ?thesis by blast
qed

theorem plugin_scripts_enable_twice_witness:
  "ui_trace (ui_on_plugin_loaded ''Label'' (ui_on_plugin_loaded ''Label'' (register_plugin ''Label'' ui_new)))
    = [EnablePlugin ''Label'', EnablePlugin ''Label'']"
  by (subst plugin_scripts_enable_twice) (simp_all add: register_plugin_def ui_new_def)

end
