(* ===== verification/Connection.thy ===== *)
theory Connection
  imports Timers JSValue
begin

text \<open>
  The connection manager with its polling of the hosts, the windows that add and edit
  a host, and the login window. Requests, messages and events are the trace; replies
  and clicks are operations. A window that is shown or hidden runs its handler twice,
  once as the template method of the Ext window and once as the listener registered
  for the event. Labels are the texts before translation.
\<close>

section \<open>The connection manager\<close>

datatype conn_effect =
    ReqGetHosts
  | ReqHostStatus string
  | ReqConnected
  | ReqConnect string
  | ReqDisconnect
  | ReqRemoveHost string nat
  | ReqStartDaemon int
  | ReqStopDaemon string
  | ReqReloadMethods
  | ReqSetFirstLogin bool
  | FireEvent string
  | ErrorBox string jsval
  | ConfirmPassword
  | ShowPreferences string
  | ShowAddWindow
  | ShowEditWindow string
  | Throw js_error

text \<open>A row of the list. \<open>h_uid\<close> is the identity of the record, which changes when the hosts are
  loaded again; a status that is not known yet is the empty string.\<close>

record host =
  h_uid :: nat
  h_id :: string
  h_host :: string
  h_port :: int
  h_user :: string
  h_status :: string
  h_version :: string

record conn =
  cm_timers :: "unit timers"
  cm_updating :: "nat option"
  cm_visible :: bool
  cm_hosts :: "host list"
  cm_next_uid :: nat
  cm_sel :: "nat option"
  cm_connect_text :: string
  cm_connect_on :: bool
  cm_stop_text :: string
  cm_stop_on :: bool
  cm_edit_on :: bool
  cm_remove_on :: bool
  cm_once :: nat
  cm_trace :: "conn_effect list"

definition cm_new :: conn where
  "cm_new = \<lparr> cm_timers = timers_new, cm_updating = None, cm_visible = False, cm_hosts = [],
     cm_next_uid = 0, cm_sel = None, cm_connect_text = ''Connect'', cm_connect_on = True,
     cm_stop_text = ''Stop Daemon'', cm_stop_on = False, cm_edit_on = True, cm_remove_on = False,
     cm_once = 0, cm_trace = [] \<rparr>"

definition cm_emit :: "conn_effect \<Rightarrow> conn \<Rightarrow> conn" where
  "cm_emit e c = c\<lparr> cm_trace := cm_trace c @ [e] \<rparr>"

definition cm_selected :: "conn \<Rightarrow> host option" where
  "cm_selected c = (case cm_sel c of None \<Rightarrow> None
     | Some u \<Rightarrow> List.find (\<lambda>h. h_uid h = u) (cm_hosts c))"

text \<open>\<open>x = setTimeout(update, 2000)\<close> and \<open>clearTimeout(x)\<close>.\<close>

definition cm_arm :: "conn \<Rightarrow> conn" where
  "cm_arm c = (case set_timeout () (cm_timers c) of (i, t) \<Rightarrow> c\<lparr> cm_updating := Some i, cm_timers := t \<rparr>)"

definition cm_disarm :: "conn \<Rightarrow> conn" where
  "cm_disarm c = (case cm_updating c of None \<Rightarrow> c
     | Some i \<Rightarrow> c\<lparr> cm_timers := clear_timeout i (cm_timers c) \<rparr>)"

definition cm_load_hosts :: "conn \<Rightarrow> conn" where
  "cm_load_hosts c = cm_emit ReqGetHosts c"

definition cm_on_show :: "conn \<Rightarrow> conn" where
  "cm_on_show c = (let c = cm_load_hosts c in if cm_updating c \<noteq> None then c else cm_arm c)"

definition cm_on_hide :: "conn \<Rightarrow> conn" where
  "cm_on_hide c = (if cm_updating c \<noteq> None then (cm_disarm c)\<lparr> cm_updating := None \<rparr> else c)"

definition cm_show :: "conn \<Rightarrow> conn" where
  "cm_show c = (if cm_visible c then c else cm_on_show (cm_on_show (c\<lparr> cm_visible := True \<rparr>)))"

definition cm_hide :: "conn \<Rightarrow> conn" where
  "cm_hide c = (if cm_visible c then cm_on_hide (cm_on_hide (c\<lparr> cm_visible := False \<rparr>)) else c)"

text \<open>\<open>checkConnected\<close> and the reply to its request.\<close>

definition cm_check_connected :: "conn \<Rightarrow> conn" where
  "cm_check_connected c = cm_emit ReqConnected c"

definition cm_on_connected :: "bool \<Rightarrow> conn \<Rightarrow> conn" where
  "cm_on_connected online c = (if online then cm_emit (FireEvent ''connect'') c else cm_show c)"

definition cm_disconnect :: "bool \<Rightarrow> conn \<Rightarrow> conn" where
  "cm_disconnect shw c = (let c = cm_emit (FireEvent ''disconnect'') c in
     if shw then (if cm_visible c then c else cm_show c) else c)"

definition cm_update :: "conn \<Rightarrow> conn" where
  "cm_update c = each_do (\<lambda>h. cm_emit (ReqHostStatus (h_id h))) (cm_hosts c) (cm_arm c)"

definition cm_update_buttons :: "host \<Rightarrow> conn \<Rightarrow> conn" where
  "cm_update_buttons h c =
     (let st = lower (h_status h);
          c = c\<lparr> cm_connect_on := True \<rparr>;
          c = (if st = ''connected'' then c\<lparr> cm_connect_text := ''Disconnect'' \<rparr>
               else let c = c\<lparr> cm_connect_text := ''Connect'' \<rparr> in
                 if st \<noteq> ''online'' then c\<lparr> cm_connect_on := False \<rparr> else c)
      in if st = ''connected'' \<or> st = ''online'' then c\<lparr> cm_stop_on := True, cm_stop_text := ''Stop Daemon'' \<rparr>
         else if h_host h = ''127.0.0.1'' \<or> h_host h = ''localhost''
           then c\<lparr> cm_stop_on := True, cm_stop_text := ''Start Daemon'' \<rparr>
         else c\<lparr> cm_stop_on := False \<rparr>)"

definition cm_on_selection_changed :: "host option \<Rightarrow> conn \<Rightarrow> conn" where
  "cm_on_selection_changed x c = (case x of
     Some h \<Rightarrow> cm_update_buttons h
       (c\<lparr> cm_edit_on := True, cm_remove_on := True, cm_stop_on := True, cm_stop_text := ''Stop Daemon'' \<rparr>)
   | None \<Rightarrow> c\<lparr> cm_edit_on := False, cm_remove_on := False, cm_stop_on := False \<rparr>)"

text \<open>A click on a row, and the list losing its selection, which is reported when there was one.\<close>

definition cm_select :: "nat \<Rightarrow> conn \<Rightarrow> conn" where
  "cm_select i c = (if i < length (cm_hosts c) then
     let h = cm_hosts c ! i in cm_on_selection_changed (Some h) (c\<lparr> cm_sel := Some (h_uid h) \<rparr>) else c)"

definition cm_deselect :: "conn \<Rightarrow> conn" where
  "cm_deselect c = (if cm_sel c = None then c
     else cm_on_selection_changed None (c\<lparr> cm_sel := None \<rparr>))"

fun cm_rows :: "nat \<Rightarrow> (string \<times> string \<times> int \<times> string) list \<Rightarrow> host list" where
  "cm_rows n [] = []"
| "cm_rows n ((i, h, p, u) # hs) = \<lparr> h_uid = n, h_id = i, h_host = h, h_port = p, h_user = u,
     h_status = [], h_version = [] \<rparr> # cm_rows (n + 1) hs"

definition cm_on_get_hosts :: "(string \<times> string \<times> int \<times> string) list \<Rightarrow> conn \<Rightarrow> conn" where
  "cm_on_get_hosts hosts c =
     (let c = cm_deselect (c\<lparr> cm_hosts := cm_rows (cm_next_uid c) hosts, cm_next_uid := cm_next_uid c + length hosts \<rparr>)
      in each_do (\<lambda>h. cm_emit (ReqHostStatus (fst h))) hosts c)"

text \<open>The reply \<open>[id, status, version]\<close>: a host that is gone makes \<open>record.set\<close> fail.\<close>

definition cm_on_get_host_status :: "string \<Rightarrow> string \<Rightarrow> string \<Rightarrow> conn \<Rightarrow> conn result" where
  "cm_on_get_host_status i st ver c = (case List.find (\<lambda>h. h_id h = i) (cm_hosts c) of
     None \<Rightarrow> Inl TypeError
   | Some r \<Rightarrow>
       let r' = r\<lparr> h_status := st, h_version := ver \<rparr>;
           c = c\<lparr> cm_hosts := List.map (\<lambda>h. if h_uid h = h_uid r then r' else h) (cm_hosts c) \<rparr>
       in Inr (case cm_selected c of None \<Rightarrow> c
         | Some s \<Rightarrow> if h_uid s = h_uid r then cm_update_buttons r' c else c))"

definition cm_on_update :: "string \<Rightarrow> string \<Rightarrow> string \<Rightarrow> conn \<Rightarrow> conn" where
  "cm_on_update i st ver c =
     (if \<not> cm_visible c then c
      else (case cm_on_get_host_status i st ver c of
        Inl e \<Rightarrow> cm_emit (Throw e) c
      | Inr c \<Rightarrow> cm_arm (cm_disarm c)))"

definition cm_on_first_status :: "string \<Rightarrow> string \<Rightarrow> string \<Rightarrow> conn \<Rightarrow> conn" where
  "cm_on_first_status i st ver c = (case cm_on_get_host_status i st ver c of
     Inl e \<Rightarrow> cm_emit (Throw e) c | Inr c \<Rightarrow> c)"

definition cm_on_add_click :: "conn \<Rightarrow> conn" where
  "cm_on_add_click c = cm_emit ShowAddWindow c"

definition cm_on_edit_click :: "conn \<Rightarrow> conn" where
  "cm_on_edit_click c = (case cm_selected c of None \<Rightarrow> c | Some h \<Rightarrow> cm_emit (ShowEditWindow (h_id h)) c)"

definition cm_on_host_change :: "conn \<Rightarrow> conn" where
  "cm_on_host_change c = cm_load_hosts c"

definition cm_on_close :: "conn \<Rightarrow> conn" where
  "cm_on_close c = cm_hide c"

text \<open>\<open>Store.find\<close> matches the beginning of the value, without regard to case.\<close>

definition any_connected :: "host list \<Rightarrow> bool" where
  "any_connected hs = list_ex (\<lambda>h. take 9 (lower (h_status h)) = ''connected'') hs"

definition cm_on_connect :: "conn \<Rightarrow> conn" where
  "cm_on_connect c = (case cm_selected c of None \<Rightarrow> c
     | Some h \<Rightarrow>
         if lower (h_status h) = ''connected'' then cm_emit ReqDisconnect c
         else cm_hide (cm_emit (ReqConnect (h_id h))
           (if any_connected (cm_hosts c) then cm_emit ReqDisconnect c else c)))"

text \<open>The replies to the two requests, and the event \<open>connected\<close> of the client, which runs each
  listener once.\<close>

definition cm_on_disconnect_done :: "conn \<Rightarrow> conn" where
  "cm_on_disconnect_done c = cm_emit (FireEvent ''disconnect'') (cm_update c)"

definition cm_on_connect_done :: "conn \<Rightarrow> conn" where
  "cm_on_connect_done c = (cm_emit ReqReloadMethods c)\<lparr> cm_once := cm_once c + 1 \<rparr>"

definition cm_on_client_connected :: "conn \<Rightarrow> conn" where
  "cm_on_client_connected c =
     each_do (\<lambda>_. cm_emit (FireEvent ''connect'')) (replicate (cm_once c) ()) (c\<lparr> cm_once := 0 \<rparr>)"

definition cm_on_login :: "bool \<Rightarrow> conn \<Rightarrow> conn" where
  "cm_on_login first c = (if first then cm_emit ConfirmPassword c else cm_check_connected c)"

definition cm_on_confirm :: "bool \<Rightarrow> conn \<Rightarrow> conn" where
  "cm_on_confirm yes c = (let c = cm_check_connected c in
     cm_emit (ReqSetFirstLogin False) (if yes then cm_emit (ShowPreferences ''Interface'') c else c))"

definition cm_on_logout :: "conn \<Rightarrow> conn" where
  "cm_on_logout c = (let c = cm_disconnect False c in if cm_visible c then cm_hide c else c)"

definition cm_on_remove_click :: "conn \<Rightarrow> conn" where
  "cm_on_remove_click c = (case cm_selected c of None \<Rightarrow> c
     | Some h \<Rightarrow> cm_emit (ReqRemoveHost (h_id h) (h_uid h)) c)"

text \<open>The reply to the removal of the record \<open>u\<close>. A false result has no element 1.\<close>

definition cm_on_removed :: "bool \<Rightarrow> nat \<Rightarrow> conn \<Rightarrow> conn" where
  "cm_on_removed ok u c =
     (if \<not> ok then cm_emit (ErrorBox ''Error'' Undef) c
      else let c' = c\<lparr> cm_hosts := List.filter (\<lambda>h. h_uid h \<noteq> u) (cm_hosts c) \<rparr> in
        if cm_sel c = Some u then cm_deselect c' else c')"

definition cm_on_stop_click :: "conn \<Rightarrow> conn" where
  "cm_on_stop_click c = (case cm_selected c of None \<Rightarrow> c
     | Some h \<Rightarrow> if h_status h = ''Offline'' then cm_emit (ReqStartDaemon (h_port h)) c
         else cm_emit (ReqStopDaemon (h_id h)) c)"

definition cm_on_stopped :: "bool \<Rightarrow> jsval \<Rightarrow> conn \<Rightarrow> conn" where
  "cm_on_stopped ok msg c = (if ok then c else cm_emit (ErrorBox ''Error'' msg) c)"

text \<open>The timer goes off.\<close>

definition cm_fire :: "nat \<Rightarrow> conn \<Rightarrow> conn" where
  "cm_fire i c = cm_update (c\<lparr> cm_timers := clear_timeout i (cm_timers c) \<rparr>)"

section \<open>The windows for one host\<close>

text \<open>The fields of the two forms: label, name and initial text.\<close>

definition add_connection_fields :: "(string \<times> string \<times> string) list" where
  "add_connection_fields = [(''Host:'', ''host'', []), (''Port:'', ''port'', ''58846''),
     (''Username:'', ''username'', []), (''Password:'', ''password'', [])]"

definition edit_connection_fields :: "(string \<times> string \<times> string) list" where
  "edit_connection_fields = [(''Host:'', ''host'', []), (''Port:'', ''port'', ''58846''),
     (''Username:'', ''username'', []), (''Password:'', ''password'', [])]"

definition form_reset :: "(string \<times> string \<times> string) list \<Rightarrow> string obj" where
  "form_reset fs = List.map snd fs"

definition form_value :: "string obj \<Rightarrow> string \<Rightarrow> string" where
  "form_value f k = (case map_of f k of None \<Rightarrow> [] | Some v \<Rightarrow> v)"

datatype host_request =
    AddHost string jsnum string string
  | EditHost string string jsnum string string

record host_window =
  hw_form :: "string obj"
  hw_host_id :: "string option"
  hw_visible :: bool

definition add_on_add_click :: "host_window \<Rightarrow> host_request" where
  "add_on_add_click w = (let v = form_value (hw_form w) in
     AddHost (v ''host'') (to_num (Str (v ''port''))) (v ''username'') (v ''password''))"

definition add_on_hide :: "host_window \<Rightarrow> host_window" where
  "add_on_hide w = w\<lparr> hw_form := form_reset add_connection_fields \<rparr>"

text \<open>The reply \<open>[ok, message]\<close>: what is shown or fired, and the window is hidden.\<close>

definition hw_hide :: "(host_window \<Rightarrow> host_window) \<Rightarrow> host_window \<Rightarrow> host_window" where
  "hw_hide on_hide w = (if hw_visible w then on_hide (on_hide (w\<lparr> hw_visible := False \<rparr>)) else w)"

definition add_on_added :: "bool \<Rightarrow> string \<Rightarrow> host_window \<Rightarrow> conn_effect \<times> host_window" where
  "add_on_added ok msg w = ((if \<not> ok then ErrorBox ''Error'' (Str (''Unable to add host: '' @ msg))
     else FireEvent ''hostadded''), hw_hide add_on_hide w)"

definition edit_show :: "host \<Rightarrow> host_window \<Rightarrow> host_window" where
  "edit_show h w = w\<lparr> hw_visible := True, hw_host_id := Some (h_id h),
     hw_form := put ''username'' (h_user h) (put ''port'' (int_str (h_port h)) (put ''host'' (h_host h) (hw_form w))) \<rparr>"

definition edit_on_edit_click :: "host_window \<Rightarrow> host_request" where
  "edit_on_edit_click w = (let v = form_value (hw_form w) in
     EditHost (case hw_host_id w of None \<Rightarrow> [] | Some i \<Rightarrow> i) (v ''host'') (to_num (Str (v ''port'')))
       (v ''username'') (v ''password''))"

definition edit_on_hide :: "host_window \<Rightarrow> host_window" where
  "edit_on_hide w = w\<lparr> hw_form := form_reset edit_connection_fields \<rparr>"

definition edit_on_edited :: "bool \<Rightarrow> host_window \<Rightarrow> conn_effect \<times> host_window" where
  "edit_on_edited ok w = ((if \<not> ok then ErrorBox ''Error'' (Str ''Unable to edit host'')
     else FireEvent ''hostedited''), hw_hide edit_on_hide w)"

section \<open>The login window\<close>

datatype login_effect =
    FireLogin
  | FireLogout
  | ReqCheckSession
  | ReqLogin string
  | ReqDeleteSession
  | LoginFailed
  | FocusPassword int
  | ListenErrors

record login =
  lw_first_show :: bool
  lw_visible :: bool
  lw_password :: string
  lw_trace :: "login_effect list"

definition lw_new :: login where
  "lw_new = \<lparr> lw_first_show = True, lw_visible = False, lw_password = [], lw_trace = [] \<rparr>"

definition lw_emit :: "login_effect \<Rightarrow> login \<Rightarrow> login" where
  "lw_emit e w = w\<lparr> lw_trace := lw_trace w @ [e] \<rparr>"

definition lw_on_show :: "login \<Rightarrow> login" where
  "lw_on_show w = lw_emit (FocusPassword 300) w"

definition lw_show :: "bool \<Rightarrow> login \<Rightarrow> login" where
  "lw_show skip_check w =
     (let w = (if lw_first_show w then (lw_emit ListenErrors w)\<lparr> lw_first_show := False \<rparr> else w)
      in if skip_check then
           (if lw_visible w then w else lw_on_show (lw_on_show (w\<lparr> lw_visible := True \<rparr>)))
         else lw_emit ReqCheckSession w)"

text \<open>The reply to \<open>auth.check_session\<close>; \<open>None\<close> is a failure.\<close>

definition lw_on_session :: "bool option \<Rightarrow> login \<Rightarrow> login" where
  "lw_on_session r w = (if r = Some True then lw_emit FireLogin w else lw_show True w)"

definition lw_logout :: "login \<Rightarrow> login" where
  "lw_logout w = lw_emit ReqDeleteSession (lw_emit FireLogout w)"

definition lw_on_logged_out :: "login \<Rightarrow> login" where
  "lw_on_logged_out w = lw_show True w"

definition lw_on_login :: "login \<Rightarrow> login" where
  "lw_on_login w = lw_emit (ReqLogin (lw_password w)) w"

definition lw_on_special_key :: "int \<Rightarrow> login \<Rightarrow> login" where
  "lw_on_special_key key w = (if key = 13 then lw_on_login w else w)"

definition lw_on_login_reply :: "bool \<Rightarrow> login \<Rightarrow> login" where
  "lw_on_login_reply ok w =
     (if ok then (lw_emit FireLogin w)\<lparr> lw_visible := False, lw_password := [] \<rparr>
      else lw_emit LoginFailed w)"

definition lw_on_client_error :: "int \<Rightarrow> login \<Rightarrow> login" where
  "lw_on_client_error code w = (if code = 1 then lw_show True (lw_emit FireLogout w) else w)"

text \<open>The connection manager listens to \<open>login\<close> and \<open>logout\<close>: the events the login window fires in an
  operation run its handlers.\<close>

definition cm_hear :: "bool \<Rightarrow> login_effect \<Rightarrow> conn \<Rightarrow> conn" where
  "cm_hear first_login e c = (case e of FireLogin \<Rightarrow> cm_on_login first_login c
     | FireLogout \<Rightarrow> cm_on_logout c | _ \<Rightarrow> c)"

definition with_login :: "bool \<Rightarrow> (login \<Rightarrow> login) \<Rightarrow> login \<times> conn \<Rightarrow> login \<times> conn" where
  "with_login first_login f s = (let w = f (fst s) in
     (w, each_do (cm_hear first_login) (drop (length (lw_trace (fst s))) (lw_trace w)) (snd s)))"

section \<open>Polling of the hosts\<close>

text \<open>The manager owns every timer that is armed, one at most, and none while it is hidden.\<close>

definition cm_ok :: "conn \<Rightarrow> bool" where
  "cm_ok c = (timers_ok (cm_timers c)
     \<and> tm_armed (cm_timers c) = (case cm_updating c of None \<Rightarrow> [] | Some i \<Rightarrow> [(i, ())])
     \<and> (\<not> cm_visible c \<longrightarrow> cm_updating c = None))"

text \<open>Everything that can happen but the reply to a request to disconnect.\<close>

inductive cm_step :: "conn \<Rightarrow> conn \<Rightarrow> bool" where
  cs_show: "cm_step c (cm_show c)"
| cs_hide: "cm_step c (cm_hide c)"
| cs_hosts: "cm_step c (cm_on_get_hosts hs c)"
| cs_select: "cm_step c (cm_select i c)"
| cs_deselect: "cm_step c (cm_deselect c)"
| cs_first_status: "cm_step c (cm_on_first_status i st v c)"
| cs_status: "cm_step c (cm_on_update i st v c)"
| cs_timer: "(i, ()) \<in> set (tm_armed (cm_timers c)) \<Longrightarrow> cm_step c (cm_fire i c)"
| cs_connect: "cm_step c (cm_on_connect c)"
| cs_connect_done: "cm_step c (cm_on_connect_done c)"
| cs_client: "cm_step c (cm_on_client_connected c)"
| cs_connected: "cm_step c (cm_on_connected r c)"
| cs_login: "cm_step c (cm_on_login first c)"
| cs_confirm: "cm_step c (cm_on_confirm yes c)"
| cs_logout: "cm_step c (cm_on_logout c)"
| cs_disconnect: "cm_step c (cm_disconnect b c)"
| cs_edit: "cm_step c (cm_on_edit_click c)"
| cs_changed: "cm_step c (cm_on_host_change c)"
| cs_remove: "cm_step c (cm_on_remove_click c)"
| cs_removed: "cm_step c (cm_on_removed r u c)"
| cs_stop: "cm_step c (cm_on_stop_click c)"
| cs_stopped: "cm_step c (cm_on_stopped r msg c)"

inductive_cases cm_stepE: "cm_step c d"

inductive cm_run :: "conn \<Rightarrow> bool" where
  cr_new: "cm_run cm_new"
| cr_step: "cm_run c \<Longrightarrow> cm_step c d \<Longrightarrow> cm_run d"

named_theorems poll_simps \<open>operations that leave the polling of the hosts alone\<close>

lemma cm_emit_poll [poll_simps]: "cm_timers (cm_emit e c) = cm_timers c" "cm_updating (cm_emit e c) = cm_updating c"
  "cm_visible (cm_emit e c) = cm_visible c" "cm_hosts (cm_emit e c) = cm_hosts c"
  "cm_trace (cm_emit e c) = cm_trace c @ [e]" "cm_sel (cm_emit e c) = cm_sel c"
  "cm_next_uid (cm_emit e c) = cm_next_uid c"
  by (simp_all add: cm_emit_def)

lemma cm_emits_poll [poll_simps]: "cm_timers (each_do (\<lambda>h. cm_emit (f h)) hs c) = cm_timers c"
  "cm_updating (each_do (\<lambda>h. cm_emit (f h)) hs c) = cm_updating c"
  "cm_visible (each_do (\<lambda>h. cm_emit (f h)) hs c) = cm_visible c"
  "cm_hosts (each_do (\<lambda>h. cm_emit (f h)) hs c) = cm_hosts c"
  "cm_sel (each_do (\<lambda>h. cm_emit (f h)) hs c) = cm_sel c"
  "cm_trace (each_do (\<lambda>h. cm_emit (f h)) hs c) = cm_trace c @ List.map f hs"
  by (induction hs arbitrary: c) (simp_all add: poll_simps)

lemma cm_update_buttons_poll [poll_simps]: "cm_timers (cm_update_buttons h c) = cm_timers c"
  "cm_updating (cm_update_buttons h c) = cm_updating c" "cm_visible (cm_update_buttons h c) = cm_visible c"
  "cm_hosts (cm_update_buttons h c) = cm_hosts c" "cm_sel (cm_update_buttons h c) = cm_sel c"
  "cm_trace (cm_update_buttons h c) = cm_trace c"
  by (simp_all add: cm_update_buttons_def Let_def)

lemma cm_selection_poll [poll_simps]:
  "cm_timers (cm_on_selection_changed x c) = cm_timers c"
  "cm_updating (cm_on_selection_changed x c) = cm_updating c"
  "cm_visible (cm_on_selection_changed x c) = cm_visible c"
  "cm_hosts (cm_on_selection_changed x c) = cm_hosts c"
  "cm_sel (cm_on_selection_changed x c) = cm_sel c"
  by (simp_all add: cm_on_selection_changed_def poll_simps split: option.splits)

lemma cm_deselect_poll [poll_simps]: "cm_timers (cm_deselect c) = cm_timers c"
  "cm_updating (cm_deselect c) = cm_updating c" "cm_visible (cm_deselect c) = cm_visible c"
  "cm_hosts (cm_deselect c) = cm_hosts c" "cm_sel (cm_deselect c) = None"
  by (simp_all add: cm_deselect_def poll_simps)

lemma cm_status_poll:
  assumes "cm_on_get_host_status i st v c = Inr d"
  shows "cm_timers d = cm_timers c" and "cm_updating d = cm_updating c" and "cm_visible d = cm_visible c"
    and "length (cm_hosts d) = length (cm_hosts c)"
  using assms by (auto simp: cm_on_get_host_status_def Let_def poll_simps split: option.splits if_splits)

lemma cm_ok_same: "cm_ok c \<Longrightarrow> cm_timers d = cm_timers c \<Longrightarrow> cm_updating d = cm_updating c \<Longrightarrow>
    cm_visible d = cm_visible c \<Longrightarrow> cm_ok d"
  by (simp add: cm_ok_def)

text \<open>Clearing the timer that is held and arming a new one, in the words of the timer service.\<close>

lemma cm_rearm: "cm_timers (cm_arm (cm_disarm c)) = snd (tm.rearm (cm_updating c) () (cm_timers c))"
  "cm_updating (cm_arm (cm_disarm c)) = Some (fst (tm.rearm (cm_updating c) () (cm_timers c)))"
  "cm_visible (cm_arm (cm_disarm c)) = cm_visible c"
  by (auto simp: cm_arm_def cm_disarm_def tm.rearm_def split: prod.splits option.splits)

lemma cm_ok_rearm: "cm_ok c \<Longrightarrow> cm_visible c \<Longrightarrow> cm_ok (cm_arm (cm_disarm c))"
  using tm.rearm_single[of "cm_timers c" "cm_updating c" "()"]
  by (auto simp: cm_ok_def cm_rearm timers_ok_set timers_ok_clear tm.rearm_def split: option.splits)

lemma cm_arm_state: "cm_timers (cm_arm c) = snd (set_timeout () (cm_timers c))"
  "cm_updating (cm_arm c) = Some (tm_next (cm_timers c))" "cm_visible (cm_arm c) = cm_visible c"
  "cm_hosts (cm_arm c) = cm_hosts c" "cm_trace (cm_arm c) = cm_trace c" "cm_sel (cm_arm c) = cm_sel c"
  by (simp_all add: cm_arm_def set_timeout_def)

lemma cm_ok_show: "cm_ok c \<Longrightarrow> cm_ok (cm_show c)"
  by (auto simp: cm_ok_def cm_show_def cm_on_show_def cm_load_hosts_def cm_arm_state poll_simps
      timers_ok_set set_timeout_def[of "()"] timers_ok_def split: option.splits)

lemma cm_hide_poll:
  assumes "cm_visible c"
  shows "cm_updating (cm_hide c) = None" and "cm_visible (cm_hide c) = False"
    and "cm_timers (cm_hide c) = (case cm_updating c of None \<Rightarrow> cm_timers c
      | Some i \<Rightarrow> clear_timeout i (cm_timers c))"
    and "cm_hosts (cm_hide c) = cm_hosts c" and "cm_trace (cm_hide c) = cm_trace c"
  using assms by (auto simp: cm_hide_def cm_on_hide_def cm_disarm_def split: option.splits)

lemma cm_ok_hide: "cm_ok c \<Longrightarrow> cm_ok (cm_hide c)"
proof (cases "cm_visible c")
  case True
  assume "cm_ok c"
  then show ?thesis
    using cm_hide_poll[OF True] by (auto simp: cm_ok_def timers_ok_clear clear_timeout_def[of _ "cm_timers c"]
      timers_ok_def split: option.splits)
qed (simp add: cm_hide_def)

lemma cm_ok_fire:
  assumes "cm_ok c" and "(i, ()) \<in> set (tm_armed (cm_timers c))"
  shows "cm_ok (cm_fire i c)"
proof -
  have u: "cm_updating c = Some i" using assms by (auto simp: cm_ok_def split: option.splits)
  have "cm_fire i c = each_do (\<lambda>h. cm_emit (ReqHostStatus (h_id h))) (cm_hosts c) (cm_arm (cm_disarm c))"
    using u by (simp add: cm_fire_def cm_update_def cm_disarm_def)
  moreover have "cm_visible c" using assms(1) u by (auto simp: cm_ok_def)
  ultimately show ?thesis
    using cm_ok_same[OF cm_ok_rearm[OF assms(1)]] by (simp add: poll_simps)
qed

lemma cm_ok_status: "cm_ok c \<Longrightarrow> cm_ok (cm_on_update i st v c)"
  by (auto simp: cm_on_update_def poll_simps cm_status_poll intro!: cm_ok_rearm
      intro: cm_ok_same split: sum.splits)

lemma cm_ok_step: "cm_ok c \<Longrightarrow> cm_step c d \<Longrightarrow> cm_ok d"
  by (erule cm_stepE)
    (auto simp: cm_ok_show cm_ok_hide cm_ok_fire cm_ok_status cm_on_get_hosts_def cm_select_def
      cm_on_first_status_def cm_on_connect_def cm_on_connect_done_def cm_on_client_connected_def
      cm_on_connected_def cm_on_login_def cm_on_confirm_def cm_on_logout_def cm_disconnect_def
      cm_on_edit_click_def cm_on_host_change_def cm_load_hosts_def cm_on_remove_click_def
      cm_on_removed_def cm_on_stop_click_def cm_on_stopped_def cm_check_connected_def Let_def
      poll_simps cm_status_poll elim!: cm_ok_same intro!: cm_ok_hide cm_ok_show split: option.splits sum.splits)

lemma cm_ok_new: "cm_ok cm_new"
  by (simp add: cm_ok_def cm_new_def timers_new_def timers_ok_def)

lemma cm_run_ok: "cm_run c \<Longrightarrow> cm_ok c"
  by (induction rule: cm_run.induct) (auto intro: cm_ok_new cm_ok_step)

lemma hosts_polled_by_one_timer_parts:
  assumes "cm_run c"
  shows "tm_armed (cm_timers c) = (case cm_updating c of None \<Rightarrow> [] | Some i \<Rightarrow> [(i, ())])"
    and "\<not> cm_visible c \<longrightarrow> tm_armed (cm_timers c) = []"
  using cm_run_ok[OF assms] by (auto simp: cm_ok_def)

text \<open>C15: As long as no reply to a request to disconnect arrives, the manager polls the hosts with one
  timer: whatever the user does and whatever the daemon answers, at most one timer is armed, it is the
  one the manager holds and can clear, and none is armed while the window is hidden.\<close>

theorem hosts_polled_by_one_timer:
  assumes "cm_run c"
  shows "tm_armed (cm_timers c) = (case cm_updating c of None \<Rightarrow> [] | Some i \<Rightarrow> [(i, ())])
    \<and> (\<not> cm_visible c \<longrightarrow> tm_armed (cm_timers c) = [])"
  by (intro conjI hosts_polled_by_one_timer_parts[OF assms])

theorem hosts_polled_by_one_timer_witness:
  "tm_armed (cm_timers (cm_show cm_new)) = [(1, ())]
    \<and> tm_armed (cm_timers (cm_hide (cm_show cm_new))) = []"
proof -
  have r: "cm_run (cm_show cm_new)" by (rule cr_step[OF cr_new cs_show])
  have u: "cm_updating (cm_show cm_new) = Some 1" by code_simp
  have v: "\<not> cm_visible (cm_hide (cm_show cm_new))" by code_simp
  show ?thesis
    using hosts_polled_by_one_timer[OF r] hosts_polled_by_one_timer[OF cr_step[OF r cs_hide], THEN conjunct2] u v by simp
qed

text \<open>What can still happen to the polling of a window that stays hidden: timers and replies.\<close>

inductive cm_hidden_step :: "conn \<Rightarrow> conn \<Rightarrow> bool" where
  hs_timer: "(i, ()) \<in> set (tm_armed (cm_timers c)) \<Longrightarrow> cm_hidden_step c (cm_fire i c)"
| hs_status: "cm_hidden_step c (cm_on_update i st v c)"
| hs_first: "cm_hidden_step c (cm_on_first_status i st v c)"
| hs_hosts: "cm_hidden_step c (cm_on_get_hosts hs c)"
| hs_done: "cm_hidden_step c (cm_on_disconnect_done c)"
| hs_connect: "cm_hidden_step c (cm_on_connect_done c)"
| hs_client: "cm_hidden_step c (cm_on_client_connected c)"

inductive_cases cm_hidden_stepE: "cm_hidden_step c d"

definition polls_hidden :: "conn \<Rightarrow> bool" where
  "polls_hidden c = (\<not> cm_visible c \<and> tm_armed (cm_timers c) \<noteq> [])"

lemma cm_update_poll: "cm_visible (cm_update c) = cm_visible c"
  "tm_armed (cm_timers (cm_update c)) \<noteq> []"
  by (simp_all add: cm_update_def poll_simps cm_arm_state set_timeout_def)

lemma polls_hidden_step: "polls_hidden c \<Longrightarrow> cm_hidden_step c d \<Longrightarrow> polls_hidden d"
  by (erule cm_hidden_stepE)
    (auto simp: polls_hidden_def cm_fire_def cm_update_poll cm_on_update_def cm_on_first_status_def
      cm_on_get_hosts_def cm_on_disconnect_done_def cm_on_connect_done_def cm_on_client_connected_def
      Let_def poll_simps cm_status_poll split: sum.splits)

lemma switching_hosts_polls_hidden_parts:
  assumes "cm_visible c" and "cm_selected c = Some h" and "lower (h_status h) \<noteq> ''connected''"
    and "any_connected (cm_hosts c)" and "cm_hidden_step\<^sup>*\<^sup>* (cm_on_disconnect_done (cm_on_connect c)) d"
  shows "cm_trace (cm_on_connect c) = cm_trace c @ [ReqDisconnect, ReqConnect (h_id h)]"
    and "\<not> cm_visible d \<and> tm_armed (cm_timers d) \<noteq> []"
proof -
  show "cm_trace (cm_on_connect c) = cm_trace c @ [ReqDisconnect, ReqConnect (h_id h)]"
    using assms(1-4) by (simp add: cm_on_connect_def cm_hide_poll poll_simps)
  have "polls_hidden (cm_on_disconnect_done (cm_on_connect c))"
    using assms(1-4) by (simp add: cm_on_connect_def polls_hidden_def cm_on_disconnect_done_def
        poll_simps cm_update_poll cm_hide_poll)
  with assms(5) have "polls_hidden d"
    by (induction rule: rtranclp_induct) (auto intro: polls_hidden_step)
  then show "\<not> cm_visible d \<and> tm_armed (cm_timers d) \<noteq> []" by (simp add: polls_hidden_def)
qed

text \<open>Switching from a connected host to another one leaves the hidden manager polling for good:
  the click sends the request to disconnect and hides the window; the reply then arms a timer, and from
  there on, whatever the timers and the replies do, some timer is armed while the window is hidden.\<close>

theorem switching_hosts_polls_hidden:
  assumes "cm_visible c" and "cm_selected c = Some h" and "lower (h_status h) \<noteq> ''connected''"
    and "any_connected (cm_hosts c)" and "cm_hidden_step\<^sup>*\<^sup>* (cm_on_disconnect_done (cm_on_connect c)) d"
  shows "cm_trace (cm_on_connect c) = cm_trace c @ [ReqDisconnect, ReqConnect (h_id h)]
    \<and> \<not> cm_visible d \<and> tm_armed (cm_timers d) \<noteq> []"
  by (intro conjI switching_hosts_polls_hidden_parts[OF assms])

definition switch_example :: conn where
  "switch_example = cm_select 1 (cm_on_first_status ''b'' ''Online'' ''2.0''
     (cm_on_first_status ''a'' ''Connected'' ''2.0''
       (cm_on_get_hosts [(''a'', ''localhost'', 58846, ''u''), (''b'', ''example'', 58846, ''u'')] (cm_show cm_new))))"

theorem switching_hosts_polls_hidden_witness:
  "tm_armed (cm_timers (cm_fire 2 (cm_on_disconnect_done (cm_on_connect switch_example)))) \<noteq> []"
proof -
  obtain h where h: "cm_selected switch_example = Some h" "lower (h_status h) \<noteq> ''connected''"
    by (rule that[of "\<lparr> h_uid = 1, h_id = ''b'', h_host = ''example'', h_port = 58846, h_user = ''u'',
      h_status = ''Online'', h_version = ''2.0'' \<rparr>"]) code_simp+
  have v: "cm_visible switch_example" and a: "any_connected (cm_hosts switch_example)" by (code_simp+)
  have "(2, ()) \<in> set (tm_armed (cm_timers (cm_on_disconnect_done (cm_on_connect switch_example))))"
    by code_simp
  then have "cm_hidden_step\<^sup>*\<^sup>* (cm_on_disconnect_done (cm_on_connect switch_example))
      (cm_fire 2 (cm_on_disconnect_done (cm_on_connect switch_example)))"
    by (intro r_into_rtranclp hs_timer)
  from switching_hosts_polls_hidden[OF v h a this] show ?thesis by simp
qed

section \<open>Hosts and buttons\<close>

text \<open>Records of the list have their own identity and the ids of the hosts are different.\<close>

definition hosts_ok :: "conn \<Rightarrow> bool" where
  "hosts_ok c = (distinct (List.map h_uid (cm_hosts c)) \<and> distinct (List.map h_id (cm_hosts c)))"

lemma find_map_of: "List.find (\<lambda>h. f h = x) hs = map_of (List.map (\<lambda>h. (f h, h)) hs) x"
  by (induction hs) auto

lemma find_distinct: "distinct (List.map f hs) \<Longrightarrow> h \<in> set hs \<Longrightarrow> List.find (\<lambda>g. f g = f h) hs = Some h"
  by (induction hs) (auto simp: image_iff)

lemma status_reply_sets_buttons_parts:
  assumes "hosts_ok c" and "h \<in> set (cm_hosts c)" and "cm_sel c = Some (h_uid h)"
    and d_def: "d = cm_on_first_status (h_id h) st v c"
  shows "cm_hosts d = List.map (\<lambda>g. if h_id g = h_id h then g\<lparr> h_status := st, h_version := v \<rparr> else g) (cm_hosts c)"
    and "cm_connect_on d = (lower st = ''connected'' \<or> lower st = ''online'')"
    and "cm_connect_text d = (if lower st = ''connected'' then ''Disconnect'' else ''Connect'')"
    and "cm_stop_on d = (lower st = ''connected'' \<or> lower st = ''online'' \<or> h_host h = ''localhost'' \<or> h_host h = ''127.0.0.1'')"
    and "cm_stop_on d \<longrightarrow> cm_stop_text d = (if lower st = ''connected'' \<or> lower st = ''online''
      then ''Stop Daemon'' else ''Start Daemon'')"
proof -
  have f: "List.find (\<lambda>g. h_id g = h_id h) (cm_hosts c) = Some h"
    using assms(1,2) by (intro find_distinct) (auto simp: hosts_ok_def)
  let ?h = "h\<lparr> h_status := st, h_version := v \<rparr>"
  let ?hs = "List.map (\<lambda>g. if h_uid g = h_uid h then ?h else g) (cm_hosts c)"
  have hs: "?hs = List.map (\<lambda>g. if h_id g = h_id h then g\<lparr> h_status := st, h_version := v \<rparr> else g) (cm_hosts c)"
    using assms(1,2) by (auto simp: hosts_ok_def distinct_map inj_on_def)
  have u: "List.map h_uid ?hs = List.map h_uid (cm_hosts c)" by auto
  have s: "List.find (\<lambda>g. h_uid g = h_uid h) ?hs = Some ?h"
  proof -
    have "distinct (List.map h_uid ?hs)" using assms(1) unfolding u by (simp add: hosts_ok_def)
    moreover have "?h \<in> set ?hs" using assms(2) by (auto simp: image_iff intro!: bexI[of _ h])
    ultimately show ?thesis using find_distinct[of h_uid ?hs ?h] by simp
  qed
  have d: "d = cm_update_buttons ?h (c\<lparr> cm_hosts := ?hs \<rparr>)"
    using s by (simp add: d_def cm_on_first_status_def cm_on_get_host_status_def f Let_def cm_selected_def assms(3))
  show "cm_hosts d = List.map (\<lambda>g. if h_id g = h_id h then g\<lparr> h_status := st, h_version := v \<rparr> else g) (cm_hosts c)"
    by (simp add: d hs poll_simps)
  show "cm_connect_on d = (lower st = ''connected'' \<or> lower st = ''online'')"
    "cm_connect_text d = (if lower st = ''connected'' then ''Disconnect'' else ''Connect'')"
    "cm_stop_on d = (lower st = ''connected'' \<or> lower st = ''online'' \<or> h_host h = ''localhost'' \<or> h_host h = ''127.0.0.1'')"
    "cm_stop_on d \<longrightarrow> cm_stop_text d = (if lower st = ''connected'' \<or> lower st = ''online''
      then ''Stop Daemon'' else ''Start Daemon'')"
    by (auto simp: d cm_update_buttons_def Let_def)
qed

text \<open>The reply with the status of a host changes that host alone, and when the host is selected the
  buttons follow it: Connect or Disconnect by whether it is connected, enabled when it is connected or
  online; the daemon can be stopped when it runs, started when it is down and on this machine.\<close>

theorem status_reply_sets_buttons:
  assumes "hosts_ok c" and "h \<in> set (cm_hosts c)" and "cm_sel c = Some (h_uid h)"
    and d_def: "d = cm_on_first_status (h_id h) st v c"
  shows "cm_hosts d = List.map (\<lambda>g. if h_id g = h_id h then g\<lparr> h_status := st, h_version := v \<rparr> else g) (cm_hosts c)
    \<and> (cm_connect_on d = (lower st = ''connected'' \<or> lower st = ''online''))
    \<and> cm_connect_text d = (if lower st = ''connected'' then ''Disconnect'' else ''Connect'')
    \<and> (cm_stop_on d = (lower st = ''connected'' \<or> lower st = ''online'' \<or> h_host h = ''localhost'' \<or> h_host h = ''127.0.0.1''))
    \<and> (cm_stop_on d \<longrightarrow> cm_stop_text d = (if lower st = ''connected'' \<or> lower st = ''online''
      then ''Stop Daemon'' else ''Start Daemon''))"
  by (intro conjI status_reply_sets_buttons_parts[OF assms])

theorem status_reply_sets_buttons_witness:
  "cm_connect_text (cm_on_first_status ''b'' ''Connected'' ''2.0'' switch_example) = ''Disconnect''"
proof -
  let ?h = "\<lparr> h_uid = 1, h_id = ''b'', h_host = ''example'', h_port = 58846, h_user = ''u'',
      h_status = ''Online'', h_version = ''2.0'' \<rparr>"
  have "hosts_ok switch_example" and "?h \<in> set (cm_hosts switch_example)"
    and "cm_sel switch_example = Some (h_uid ?h)" by (code_simp+)
  moreover have l: "lower ''Connected'' = ''connected''" by code_simp
  ultimately show ?thesis
    using status_reply_sets_buttons[OF _ _ _ refl, of switch_example ?h "''Connected''" "''2.0''"] l by simp
qed

text \<open>A new list of hosts drops the selection and disables what acts on a host.\<close>

lemma cm_rows_hosts: "length (cm_rows n hs) = length hs" "List.map h_id (cm_rows n hs) = List.map fst hs"
  "List.map h_uid (cm_rows n hs) = [n ..< n + length hs]"
  by (induction n hs rule: cm_rows.induct) (simp_all add: upt_conv_Cons del: upt_Suc)

lemma hosts_ok_loaded: "distinct (List.map fst hs) \<Longrightarrow> hosts_ok (cm_on_get_hosts hs c)"
  by (simp add: hosts_ok_def cm_on_get_hosts_def Let_def poll_simps cm_rows_hosts)

section \<open>Windows\<close>

text \<open>The edit window does not know the password of the host: it is shown with an empty password,
  and pressing Edit without typing sends the host, port and user it had and the empty password.\<close>

theorem edit_sends_empty_password:
  assumes "0 \<le> h_port h" and "h_port h < 2 ^ 53"
  shows "edit_on_edit_click (edit_show h (hw_hide edit_on_hide (edit_show g w)))
    = EditHost (h_id h) (h_host h) (num_of_int (h_port h)) (h_user h) []"
  using assms
  by (simp add: edit_on_edit_click_def edit_show_def hw_hide_def edit_on_hide_def form_reset_def Let_def
      edit_connection_fields_def form_value_def lookup_put to_num_def int_str_def str_num_dec_str num_of_int_def)

theorem edit_sends_empty_password_witness:
  "\<exists>h. h_port h = 58846 \<and> edit_on_edit_click (edit_show h (hw_hide edit_on_hide (edit_show h
      \<lparr> hw_form = [], hw_host_id = None, hw_visible = False \<rparr>)))
    = EditHost ''a'' ''box'' (num_of_int 58846) ''me'' []"
  using edit_sends_empty_password[of "\<lparr> h_uid = 0, h_id = ''a'', h_host = ''box'', h_port = 58846,
    h_user = ''me'', h_status = [], h_version = [] \<rparr>"]
  by (intro exI[of _ "\<lparr> h_uid = 0, h_id = ''a'', h_host = ''box'', h_port = 58846,
    h_user = ''me'', h_status = [], h_version = [] \<rparr>"]) simp

lemma lw_error_trace: "lw_trace (lw_on_client_error 1 w) = lw_trace w @ FireLogout #
    (if lw_first_show w then [ListenErrors] else [])
    @ (if lw_visible w then [] else [FocusPassword 300, FocusPassword 300])"
  by (cases "lw_first_show w"; cases "lw_visible w")
    (simp_all add: lw_on_client_error_def lw_show_def Let_def lw_emit_def lw_on_show_def)

lemma lw_show_visible: "lw_visible (lw_show True w)"
  by (cases "lw_first_show w"; cases "lw_visible w")
    (simp_all add: lw_show_def Let_def lw_emit_def lw_on_show_def)

lemma session_end_logs_out_parts:
  assumes "cm_ok c" and "with_login first (lw_on_client_error 1) (w, c) = (w', c')"
  shows "lw_visible w'" and "\<not> cm_visible c'" and "tm_armed (cm_timers c') = []"
    and "cm_trace c' = cm_trace c @ [FireEvent ''disconnect'']"
proof -
  have w: "w' = lw_on_client_error 1 w" using assms(2) by (simp add: with_login_def Let_def)
  then show "lw_visible w'" by (simp add: lw_on_client_error_def lw_show_visible)
  let ?es = "(if lw_first_show w then [ListenErrors] else [])
    @ (if lw_visible w then [] else [FocusPassword 300, FocusPassword 300])"
  have es: "lw_trace w' = lw_trace w @ FireLogout # ?es" unfolding w by (rule lw_error_trace)
  have id: "each_do (cm_hear first) ?es x = x" for x
    by (simp add: cm_hear_def)
  have c: "c' = cm_on_logout c"
    using assms(2) es by (simp add: with_login_def Let_def w[symmetric] cm_hear_def id del: each_do_append)
  have ok: "cm_ok c'" unfolding c by (rule cm_ok_step[OF assms(1) cs_logout])
  show v: "\<not> cm_visible c'"
    by (auto simp: c cm_on_logout_def cm_disconnect_def Let_def cm_hide_poll poll_simps)
  then show "tm_armed (cm_timers c') = []" using ok by (simp add: cm_ok_def)
  show "cm_trace c' = cm_trace c @ [FireEvent ''disconnect'']"
    by (simp add: c cm_on_logout_def cm_disconnect_def Let_def cm_hide_poll poll_simps)
qed

text \<open>When the server answers that the session has ended, the login window is shown, the
  connection manager is hidden and has no timer, and the event \<open>disconnect\<close> is fired.\<close>

theorem session_end_logs_out:
  assumes "cm_ok c" and "with_login first (lw_on_client_error 1) (w, c) = (w', c')"
  shows "lw_visible w'
    \<and> \<not> cm_visible c'
    \<and> tm_armed (cm_timers c') = []
    \<and> cm_trace c' = cm_trace c @ [FireEvent ''disconnect'']"
  by (intro conjI session_end_logs_out_parts[OF assms])

theorem session_end_logs_out_witness:
  "\<not> cm_visible (snd (with_login True (lw_on_client_error 1) (lw_new, cm_show cm_new)))"
  using session_end_logs_out[OF cm_ok_show[OF cm_ok_new], of True lw_new] by (metis prod.collapse)

end
