(* ===== verification/Statusbar.thy ===== *)
theory Statusbar
  imports Formatters
begin

text \<open>
  The status bar: its buttons and their menus of limits, what \<open>update\<close> shows of the
  statistics of a reply, the menus that set a limit and the window for another limit.
  Requests and windows are the trace. Texts are those before translation.
\<close>

section \<open>Formatting\<close>

text \<open>\<open>String.format\<close>: each \<open>{n}\<close> is replaced by argument n.\<close>

function str_format :: "string list \<Rightarrow> string \<Rightarrow> string" where
  "str_format args [] = []"
| "str_format args (c # cs) =
     (let ds = takeWhile is_digit cs; r = dropWhile is_digit cs in
      if c = CHR ''{'' \<and> ds \<noteq> [] \<and> take 1 r = ''}'' then
        (if digits_val ds < int (length args) then args ! nat (digits_val ds) else ''undefined'')
          @ str_format args (drop 1 r)
      else c # str_format args cs)"
  by pat_completeness auto

lemma length_dropWhile_less: "length (drop n (dropWhile P cs)) < Suc (length cs)"
  using length_dropWhile_le[of P cs] by simp

termination str_format
  by (relation "measure (\<lambda>(args, s). length s)") (auto simp: length_dropWhile_less[of 1, simplified])

section \<open>The menus\<close>

record menu_item =
  mi_text :: string
  mi_value :: string
  mi_group :: string
  mi_checked :: bool

datatype menu_entry = Check menu_item | Separator

datatype sb_effect =
    SetConfig string string
  | UpdateUi
  | ShowPage string

record other_window =
  ow_title :: string
  ow_unit :: "string option"
  ow_group :: "string option"
  ow_limit :: string
  ow_visible :: bool

record limit_menu =
  lm_entries :: "menu_entry list"
  lm_value :: jsval
  lm_other :: other_window

definition limit_item :: "string \<Rightarrow> string \<Rightarrow> string \<Rightarrow> menu_entry" where
  "limit_item g v t = Check \<lparr> mi_text = t, mi_value = v, mi_group = g, mi_checked = False \<rparr>"

definition limit_menu_of :: "menu_entry list \<Rightarrow> string \<Rightarrow> string option \<Rightarrow> limit_menu" where
  "limit_menu_of es title unit = \<lparr> lm_entries = es, lm_value = Undef,
     lm_other = \<lparr> ow_title = title, ow_unit = unit, ow_group = None, ow_limit = [], ow_visible = False \<rparr> \<rparr>"

definition connections_menu :: limit_menu where
  "connections_menu = (let it = limit_item ''max_connections_global'' in limit_menu_of
     [it ''50'' ''50'', it ''100'' ''100'', it ''200'' ''200'', it ''300'' ''300'', it ''500'' ''500'',
      it ''-1'' ''Unlimited'', Separator, it ''other'' ''Other'']
     ''Set Maximum Connections'' None)"

definition downspeed_menu :: limit_menu where
  "downspeed_menu = (let it = limit_item ''max_download_speed'' in limit_menu_of
     [it ''5'' ''5 KiB/s'', it ''10'' ''10 KiB/s'', it ''30'' ''30 KiB/s'', it ''80'' ''80 KiB/s'',
      it ''300'' ''300 KiB/s'', it ''-1'' ''Unlimited'', Separator, it ''other'' ''Other'']
     ''Set Maximum Download Speed'' (Some ''KiB/s''))"

definition upspeed_menu :: limit_menu where
  "upspeed_menu = (let it = limit_item ''max_upload_speed'' in limit_menu_of
     [it ''5'' ''5 KiB/s'', it ''10'' ''10 KiB/s'', it ''30'' ''30 KiB/s'', it ''80'' ''80 KiB/s'',
      it ''300'' ''300 KiB/s'', it ''-1'' ''Unlimited'', Separator, it ''other'' ''Other'']
     ''Set Maximum Upload Speed'' (Some ''KiB/s''))"

text \<open>\<open>item.setChecked(state)\<close> on entry \<open>i\<close>: checking an item clears the others of its group.\<close>

definition entry_group :: "menu_entry \<Rightarrow> string option" where
  "entry_group e = (case e of Separator \<Rightarrow> None | Check m \<Rightarrow> Some (mi_group m))"

definition entry_checked :: "menu_entry \<Rightarrow> bool" where
  "entry_checked e = (case e of Separator \<Rightarrow> False | Check m \<Rightarrow> mi_checked m)"

definition entry_value :: "menu_entry \<Rightarrow> jsval" where
  "entry_value e = (case e of Separator \<Rightarrow> Undef | Check m \<Rightarrow> Str (mi_value m))"

definition entry_set :: "bool \<Rightarrow> menu_entry \<Rightarrow> menu_entry" where
  "entry_set b e = (case e of Separator \<Rightarrow> Separator | Check m \<Rightarrow> Check (m\<lparr> mi_checked := b \<rparr>))"

definition set_checked :: "nat \<Rightarrow> bool \<Rightarrow> menu_entry list \<Rightarrow> menu_entry list" where
  "set_checked i st es =
     (let e = es ! i in
      if entry_checked e = st then es
      else (if st then List.map (\<lambda>f. if entry_group f = entry_group e then entry_set False f else f) es
            else es)[i := entry_set st e])"

text \<open>The index of the last entry with the value \<open>other\<close>.\<close>

definition other_index :: "menu_entry list \<Rightarrow> nat option" where
  "other_index es = each_do (\<lambda>i r. if entry_value (es ! i) = Str ''other'' then Some i else r) [0 ..< length es] None"

definition normal_limit :: "jsval \<Rightarrow> jsval" where
  "normal_limit v = (if loose_eq v (JInt 0) then JInt (-1) else v)"

text \<open>The body of the loop over the entries in \<open>setValue\<close>.\<close>

definition mark_entry :: "jsval \<Rightarrow> nat \<Rightarrow> menu_entry list \<times> bool \<Rightarrow> menu_entry list \<times> bool" where
  "mark_entry v i x = (case x of (es, been) \<Rightarrow>
     if es ! i = Separator then (es, been)
     else if loose_eq (entry_value (es ! i)) v then (set_checked i True es, True)
     else (set_checked i False es, been))"

text \<open>\<open>setValue\<close>. Without an entry \<open>other\<close> the last statements would fail: \<open>other\<close> is null.\<close>

definition lm_set_value :: "jsval \<Rightarrow> limit_menu \<Rightarrow> limit_menu result" where
  "lm_set_value v0 m =
     (let v = normal_limit v0;
          (es, been) = each_do (mark_entry v) [0 ..< length (lm_entries m)] (lm_entries m, False);
          m = m\<lparr> lm_value := v, lm_entries := es \<rparr>
      in if been then Inr m
         else (case other_index es of None \<Rightarrow> Inl TypeError
           | Some i \<Rightarrow> Inr (m\<lparr> lm_entries := set_checked i True es \<rparr>)))"

text \<open>\<open>onLimitChanged\<close> listens to a change of any item but \<open>other\<close>, \<open>onOtherClicked\<close> to a click on it.\<close>

definition lm_on_limit_changed :: "menu_item \<Rightarrow> bool \<Rightarrow> sb_effect list" where
  "lm_on_limit_changed it checked =
     (if \<not> checked \<or> mi_value it = ''other'' then [] else [SetConfig (mi_group it) (mi_value it)])"

definition ow_set_value :: "jsval \<Rightarrow> other_window \<Rightarrow> other_window" where
  "ow_set_value v w = w\<lparr> ow_limit := (if nullish v then [] else to_str v) \<rparr>"

definition lm_on_other_clicked :: "menu_item \<Rightarrow> limit_menu \<Rightarrow> limit_menu" where
  "lm_on_other_clicked it m = m\<lparr> lm_other :=
     (ow_set_value (lm_value m) ((lm_other m)\<lparr> ow_group := Some (mi_group it) \<rparr>))\<lparr> ow_visible := True \<rparr> \<rparr>"

text \<open>A click on an entry: a checked item of a group stays as it is.\<close>

definition lm_click :: "nat \<Rightarrow> limit_menu \<Rightarrow> limit_menu \<times> sb_effect list" where
  "lm_click i m = (case lm_entries m ! i of
     Separator \<Rightarrow> (m, [])
   | Check it \<Rightarrow>
       let changed = \<not> mi_checked it;
           m = (if changed then m\<lparr> lm_entries := set_checked i True (lm_entries m) \<rparr> else m)
       in if mi_value it = ''other'' then (lm_on_other_clicked it m, [])
          else (m, if changed then lm_on_limit_changed it True else []))"

text \<open>The reply to \<open>core.set_config\<close>.\<close>

definition on_config_set :: "sb_effect list" where
  "on_config_set = [UpdateUi]"

definition ow_on_cancel_click :: "other_window \<Rightarrow> other_window" where
  "ow_on_cancel_click w = w\<lparr> ow_limit := [], ow_visible := False \<rparr>"

definition ow_on_ok_click :: "other_window \<Rightarrow> other_window \<times> sb_effect list" where
  "ow_on_ok_click w = (w\<lparr> ow_visible := False \<rparr>,
     [SetConfig (case ow_group w of None \<Rightarrow> ''undefined'' | Some g \<Rightarrow> g) (ow_limit w)])"

section \<open>The bar\<close>

datatype sb_action = NoAction | GoToPage string

record sb_button =
  sbb_id :: string
  sbb_icon :: string
  sbb_tooltip :: string
  sbb_text :: jsval
  sbb_menu :: "limit_menu option"
  sbb_action :: sb_action
  sbb_shown :: bool

record statusbar =
  sb_created :: bool
  sb_icon :: string
  sb_text :: string
  sb_buttons :: "(string \<times> sb_button) list"

definition sb_button_of :: "string \<Rightarrow> string \<Rightarrow> string \<Rightarrow> limit_menu option \<Rightarrow> sb_action \<Rightarrow> string \<times> sb_button" where
  "sb_button_of i icon tip menu act = (i, \<lparr> sbb_id = i, sbb_icon = icon, sbb_tooltip = tip,
     sbb_text = Str '' '', sbb_menu = menu, sbb_action = act, sbb_shown = True \<rparr>)"

definition sb_create_buttons :: "(string \<times> sb_button) list" where
  "sb_create_buttons =
    [sb_button_of ''statusbar-connections'' ''x-deluge-connections'' ''Connections'' (Some connections_menu) NoAction,
     sb_button_of ''statusbar-downspeed'' ''x-deluge-downloading'' ''Download Speed'' (Some downspeed_menu) NoAction,
     sb_button_of ''statusbar-upspeed'' ''x-deluge-seeding'' ''Upload Speed'' (Some upspeed_menu) NoAction,
     sb_button_of ''statusbar-traffic'' ''x-deluge-traffic'' ''Protocol Traffic Download/Upload'' None (GoToPage ''Network''),
     sb_button_of ''statusbar-externalip'' [] ''External IP Address'' None NoAction,
     sb_button_of ''statusbar-dht'' ''x-deluge-dht'' ''DHT Nodes'' None NoAction,
     sb_button_of ''statusbar-freespace'' ''x-deluge-freespace'' ''Freespace in download folder'' None (GoToPage ''Downloads'')]"

definition sb_new :: statusbar where
  "sb_new = \<lparr> sb_created = False, sb_icon = ''x-deluge-statusbar x-not-connected'',
     sb_text = ''Not Connected'', sb_buttons = [] \<rparr>"

definition sb_set_shown :: "bool \<Rightarrow> statusbar \<Rightarrow> statusbar" where
  "sb_set_shown b s = s\<lparr> sb_buttons := List.map (\<lambda>(i, x). (i, x\<lparr> sbb_shown := b \<rparr>)) (sb_buttons s) \<rparr>"

definition sb_on_connect :: "statusbar \<Rightarrow> statusbar" where
  "sb_on_connect s = (let s = s\<lparr> sb_icon := ''x-connected'', sb_text := [] \<rparr> in
     if \<not> sb_created s then s\<lparr> sb_buttons := sb_create_buttons, sb_created := True \<rparr> else sb_set_shown True s)"

definition sb_on_disconnect :: "statusbar \<Rightarrow> statusbar" where
  "sb_on_disconnect s = sb_set_shown False
     (s\<lparr> sb_icon := ''x-deluge-statusbar x-not-connected'', sb_text := ''Not Connected'' \<rparr>)"

definition add_speed :: "jsval \<Rightarrow> jsval" where
  "add_speed v = js_plus v (Str '' KiB/s'')"

text \<open>What \<open>updateStat\<close> shows. A formatter is called with \<open>showZero\<close> true.\<close>

definition stat_text :: "(jsval \<Rightarrow> jsval) \<Rightarrow> jsval \<Rightarrow> (jsval \<Rightarrow> jsval) \<Rightarrow> jsval \<Rightarrow> string \<Rightarrow> jsval" where
  "stat_text vf v lf l fmt =
     (if js_lt (JInt 0) l then Str (str_format [to_str (vf v), to_str (lf l)] fmt) else vf v)"

definition set_text :: "string \<Rightarrow> jsval \<Rightarrow> statusbar \<Rightarrow> statusbar result" where
  "set_text i t s = (case map_of (sb_buttons s) i of None \<Rightarrow> Inl TypeError
     | Some b \<Rightarrow> Inr (s\<lparr> sb_buttons := put i (b\<lparr> sbb_text := t \<rparr>) (sb_buttons s) \<rparr>))"

definition set_menu :: "string \<Rightarrow> jsval \<Rightarrow> statusbar \<Rightarrow> statusbar result" where
  "set_menu i v s = (case map_of (sb_buttons s) i of None \<Rightarrow> Inl TypeError
     | Some b \<Rightarrow> (case sbb_menu b of None \<Rightarrow> Inr s
         | Some m \<Rightarrow> bind_result (lm_set_value v m)
             (\<lambda>m. Inr (s\<lparr> sb_buttons := put i (b\<lparr> sbb_menu := Some m \<rparr>) (sb_buttons s) \<rparr>))))"

definition update_stat :: "string \<Rightarrow> (jsval \<Rightarrow> jsval) \<Rightarrow> jsval \<Rightarrow> (jsval \<Rightarrow> jsval) \<Rightarrow> jsval \<Rightarrow> string
    \<Rightarrow> statusbar \<Rightarrow> statusbar result" where
  "update_stat name vf v lf l fmt s =
     bind_result (set_text (''statusbar-'' @ name) (stat_text vf v lf l fmt) s) (set_menu (''statusbar-'' @ name) l)"

definition speed_shown :: "jsval \<Rightarrow> jsval" where
  "speed_shown v = Str (fmt_speed v True)"

definition freespace_text :: "jsval \<Rightarrow> string" where
  "freespace_text v = (if num_le (Fin 0) (to_num v) then fmt_size v False else ''Error'')"

definition externalip_text :: "jsval \<Rightarrow> string" where
  "externalip_text v = str_format [if truthy v then to_str v else ''n/a''] ''<b>IP</b> {0}''"

definition sb_update :: "jsval \<Rightarrow> statusbar \<Rightarrow> statusbar result" where
  "sb_update stats s =
     (if \<not> truthy stats then Inr s
      else let get = oget (props_of stats) in
        bind_result (update_stat ''connections'' id (get ''num_connections'') id (get ''max_num_connections'') ''{0} ({1})'' s) (\<lambda>s.
        bind_result (update_stat ''downspeed'' speed_shown (get ''download_rate'') add_speed (get ''max_download'') ''{0} ({1})'' s) (\<lambda>s.
        bind_result (update_stat ''upspeed'' speed_shown (get ''upload_rate'') add_speed (get ''max_upload'') ''{0} ({1})'' s) (\<lambda>s.
        bind_result (update_stat ''traffic'' speed_shown (get ''download_protocol_rate'') speed_shown (get ''upload_protocol_rate'') ''{0}/{1}'' s) (\<lambda>s.
        bind_result (set_text ''statusbar-dht'' (get ''dht_nodes'') s) (\<lambda>s.
        bind_result (set_text ''statusbar-freespace'' (Str (freespace_text (get ''free_space''))) s)
          (set_text ''statusbar-externalip'' (Str (externalip_text (get ''external_ip''))))))))))"

section \<open>Menus: lemmas\<close>

definition same_entries :: "menu_entry list \<Rightarrow> menu_entry list \<Rightarrow> bool" where
  "same_entries es fs = (List.map (entry_set False) es = List.map (entry_set False) fs)"

definition limit_entry :: "jsval \<Rightarrow> menu_entry \<Rightarrow> bool" where
  "limit_entry v e = (e \<noteq> Separator \<and> loose_eq (entry_value e) v)"

lemma entry_set_simps [simp]: "entry_set b (entry_set c e) = entry_set b e"
  "entry_group (entry_set b e) = entry_group e" "entry_value (entry_set b e) = entry_value e"
  "entry_set b e = Separator \<longleftrightarrow> e = Separator"
  "entry_checked (entry_set b e) = (b \<and> e \<noteq> Separator)"
  by (auto simp: entry_set_def entry_group_def entry_value_def entry_checked_def split: menu_entry.splits)

lemma entry_set_same: "entry_checked e = b \<Longrightarrow> entry_set b e = e"
  by (auto simp: entry_set_def entry_checked_def split: menu_entry.splits)

lemma entry_shape: "entry_set False e = entry_set False f \<Longrightarrow>
    entry_value e = entry_value f \<and> entry_group e = entry_group f \<and> (e = Separator \<longleftrightarrow> f = Separator)"
  by (metis entry_set_simps(2-4))

lemma length_set_checked [simp]: "length (set_checked i b es) = length es"
  by (simp add: set_checked_def Let_def)

lemma nth_set_checked:
  assumes "i < length es" and "j < length es"
  shows "set_checked i b es ! j = (if j = i then entry_set b (es ! i)
    else if b \<and> \<not> entry_checked (es ! i) \<and> entry_group (es ! j) = entry_group (es ! i)
      then entry_set False (es ! j) else es ! j)"
  using assms by (auto simp: set_checked_def Let_def entry_set_same nth_list_update)

lemma same_entries_nth: "same_entries es fs \<longleftrightarrow> length es = length fs
    \<and> (\<forall>j < length fs. entry_set False (es ! j) = entry_set False (fs ! j))"
  unfolding same_entries_def by (auto simp: list_eq_iff_nth_eq)

lemma same_entries_set: "same_entries es fs \<Longrightarrow> i < length es \<Longrightarrow> same_entries (set_checked i b es) fs"
  by (auto simp: same_entries_nth nth_set_checked)

lemma limit_entry_shape: "entry_set False e = entry_set False f \<Longrightarrow> limit_entry v e = limit_entry v f"
  using entry_shape[of e f] by (simp add: limit_entry_def)

lemma other_index_same: "same_entries es fs \<Longrightarrow> other_index es = other_index fs"
proof -
  assume s: "same_entries es fs"
  have "each_do (\<lambda>i r. if entry_value (es ! i) = Str ''other'' then Some i else r) is x
      = each_do (\<lambda>i r. if entry_value (fs ! i) = Str ''other'' then Some i else r) is x"
    if "set is \<subseteq> {..< length fs}" for "is" x
    using that s by (induction "is" arbitrary: x) (auto simp: same_entries_nth dest!: entry_shape)
  from this[of "[0 ..< length fs]" None] show ?thesis
    using s by (simp add: other_index_def same_entries_nth atLeast0LessThan)
qed

text \<open>The loop of \<open>setValue\<close> over the first entries: those are checked exactly when they are the limit.\<close>

lemma mark_entries:
  assumes "same_entries es fs"
    and "\<And>i j. i < length fs \<Longrightarrow> j < length fs \<Longrightarrow> limit_entry v (fs ! i) \<Longrightarrow> limit_entry v (fs ! j) \<Longrightarrow> i = j"
    and "n \<le> length fs" and "each_do (mark_entry v) [0 ..< n] (es, False) = (gs, been)"
  shows "same_entries gs fs \<and> (\<forall>j < n. entry_checked (gs ! j) = limit_entry v (fs ! j))
    \<and> been = (\<exists>j < n. limit_entry v (fs ! j))"
  using assms(3,4)
proof (induction n arbitrary: gs been)
  case 0
  then show ?case using assms(1) by simp
next
  case (Suc n)
  obtain hs b where hs: "each_do (mark_entry v) [0 ..< n] (es, False) = (hs, b)" by fastforce
  have ih: "same_entries hs fs" "\<forall>j < n. entry_checked (hs ! j) = limit_entry v (fs ! j)"
    "b = (\<exists>j < n. limit_entry v (fs ! j))"
    using Suc.IH[OF _ hs] Suc.prems(1) by auto
  have n: "n < length fs" "n < length hs" using Suc.prems(1) ih(1) by (auto simp: same_entries_nth)
  have shape: "entry_set False (hs ! n) = entry_set False (fs ! n)" using ih(1) n by (simp add: same_entries_nth)
  have step: "(gs, been) = mark_entry v n (hs, b)" using Suc.prems(2) hs by simp
  have other: "\<not> limit_entry v (fs ! j)" if "limit_entry v (fs ! n)" "j < n" for j
    using assms(2)[of j n] that n by auto
  consider "hs ! n = Separator" | "hs ! n \<noteq> Separator" "loose_eq (entry_value (hs ! n)) v"
    | "hs ! n \<noteq> Separator" "\<not> loose_eq (entry_value (hs ! n)) v" by blast
  then show ?case
  proof cases
    case 1
    then have "\<not> limit_entry v (fs ! n)" using entry_shape[OF shape] by (simp add: limit_entry_def)
    then show ?thesis using 1 step ih by (auto simp: mark_entry_def less_Suc_eq entry_checked_def)
  next
    case 2
    then have l: "limit_entry v (fs ! n)" using entry_shape[OF shape] by (simp add: limit_entry_def)
    have "gs = set_checked n True hs" "been" using 2 step by (simp_all add: mark_entry_def)
    then show ?thesis
      using 2 l ih n other[OF l] by (auto simp: same_entries_set less_Suc_eq nth_set_checked)
  next
    case 3
    then have l: "\<not> limit_entry v (fs ! n)" using entry_shape[OF shape] by (simp add: limit_entry_def)
    have "gs = set_checked n False hs" "been = b" using 3 step by (simp_all add: mark_entry_def)
    then show ?thesis
      using 3 l ih n by (auto simp: same_entries_set less_Suc_eq nth_set_checked)
  qed
qed

lemma lm_set_value_result:
  assumes "same_entries (lm_entries m) fs" and "v = normal_limit v0" and "other_index fs = Some k" and "k < length fs"
    and "fs ! k \<noteq> Separator"
    and "\<And>i j. i < length fs \<Longrightarrow> j < length fs \<Longrightarrow> limit_entry v (fs ! i) \<Longrightarrow> limit_entry v (fs ! j) \<Longrightarrow> i = j"
  obtains m' where "lm_set_value v0 m = Inr m'" and "lm_value m' = v" and "same_entries (lm_entries m') fs"
    and "\<forall>j < length fs. entry_checked (lm_entries m' ! j) =
      (if \<exists>i < length fs. limit_entry v (fs ! i) then limit_entry v (fs ! j) else j = k)"
proof -
  obtain gs been where g: "each_do (mark_entry v) [0 ..< length fs] (lm_entries m, False) = (gs, been)" by fastforce
  have l: "length (lm_entries m) = length fs" using assms(1) by (simp add: same_entries_nth)
  from mark_entries[OF assms(1) assms(6) order_refl g]
  have r: "same_entries gs fs" "\<forall>j < length fs. entry_checked (gs ! j) = limit_entry v (fs ! j)"
    "been = (\<exists>j < length fs. limit_entry v (fs ! j))" by auto
  have o: "other_index gs = Some k" using other_index_same[OF r(1)] assms(3) by simp
  have k: "k < length gs" using r(1) assms(4) by (simp add: same_entries_nth)
  have "gs ! k \<noteq> Separator" using r(1) assms(4,5) by (auto simp: same_entries_nth dest!: entry_shape)
  moreover have "lm_set_value v0 m = Inr (m\<lparr> lm_value := v, lm_entries := if been then gs else set_checked k True gs \<rparr>)"
    using g o l by (simp add: lm_set_value_def Let_def assms(2)[symmetric] case_prod_beta)
  ultimately show ?thesis
    using that[of "m\<lparr> lm_value := v, lm_entries := if been then gs else set_checked k True gs \<rparr>"] r k
    by (auto simp: same_entries_set nth_set_checked same_entries_nth)
qed

section \<open>The limits\<close>

text \<open>What a limit menu is: its items are those of one of the three menus, whatever is checked.\<close>

definition is_limit_menu :: "limit_menu \<Rightarrow> limit_menu \<Rightarrow> bool" where
  "is_limit_menu m m0 = (m0 \<in> {connections_menu, downspeed_menu, upspeed_menu}
     \<and> same_entries (lm_entries m) (lm_entries m0))"

lemma menu_entries:
  assumes "m0 \<in> {connections_menu, downspeed_menu, upspeed_menu}"
  shows "length (lm_entries m0) = 8" "other_index (lm_entries m0) = Some 7" "lm_entries m0 ! 7 \<noteq> Separator"
proof -
  have "length (lm_entries connections_menu) = 8 \<and> other_index (lm_entries connections_menu) = Some 7
      \<and> lm_entries connections_menu ! 7 \<noteq> Separator"
    and "length (lm_entries downspeed_menu) = 8 \<and> other_index (lm_entries downspeed_menu) = Some 7
      \<and> lm_entries downspeed_menu ! 7 \<noteq> Separator"
    and "length (lm_entries upspeed_menu) = 8 \<and> other_index (lm_entries upspeed_menu) = Some 7
      \<and> lm_entries upspeed_menu ! 7 \<noteq> Separator" by (code_simp+)
  with assms show "length (lm_entries m0) = 8" "other_index (lm_entries m0) = Some 7" "lm_entries m0 ! 7 \<noteq> Separator"
    by auto
qed

definition entry_limit :: "menu_entry \<Rightarrow> jsnum" where
  "entry_limit e = to_num (entry_value e)"

lemma limit_entry_num: "limit_entry (Num n) e \<longleftrightarrow> e \<noteq> Separator \<and> num_eq (entry_limit e) n"
  by (cases e) (auto simp: limit_entry_def loose_eq_def entry_value_def entry_limit_def to_num_def)

lemma menu_limits: "List.map entry_limit (lm_entries connections_menu)
    = [Fin 50, Fin 100, Fin 200, Fin 300, Fin 500, Fin (-1), NaN, NaN]"
  "List.map entry_limit (lm_entries downspeed_menu) = [Fin 5, Fin 10, Fin 30, Fin 80, Fin 300, Fin (-1), NaN, NaN]"
  "List.map entry_limit (lm_entries upspeed_menu) = [Fin 5, Fin 10, Fin 30, Fin 80, Fin 300, Fin (-1), NaN, NaN]"
  by (code_simp+)

lemma limits_differ:
  assumes "m0 \<in> {connections_menu, downspeed_menu, upspeed_menu}"
    and "i < 8" and "j < 8" and "limit_entry (Num n) (lm_entries m0 ! i)" and "limit_entry (Num n) (lm_entries m0 ! j)"
  shows "i = j"
proof -
  let ?l = "List.map entry_limit (lm_entries m0)"
  have "distinct (take 6 ?l)" and "drop 6 ?l = [NaN, NaN]" using assms(1) by (auto simp: menu_limits)
  then have d: "distinct (take 6 ?l)" and n: "?l ! 6 = NaN" "?l ! 7 = NaN"
    using menu_entries(1)[OF assms(1)] nth_drop[of 6 ?l 0] nth_drop[of 6 ?l 1] by simp_all
  have len: "length ?l = 8" using menu_entries(1)[OF assms(1)] by simp
  have e: "num_eq (?l ! i) n" "num_eq (?l ! j) n" using assms(2-5) len by (simp_all add: limit_entry_num)
  then have "i \<noteq> 6" "i \<noteq> 7" "j \<noteq> 6" "j \<noteq> 7" using n by auto
  then have "i < 6" "j < 6" using assms(2,3) by auto
  moreover have "?l ! i = ?l ! j" using e by (metis num_eqD)
  ultimately show ?thesis
    using d len nth_eq_iff_index_eq[OF d, of i j] by (simp add: nth_take)
qed

lemma normal_limit_num: "normal_limit (Num n) = Num (if n = Fin 0 then Fin (-1) else n)"
  by (auto simp: normal_limit_def loose_eq_def num_eq_iff)

lemma limit_menu_marks:
  assumes "is_limit_menu m m0"
  shows "\<exists>m'. lm_set_value (Num n) m = Inr m' \<and> is_limit_menu m' m0
    \<and> lm_value m' = Num (if n = Fin 0 then Fin (-1) else n)
    \<and> (\<exists>!i. i < 8 \<and> entry_checked (lm_entries m' ! i))
    \<and> (\<forall>i < 8. entry_checked (lm_entries m' ! i) \<longrightarrow>
        limit_entry (lm_value m') (lm_entries m0 ! i)
        \<or> entry_value (lm_entries m0 ! i) = Str ''other'' \<and> (\<forall>j < 8. \<not> limit_entry (lm_value m') (lm_entries m0 ! j)))"
proof -
  let ?v = "normal_limit (Num n)" and ?fs = "lm_entries m0"
  have m0: "m0 \<in> {connections_menu, downspeed_menu, upspeed_menu}" and s: "same_entries (lm_entries m) ?fs"
    using assms by (simp_all add: is_limit_menu_def)
  note me = menu_entries[OF m0]
  have u: "i = j" if "i < 8" "j < 8" "limit_entry ?v (?fs ! i)" "limit_entry ?v (?fs ! j)" for i j
    using limits_differ[OF m0 that(1,2)] that(3,4) by (simp add: normal_limit_num)
  obtain m' where m': "lm_set_value (Num n) m = Inr m'" "lm_value m' = ?v" "same_entries (lm_entries m') ?fs"
    "\<forall>j < 8. entry_checked (lm_entries m' ! j) =
      (if \<exists>i < 8. limit_entry ?v (?fs ! i) then limit_entry ?v (?fs ! j) else j = 7)"
    by (rule lm_set_value_result[OF s, of ?v "Num n" 7]) (use u me in auto)
  have o: "entry_value (?fs ! 7) = Str ''other''"
    using m0 by (auto simp: connections_menu_def downspeed_menu_def upspeed_menu_def limit_menu_of_def
        Let_def limit_item_def entry_value_def)
  have "\<exists>!i. i < 8 \<and> entry_checked (lm_entries m' ! i)"
  proof (cases "\<exists>i < 8. limit_entry ?v (?fs ! i)")
    case True
    then show ?thesis using m'(4) u by metis
  next
    case False
    then show ?thesis using m'(4) by (intro ex1I[of _ 7]) auto
  qed
  moreover have "\<forall>i < 8. entry_checked (lm_entries m' ! i) \<longrightarrow> limit_entry ?v (?fs ! i)
      \<or> entry_value (?fs ! i) = Str ''other'' \<and> (\<forall>j < 8. \<not> limit_entry ?v (?fs ! j))"
    using m'(4) o by metis
  ultimately show ?thesis
    using m' m0 by (intro exI[of _ m']) (simp add: is_limit_menu_def normal_limit_num)
qed

text \<open>C16: Whatever limit the daemon reports, the menu of the limit ends up with exactly one item checked:
  the one whose value is the limit, Unlimited when it is zero, and Other when no item has it. Nothing is
  sent, and the menu keeps its items.\<close>

theorem limit_menu_shows_limit:
  assumes "is_limit_menu m m0"
  shows "\<exists>m'. lm_set_value (Num n) m = Inr m' \<and> is_limit_menu m' m0
    \<and> lm_value m' = Num (if n = Fin 0 then Fin (-1) else n)
    \<and> (\<exists>!i. i < 8 \<and> entry_checked (lm_entries m' ! i))
    \<and> (\<forall>i < 8. entry_checked (lm_entries m' ! i) \<longrightarrow>
        limit_entry (lm_value m') (lm_entries m0 ! i)
        \<or> entry_value (lm_entries m0 ! i) = Str ''other'' \<and> (\<forall>j < 8. \<not> limit_entry (lm_value m') (lm_entries m0 ! j)))"
  using assms by (rule limit_menu_marks)

theorem limit_menu_shows_limit_witness:
  "\<exists>m'. lm_set_value (JInt 0) upspeed_menu = Inr m' \<and> lm_value m' = JInt (-1)
    \<and> (\<exists>!i. i < 8 \<and> entry_checked (lm_entries m' ! i))"
  using limit_menu_shows_limit[of upspeed_menu upspeed_menu "Fin 0"]
  by (auto simp: is_limit_menu_def same_entries_def)

lemma limit_menu_total: "is_limit_menu m m0 \<Longrightarrow> \<exists>m'. lm_set_value (Num n) m = Inr m' \<and> is_limit_menu m' m0"
proof -
  assume a: "is_limit_menu m m0"
  then have m0: "m0 \<in> {connections_menu, downspeed_menu, upspeed_menu}"
    and s: "same_entries (lm_entries m) (lm_entries m0)" by (simp_all add: is_limit_menu_def)
  obtain m' where "lm_set_value (Num n) m = Inr m'" "same_entries (lm_entries m') (lm_entries m0)"
    by (rule lm_set_value_result[OF s, of "normal_limit (Num n)" "Num n" 7])
      (use menu_entries[OF m0] limits_differ[OF m0] in \<open>auto simp: normal_limit_num\<close>)
  then show ?thesis using m0 by (auto simp: is_limit_menu_def)
qed

lemma limit_click_round_trip_parts:
  assumes "is_limit_menu m m0" and "i < 6" and "lm_entries m ! i = Check it" and "\<not> mi_checked it"
  shows "snd (lm_click i m) = [SetConfig (mi_group it) (mi_value it)]"
    and "\<exists>m'. lm_set_value (Num (str_num (mi_value it))) (fst (lm_click i m)) = Inr m'
      \<and> (\<forall>j < 8. entry_checked (lm_entries m' ! j) = (j = i))"
proof -
  let ?fs = "lm_entries m0" and ?n = "str_num (mi_value it)"
  have m0: "m0 \<in> {connections_menu, downspeed_menu, upspeed_menu}" and s: "same_entries (lm_entries m) ?fs"
    using assms(1) by (simp_all add: is_limit_menu_def)
  note me = menu_entries[OF m0]
  have len: "length (lm_entries m) = 8" using s me by (simp add: same_entries_nth)
  have sh: "entry_set False (Check it) = entry_set False (?fs ! i)"
  proof -
    have "i < 8" using assms(2) by simp
    then show ?thesis using s me(1) assms(3) unfolding same_entries_nth by metis
  qed
  have val: "entry_value (?fs ! i) = Str (mi_value it)" using entry_shape[OF sh] by (simp add: entry_value_def)
  have e: "?n = entry_limit (?fs ! i)" by (simp add: entry_limit_def val to_num_def)
  have lim: "?n = List.map entry_limit ?fs ! i" using e assms(2) me(1) by simp
  have "List.map entry_limit ?fs ! i \<in> set (take 6 (List.map entry_limit ?fs))"
    using nth_mem[of i "take 6 (List.map entry_limit ?fs)"] assms(2) me(1) by simp
  moreover have "NaN \<notin> set (take 6 (List.map entry_limit ?fs))" "Fin 0 \<notin> set (take 6 (List.map entry_limit ?fs))"
    using m0 by (auto simp: menu_limits)
  ultimately have n: "?n \<noteq> NaN" "?n \<noteq> Fin 0" using lim by metis+
  have o: "mi_value it \<noteq> ''other''"
  proof
    assume "mi_value it = ''other''"
    moreover have "str_num ''other'' = NaN" by code_simp
    ultimately show False using n(1) by simp
  qed
  show "snd (lm_click i m) = [SetConfig (mi_group it) (mi_value it)]"
    using assms(3,4) o by (simp add: lm_click_def lm_on_limit_changed_def Let_def)
  have m1: "is_limit_menu (fst (lm_click i m)) m0"
    using assms(1,3,4) o len assms(2) by (simp add: lm_click_def is_limit_menu_def same_entries_set)
  from limit_menu_marks[OF m1, of ?n]
  obtain m' where m': "lm_set_value (Num ?n) (fst (lm_click i m)) = Inr m'"
    "lm_value m' = Num ?n" "\<exists>!i. i < 8 \<and> entry_checked (lm_entries m' ! i)"
    "\<forall>i < 8. entry_checked (lm_entries m' ! i) \<longrightarrow> limit_entry (Num ?n) (?fs ! i)
        \<or> entry_value (?fs ! i) = Str ''other'' \<and> (\<forall>j < 8. \<not> limit_entry (Num ?n) (?fs ! j))"
    unfolding if_not_P[OF n(2)] by (elim exE conjE) (rule that, assumption+, simp only:)
  have li: "limit_entry (Num ?n) (?fs ! i)"
    using n(1) e val by (cases "?fs ! i") (auto simp: limit_entry_num entry_value_def)
  have "j = i" if "j < 8" "entry_checked (lm_entries m' ! j)" for j
    using m'(4) that limits_differ[OF m0 that(1), of i ?n] li assms(2) by fastforce
  then have "\<forall>j < 8. entry_checked (lm_entries m' ! j) = (j = i)" using m'(3) by metis
  with m'(1) show "\<exists>m'. lm_set_value (Num ?n) (fst (lm_click i m)) = Inr m'
      \<and> (\<forall>j < 8. entry_checked (lm_entries m' ! j) = (j = i))" by blast
qed

text \<open>A click on an item that is not checked sends its limit, once, under the option of the menu; when
  the daemon then reports that limit the same item is the one that is checked.\<close>

theorem limit_click_round_trip:
  assumes "is_limit_menu m m0" and "i < 6" and "lm_entries m ! i = Check it" and "\<not> mi_checked it"
  shows "snd (lm_click i m) = [SetConfig (mi_group it) (mi_value it)]
    \<and> (\<exists>m'. lm_set_value (Num (str_num (mi_value it))) (fst (lm_click i m)) = Inr m'
      \<and> (\<forall>j < 8. entry_checked (lm_entries m' ! j) = (j = i)))"
  by (intro conjI limit_click_round_trip_parts[OF assms])

theorem limit_click_round_trip_witness:
  "snd (lm_click 2 connections_menu) = [SetConfig ''max_connections_global'' ''200'']"
proof -
  have e: "lm_entries connections_menu ! 2 = Check \<lparr> mi_text = ''200'', mi_value = ''200'',
      mi_group = ''max_connections_global'', mi_checked = False \<rparr>"
    by (simp add: connections_menu_def limit_menu_of_def Let_def limit_item_def)
  show ?thesis
    using limit_click_round_trip[OF _ _ e, of connections_menu]
    by (simp add: is_limit_menu_def same_entries_def)
qed

section \<open>The bar: lemmas\<close>

text \<open>Once created, the bar has its seven buttons, each with its menu.\<close>

definition sb_ok :: "statusbar \<Rightarrow> bool" where
  "sb_ok s = (\<forall>i. rel_option (\<lambda>b b0. rel_option is_limit_menu (sbb_menu b) (sbb_menu b0))
     (map_of (sb_buttons s) i) (map_of sb_create_buttons i))"

definition btn_text :: "statusbar \<Rightarrow> string \<Rightarrow> jsval option" where
  "btn_text s i = map_option sbb_text (map_of (sb_buttons s) i)"

lemma sb_ok_button:
  assumes "sb_ok s" and "map_of sb_create_buttons i = Some b0"
  obtains b where "map_of (sb_buttons s) i = Some b" and "rel_option is_limit_menu (sbb_menu b) (sbb_menu b0)"
  using assms by (auto simp: sb_ok_def option_rel_Some2 dest!: spec[of _ i])

lemma set_text_ok:
  assumes "sb_ok s" and "has_key sb_create_buttons i"
  obtains s' where "set_text i t s = Inr s'" and "sb_ok s'"
    and "\<And>j. btn_text s' j = (if j = i then Some t else btn_text s j)"
proof -
  obtain b0 where b0: "map_of sb_create_buttons i = Some b0" using assms(2) by (auto simp: has_key_def)
  obtain b where b: "map_of (sb_buttons s) i = Some b" "rel_option is_limit_menu (sbb_menu b) (sbb_menu b0)"
    by (rule sb_ok_button[OF assms(1) b0])
  show ?thesis
    by (rule that[of "s\<lparr> sb_buttons := put i (b\<lparr> sbb_text := t \<rparr>) (sb_buttons s) \<rparr>"])
      (use assms(1) b b0 in \<open>auto simp: set_text_def sb_ok_def btn_text_def lookup_put\<close>)
qed

lemma set_menu_ok:
  assumes "sb_ok s" and "has_key sb_create_buttons i"
  obtains s' where "set_menu i (Num n) s = Inr s'" and "sb_ok s'" and "\<And>j. btn_text s' j = btn_text s j"
proof -
  obtain b0 where b0: "map_of sb_create_buttons i = Some b0" using assms(2) by (auto simp: has_key_def)
  obtain b where b: "map_of (sb_buttons s) i = Some b" "rel_option is_limit_menu (sbb_menu b) (sbb_menu b0)"
    by (rule sb_ok_button[OF assms(1) b0])
  show ?thesis
  proof (cases "sbb_menu b")
    case None
    then show ?thesis using that[of s] assms(1) b by (simp add: set_menu_def)
  next
    case (Some m)
    then obtain m0 where m0: "sbb_menu b0 = Some m0" "is_limit_menu m m0" using b(2) by (auto simp: option_rel_Some1)
    obtain m' where m': "lm_set_value (Num n) m = Inr m'" "is_limit_menu m' m0"
      using limit_menu_total[OF m0(2)] by blast
    show ?thesis
      by (rule that[of "s\<lparr> sb_buttons := put i (b\<lparr> sbb_menu := Some m' \<rparr>) (sb_buttons s) \<rparr>"])
        (use assms(1) b b0 m' m0 Some in \<open>auto simp: set_menu_def sb_ok_def btn_text_def lookup_put\<close>)
  qed
qed

lemma update_stat_ok:
  assumes "sb_ok s" and "has_key sb_create_buttons (''statusbar-'' @ name)" and "l = Num n"
  obtains s' where "update_stat name vf v lf l fmt s = Inr s'" and "sb_ok s'"
    and "\<And>j. btn_text s' j = (if j = ''statusbar-'' @ name then Some (stat_text vf v lf l fmt) else btn_text s j)"
proof -
  obtain s1 where s1: "set_text (''statusbar-'' @ name) (stat_text vf v lf l fmt) s = Inr s1" "sb_ok s1"
    "\<And>j. btn_text s1 j = (if j = ''statusbar-'' @ name then Some (stat_text vf v lf l fmt) else btn_text s j)"
    by (rule set_text_ok[OF assms(1,2), where t = "stat_text vf v lf l fmt"]) blast
  obtain s2 where "set_menu (''statusbar-'' @ name) l s1 = Inr s2" "sb_ok s2" "\<And>j. btn_text s2 j = btn_text s1 j"
    unfolding assms(3) by (rule set_menu_ok[OF s1(2) assms(2)]) blast
  then show ?thesis using s1 that[of s2] by (simp add: update_stat_def)
qed

lemma sb_keys: "has_key sb_create_buttons ''statusbar-connections''" "has_key sb_create_buttons ''statusbar-downspeed''"
  "has_key sb_create_buttons ''statusbar-upspeed''" "has_key sb_create_buttons ''statusbar-traffic''"
  "has_key sb_create_buttons ''statusbar-externalip''" "has_key sb_create_buttons ''statusbar-dht''"
  "has_key sb_create_buttons ''statusbar-freespace''"
  by (simp_all add: has_key_def sb_create_buttons_def sb_button_of_def)

lemma sb_ok_created: "sb_ok (sb_on_connect sb_new)"
proof -
  have "rel_option is_limit_menu (sbb_menu b) (sbb_menu b)" if "map_of sb_create_buttons i = Some b" for i b
    using map_of_SomeD[OF that]
    by (auto simp: sb_create_buttons_def sb_button_of_def is_limit_menu_def same_entries_def)
  then show ?thesis
    by (auto simp: sb_ok_def sb_on_connect_def sb_new_def Let_def option.rel_sel)
qed

lemma limit_format: "str_format [a, b] ''{0} ({1})'' = a @ '' ('' @ b @ '')''"
  by (simp add: is_digit_def digits_val_def digit_val_def Let_def)

declare str_format.simps [simp del]

lemma js_lt_num: "js_lt (Num (Fin 0)) (Num n) = num_lt (Fin 0) n"
  by (simp add: js_lt_def)

lemma stat_text_limit:
  "stat_text id v id (Num n) ''{0} ({1})'' = (if num_lt (Fin 0) n then Str (to_str v @ '' ('' @ num_str n @ '')'') else v)"
  "stat_text speed_shown v add_speed (Num n) ''{0} ({1})'' = Str (fmt_speed v True
     @ (if num_lt (Fin 0) n then '' ('' @ num_str n @ '' KiB/s)'' else []))"
  by (simp_all add: stat_text_def limit_format js_lt_num speed_shown_def add_speed_def js_plus_def)

lemma externalip_text_format: "externalip_text v = ''<b>IP</b> '' @ (if truthy v then to_str v else ''n/a'')"
  by (simp add: str_format.simps externalip_text_def is_digit_def digits_val_def digit_val_def Let_def)

text \<open>Once the buttons exist, \<open>update\<close> does not fail and shows, in each button, the statistic it is
  for: a value that has a limit as value and limit, one without a limit alone, the free space of
  the download folder (or Error when it is negative) and the external address.\<close>

theorem statusbar_update_shows:
  assumes "sb_ok s" and "truthy stats" and "get = oget (props_of stats)"
    and "get ''max_num_connections'' = Num nc" and "get ''max_download'' = Num nd" and "get ''max_upload'' = Num nu"
    and "get ''upload_protocol_rate'' = Num np"
  shows "\<exists>s'. sb_update stats s = Inr s' \<and> sb_ok s'
    \<and> btn_text s' ''statusbar-connections'' = Some (if num_lt (Fin 0) nc
        then Str (to_str (get ''num_connections'') @ '' ('' @ num_str nc @ '')'') else get ''num_connections'')
    \<and> btn_text s' ''statusbar-downspeed'' = Some (Str (fmt_speed (get ''download_rate'') True
        @ (if num_lt (Fin 0) nd then '' ('' @ num_str nd @ '' KiB/s)'' else [])))
    \<and> btn_text s' ''statusbar-upspeed'' = Some (Str (fmt_speed (get ''upload_rate'') True
        @ (if num_lt (Fin 0) nu then '' ('' @ num_str nu @ '' KiB/s)'' else [])))
    \<and> btn_text s' ''statusbar-dht'' = Some (get ''dht_nodes'')
    \<and> btn_text s' ''statusbar-freespace'' = Some (Str (freespace_text (get ''free_space'')))
    \<and> btn_text s' ''statusbar-externalip'' = Some (Str (''<b>IP</b> ''
        @ (if truthy (get ''external_ip'') then to_str (get ''external_ip'') else ''n/a'')))"
proof -
  obtain s1 where s1: "update_stat ''connections'' id (get ''num_connections'') id (get ''max_num_connections'') ''{0} ({1})'' s = Inr s1"
    "sb_ok s1" "\<And>j. btn_text s1 j = (if j = ''statusbar-connections'' then Some (stat_text id (get ''num_connections'') id (get ''max_num_connections'') ''{0} ({1})'') else btn_text s j)"
    by (rule update_stat_ok[OF assms(1), of "''connections''", OF _ assms(4)]) (auto simp: sb_keys)
  obtain s2 where s2: "update_stat ''downspeed'' speed_shown (get ''download_rate'') add_speed (get ''max_download'') ''{0} ({1})'' s1 = Inr s2"
    "sb_ok s2" "\<And>j. btn_text s2 j = (if j = ''statusbar-downspeed'' then Some (stat_text speed_shown (get ''download_rate'') add_speed (get ''max_download'') ''{0} ({1})'') else btn_text s1 j)"
    by (rule update_stat_ok[OF s1(2), of "''downspeed''", OF _ assms(5)]) (auto simp: sb_keys)
  obtain s3 where s3: "update_stat ''upspeed'' speed_shown (get ''upload_rate'') add_speed (get ''max_upload'') ''{0} ({1})'' s2 = Inr s3"
    "sb_ok s3" "\<And>j. btn_text s3 j = (if j = ''statusbar-upspeed'' then Some (stat_text speed_shown (get ''upload_rate'') add_speed (get ''max_upload'') ''{0} ({1})'') else btn_text s2 j)"
    by (rule update_stat_ok[OF s2(2), of "''upspeed''", OF _ assms(6)]) (auto simp: sb_keys)
  obtain s4 where s4: "update_stat ''traffic'' speed_shown (get ''download_protocol_rate'') speed_shown (get ''upload_protocol_rate'') ''{0}/{1}'' s3 = Inr s4"
    "sb_ok s4" "\<And>j. btn_text s4 j = (if j = ''statusbar-traffic'' then Some (stat_text speed_shown (get ''download_protocol_rate'') speed_shown (get ''upload_protocol_rate'') ''{0}/{1}'') else btn_text s3 j)"
    by (rule update_stat_ok[OF s3(2), of "''traffic''", OF _ assms(7)]) (auto simp: sb_keys)
  obtain s5 where s5: "set_text ''statusbar-dht'' (get ''dht_nodes'') s4 = Inr s5" "sb_ok s5"
    "\<And>j. btn_text s5 j = (if j = ''statusbar-dht'' then Some (get ''dht_nodes'') else btn_text s4 j)"
    by (rule set_text_ok[OF s4(2) sb_keys(6)]) blast
  obtain s6 where s6: "set_text ''statusbar-freespace'' (Str (freespace_text (get ''free_space''))) s5 = Inr s6" "sb_ok s6"
    "\<And>j. btn_text s6 j = (if j = ''statusbar-freespace'' then Some (Str (freespace_text (get ''free_space''))) else btn_text s5 j)"
    by (rule set_text_ok[OF s5(2) sb_keys(7)]) blast
  obtain s7 where s7: "set_text ''statusbar-externalip'' (Str (externalip_text (get ''external_ip''))) s6 = Inr s7" "sb_ok s7"
    "\<And>j. btn_text s7 j = (if j = ''statusbar-externalip'' then Some (Str (externalip_text (get ''external_ip''))) else btn_text s6 j)"
    by (rule set_text_ok[OF s6(2) sb_keys(5)]) blast
  have u: "sb_update stats s = Inr s7"
    using assms(2) s1(1) s2(1) s3(1) s4(1) s5(1) s6(1) s7(1) by (simp add: sb_update_def assms(3)[symmetric])
  show ?thesis
    by (rule exI[of _ s7], intro conjI, rule u, rule s7(2))
      (simp_all add: s1(3) s2(3) s3(3) s4(3) s5(3) s6(3) s7(3) assms(4-6) stat_text_limit externalip_text_format speed_shown_def)
qed

definition example_stats :: jsval where
  "example_stats = Obj 0 [(''num_connections'', JInt 12), (''max_num_connections'', JInt 200),
     (''download_rate'', JInt 123456), (''max_download'', JInt (-1)), (''upload_rate'', JInt 5000),
     (''max_upload'', JInt 80), (''download_protocol_rate'', JInt 3000), (''upload_protocol_rate'', JInt 0),
     (''dht_nodes'', JInt 7), (''free_space'', JInt (-1)), (''external_ip'', Str [])]"

theorem statusbar_update_shows_witness:
  "\<exists>s'. sb_update example_stats (sb_on_connect sb_new) = Inr s'
    \<and> btn_text s' ''statusbar-externalip'' = Some (Str ''<b>IP</b> n/a'')"
  using statusbar_update_shows[OF sb_ok_created, of example_stats "oget (props_of example_stats)"
      "Fin 200" "Fin (-1)" "Fin 80" "Fin 0"]
  by (auto simp: example_stats_def oget_def)

text \<open>While nothing is uploaded the traffic button shows the download rate alone, without its
  separator: the upload rate takes the place of a limit, and a limit of zero is left out.\<close>

theorem traffic_hides_idle_upload:
  "stat_text speed_shown (JInt d) speed_shown (JInt 0) ''{0}/{1}'' = Str (fmt_speed (JInt d) True)"
  by (simp add: stat_text_def js_lt_num speed_shown_def)

text \<open>A full disk shows nothing: the free space 0 is formatted as the empty text.\<close>

theorem freespace_zero_blank:
  "freespace_text (JInt 0) = [] \<and> freespace_text (JInt (-1)) = ''Error''"
  by (simp add: freespace_text_def fmt_size_def fmt_units_def to_num_def num_le_def)

end
