(* ===== verification/TorrentMenu.thy ===== *)
theory TorrentMenu
  imports TorrentGrid
begin

text \<open>
  What acts on the selected torrents: the context menu (Menus.js), the toolbar, the
  windows that remove torrents and move their data, and the table of file priorities.
  Requests and windows are the trace; labels are the texts before translation.
\<close>

section \<open>Menus as data\<close>

datatype torrent_action =
    ActMethod string
  | ActSetOpt string jsval
  | ActShow string
  | ActPriority jsval
  | ActNone

datatype menu_node =
    Item string string torrent_action
  | Sub string string "menu_node list"
  | Sep

definition set_opt :: "string \<Rightarrow> jsval \<Rightarrow> string \<Rightarrow> menu_node" where
  "set_opt opt v t = Item t [] (ActSetOpt opt v)"

definition download_limit_menu :: menu_node where
  "download_limit_menu = (let f = set_opt ''max_download_speed'' in
     Sub ''D/L Speed Limit'' ''x-deluge-downloading'' [f (JInt 5) ''5 KiB/s'', f (JInt 10) ''10 KiB/s'',
       f (JInt 30) ''30 KiB/s'', f (JInt 80) ''80 KiB/s'', f (JInt 300) ''300 KiB/s'', f (JInt (-1)) ''Unlimited''])"

definition upload_limit_menu :: menu_node where
  "upload_limit_menu = (let f = set_opt ''max_upload_speed'' in
     Sub ''U/L Speed Limit'' ''x-deluge-seeding'' [f (JInt 5) ''5 KiB/s'', f (JInt 10) ''10 KiB/s'',
       f (JInt 30) ''30 KiB/s'', f (JInt 80) ''80 KiB/s'', f (JInt 300) ''300 KiB/s'', f (JInt (-1)) ''Unlimited''])"

definition connection_limit_menu :: menu_node where
  "connection_limit_menu = (let f = set_opt ''max_connections'' in
     Sub ''Connection Limit'' ''x-deluge-connections'' [f (JInt 50) ''50'', f (JInt 100) ''100'',
       f (JInt 200) ''200'', f (JInt 300) ''300'', f (JInt 500) ''500'', f (JInt (-1)) ''Unlimited''])"

definition slot_limit_menu :: menu_node where
  "slot_limit_menu = (let f = set_opt ''max_upload_slots'' in
     Sub ''Upload Slot Limit'' ''icon-upload-slots'' [f (JInt 0) ''0'', f (JInt 1) ''1'',
       f (JInt 2) ''2'', f (JInt 3) ''3'', f (JInt 5) ''5'', f (JInt (-1)) ''Unlimited''])"

definition auto_managed_menu :: menu_node where
  "auto_managed_menu = (let f = set_opt ''auto_managed'' in
     Sub ''Auto Managed'' [] [f (Bool True) ''On'', f (Bool False) ''Off''])"

definition queue_menu :: menu_node where
  "queue_menu = Sub ''Queue'' ''icon-queue''
     [Item ''Top'' ''icon-top'' (ActMethod ''queue_top''), Item ''Up'' ''icon-up'' (ActMethod ''queue_up''),
      Item ''Down'' ''icon-down'' (ActMethod ''queue_down''),
      Item ''Bottom'' ''icon-bottom'' (ActMethod ''queue_bottom'')]"

definition torrent_menu :: "menu_node list" where
  "torrent_menu =
    [Item ''Pause'' ''icon-pause'' (ActMethod ''pause_torrent''),
     Item ''Resume'' ''icon-resume'' (ActMethod ''resume_torrent''),
     Sep,
     Sub ''Options'' ''icon-options'' [download_limit_menu, upload_limit_menu, connection_limit_menu,
       slot_limit_menu, auto_managed_menu],
     Sep,
     queue_menu,
     Sep,
     Item ''Copy Magnet URI'' ''icon-magnet-copy'' (ActShow ''copy_magnet''),
     Item ''Update Tracker'' ''icon-update-tracker'' (ActMethod ''force_reannounce''),
     Item ''Edit Trackers'' ''icon-edit-trackers'' (ActShow ''edit_trackers''),
     Sep,
     Item ''Remove Torrent'' ''icon-remove'' (ActShow ''remove''),
     Sep,
     Item ''Force Recheck'' ''icon-recheck'' (ActMethod ''force_recheck''),
     Item ''Move Download Folder'' ''icon-move'' (ActShow ''move'')]"

section \<open>File priorities\<close>

text \<open>One object with both directions: numbers to names and names to numbers.\<close>

definition file_priority :: "jsval obj" where
  "file_priority = [(''0'', Str ''Skip''), (''1'', Str ''Low''), (''2'', Str ''Low''), (''3'', Str ''Low''),
     (''4'', Str ''Normal''), (''5'', Str ''High''), (''6'', Str ''High''), (''7'', Str ''High''),
     (''9'', Str ''Mixed''), (''Skip'', JInt 0), (''Low'', JInt 1), (''Normal'', JInt 4), (''High'', JInt 7),
     (''Mixed'', JInt 9)]"

definition file_priority_css :: "jsval obj" where
  "file_priority_css = [(''0'', Str ''x-no-download''), (''1'', Str ''x-low-download''), (''2'', Str ''x-low-download''),
     (''3'', Str ''x-low-download''), (''4'', Str ''x-normal-download''), (''5'', Str ''x-high-download''),
     (''6'', Str ''x-high-download''), (''7'', Str ''x-high-download''), (''9'', Str ''x-mixed-download'')]"

definition file_priorities_menu :: "menu_node list" where
  "file_priorities_menu =
    [Item ''Expand All'' ''icon-expand-all'' ActNone,
     Sep,
     Item ''Skip'' ''icon-do-not-download'' (ActPriority (oget file_priority ''Skip'')),
     Item ''Low'' ''icon-low'' (ActPriority (oget file_priority ''Low'')),
     Item ''Normal'' ''icon-normal'' (ActPriority (oget file_priority ''Normal'')),
     Item ''High'' ''icon-high'' (ActPriority (oget file_priority ''High''))]"

section \<open>State\<close>

datatype tm_effect =
    CoreCall string "string list"
  | SetTorrentOptions "string list" "jsval obj"
  | RemoveTorrents "string list option" bool
  | MoveStorage "string list option" string
  | LogRemoveErrors
  | FireTorrentsRemoved "string list option"
  | UiUpdate
  | ShowWindow string
  | OpenHelp
  | LoginLogout

record remove_window =
  rw_visible :: bool
  rw_ids :: "string list option"

record move_window =
  mw_visible :: bool
  mw_ids :: "string list option"
  mw_location :: string

record torrent_ui =
  tu_grid :: grid
  tu_remove :: remove_window
  tu_move :: move_window
  tu_toolbar :: "(string \<times> bool) list"
  tu_trace :: "tm_effect list"

definition tu_emit :: "tm_effect \<Rightarrow> torrent_ui \<Rightarrow> torrent_ui" where
  "tu_emit e s = s\<lparr> tu_trace := tu_trace s @ [e] \<rparr>"

text \<open>The items of the toolbar: text, icon, whether it is enabled at first, and its handler.\<close>

datatype tb_handler = OnAbout | OnTorrentAction | OnTorrentAdd | OnPreferences | OnConnectionManager
  | OnHelp | OnLogout

definition toolbar_items :: "(string \<times> string \<times> string \<times> bool \<times> tb_handler) list" where
  "toolbar_items =
    [(''tbar-deluge-text'', ''Deluge'', ''x-deluge-main-panel'', True, OnAbout),
     (''create'', ''Create'', ''icon-create'', False, OnTorrentAction),
     (''add'', ''Add'', ''icon-add'', False, OnTorrentAdd),
     (''remove'', ''Remove'', ''icon-remove'', False, OnTorrentAction),
     (''pause'', ''Pause'', ''icon-pause'', False, OnTorrentAction),
     (''resume'', ''Resume'', ''icon-resume'', False, OnTorrentAction),
     (''up'', ''Up'', ''icon-up'', False, OnTorrentAction),
     (''down'', ''Down'', ''icon-down'', False, OnTorrentAction),
     (''preferences'', ''Preferences'', ''x-deluge-preferences'', True, OnPreferences),
     (''connectionman'', ''Connection Manager'', ''x-deluge-connection-manager'', True, OnConnectionManager),
     (''help'', ''Help'', ''icon-help'', True, OnHelp),
     (''logout'', ''Logout'', ''icon-logout'', False, OnLogout)]"

definition toolbar_buttons :: "(string \<times> bool) list" where
  "toolbar_buttons = List.map (\<lambda>(i, t, ic, en, h). (i, en)) toolbar_items"

definition tu_new :: torrent_ui where
  "tu_new = \<lparr> tu_grid = grid_new, tu_remove = \<lparr> rw_visible = False, rw_ids = None \<rparr>,
     tu_move = \<lparr> mw_visible = False, mw_ids = None, mw_location = [] \<rparr>,
     tu_toolbar = toolbar_buttons, tu_trace = [] \<rparr>"

section \<open>The windows\<close>

definition rw_show :: "string list \<Rightarrow> torrent_ui \<Rightarrow> torrent_ui" where
  "rw_show ids s = s\<lparr> tu_remove := \<lparr> rw_visible = True, rw_ids = Some ids \<rparr> \<rparr>"

definition rw_remove :: "bool \<Rightarrow> torrent_ui \<Rightarrow> torrent_ui" where
  "rw_remove with_data s = tu_emit (RemoveTorrents (rw_ids (tu_remove s)) with_data) s"

definition rw_on_cancel :: "torrent_ui \<Rightarrow> torrent_ui" where
  "rw_on_cancel s = s\<lparr> tu_remove := \<lparr> rw_visible = False, rw_ids = None \<rparr> \<rparr>"

definition rw_on_remove :: "torrent_ui \<Rightarrow> torrent_ui" where
  "rw_on_remove s = rw_remove False s"

definition rw_on_remove_data :: "torrent_ui \<Rightarrow> torrent_ui" where
  "rw_on_remove_data s = rw_remove True s"

text \<open>The event \<open>torrentsRemoved\<close> reaches the grid; \<open>Ext.each\<close> of null does nothing.\<close>

definition rw_on_removed :: "string list option \<Rightarrow> torrent_ui \<Rightarrow> torrent_ui" where
  "rw_on_removed ids s =
     (let s = tu_emit (FireTorrentsRemoved ids) s;
          s = s\<lparr> tu_grid := (case ids of None \<Rightarrow> tu_grid s | Some is \<Rightarrow> grid_on_torrents_removed is (tu_grid s)) \<rparr>;
          s = s\<lparr> tu_remove := (tu_remove s)\<lparr> rw_visible := False \<rparr> \<rparr>
      in tu_emit UiUpdate s)"

text \<open>The reply to \<open>core.remove_torrents\<close>: the ids are those the window has by then.\<close>

definition rw_on_reply :: "jsval \<Rightarrow> torrent_ui \<Rightarrow> torrent_ui" where
  "rw_on_reply result s =
     (let s = (if loose_eq result (Bool True) then tu_emit LogRemoveErrors s else s)
      in rw_on_removed (rw_ids (tu_remove s)) s)"

definition mw_show :: "string list \<Rightarrow> torrent_ui \<Rightarrow> torrent_ui" where
  "mw_show ids s = s\<lparr> tu_move := (tu_move s)\<lparr> mw_visible := True, mw_ids := Some ids \<rparr> \<rparr>"

definition mw_hide :: "torrent_ui \<Rightarrow> torrent_ui" where
  "mw_hide s = s\<lparr> tu_move := (tu_move s)\<lparr> mw_visible := False, mw_ids := None \<rparr> \<rparr>"

definition mw_on_cancel :: "torrent_ui \<Rightarrow> torrent_ui" where
  "mw_on_cancel s = mw_hide s"

definition mw_on_move :: "torrent_ui \<Rightarrow> torrent_ui" where
  "mw_on_move s = mw_hide (tu_emit (MoveStorage (mw_ids (tu_move s)) (mw_location (tu_move s))) s)"

section \<open>The menu\<close>

definition on_action_set_opt :: "string \<Rightarrow> jsval \<Rightarrow> torrent_ui \<Rightarrow> torrent_ui" where
  "on_action_set_opt opt v s = tu_emit (SetTorrentOptions (grid_get_selected_ids (tu_grid s)) [(opt, v)]) s"

definition on_action_method :: "string \<Rightarrow> torrent_ui \<Rightarrow> torrent_ui" where
  "on_action_method m s = tu_emit (CoreCall m (grid_get_selected_ids (tu_grid s))) s"

text \<open>The reply to a method, also for the buttons of the toolbar.\<close>

definition on_action_done :: "torrent_ui \<Rightarrow> torrent_ui" where
  "on_action_done s = tu_emit UiUpdate s"

definition on_action_show :: "string \<Rightarrow> torrent_ui \<Rightarrow> torrent_ui" where
  "on_action_show a s = (let ids = grid_get_selected_ids (tu_grid s) in
     if a = ''copy_magnet'' then tu_emit (ShowWindow ''copyMagnetWindow'') s
     else if a = ''edit_trackers'' then tu_emit (ShowWindow ''editTrackers'') s
     else if a = ''remove'' then rw_show ids s
     else if a = ''move'' then mw_show ids s
     else s)"

definition menu_click :: "torrent_action \<Rightarrow> torrent_ui \<Rightarrow> torrent_ui" where
  "menu_click a s = (case a of ActMethod m \<Rightarrow> on_action_method m s | ActSetOpt opt v \<Rightarrow> on_action_set_opt opt v s
     | ActShow w \<Rightarrow> on_action_show w s | ActPriority p \<Rightarrow> s | ActNone \<Rightarrow> s)"

section \<open>The toolbar\<close>

definition connected_buttons :: "string list" where
  "connected_buttons = [''add'', ''remove'', ''pause'', ''resume'', ''up'', ''down'']"

definition enable_button :: "bool \<Rightarrow> string \<Rightarrow> torrent_ui \<Rightarrow> torrent_ui" where
  "enable_button b i s = s\<lparr> tu_toolbar := put i b (tu_toolbar s) \<rparr>"

definition tb_on_connect :: "torrent_ui \<Rightarrow> torrent_ui" where
  "tb_on_connect s = each_do (enable_button True) connected_buttons s"

definition tb_on_disconnect :: "torrent_ui \<Rightarrow> torrent_ui" where
  "tb_on_disconnect s = each_do (enable_button False) connected_buttons s"

definition tb_on_login :: "torrent_ui \<Rightarrow> torrent_ui" where
  "tb_on_login s = enable_button True ''logout'' s"

definition tb_on_logout :: "torrent_ui \<Rightarrow> torrent_ui" where
  "tb_on_logout s = tu_emit LoginLogout (enable_button False ''logout'' s)"

definition tb_on_connection_manager_click :: "torrent_ui \<Rightarrow> torrent_ui" where
  "tb_on_connection_manager_click s = tu_emit (ShowWindow ''connectionManager'') s"

definition tb_on_help_click :: "torrent_ui \<Rightarrow> torrent_ui" where
  "tb_on_help_click s = tu_emit OpenHelp s"

definition tb_on_about_click :: "torrent_ui \<Rightarrow> torrent_ui" where
  "tb_on_about_click s = tu_emit (ShowWindow ''about'') s"

definition tb_on_preferences_click :: "torrent_ui \<Rightarrow> torrent_ui" where
  "tb_on_preferences_click s = tu_emit (ShowWindow ''preferences'') s"

definition tb_on_torrent_action :: "string \<Rightarrow> torrent_ui \<Rightarrow> torrent_ui" where
  "tb_on_torrent_action i s =
     (let ids = each_do (\<lambda>r ids. ids @ [fst r]) (grid_get_selections (tu_grid s)) [] in
      if i = ''remove'' then rw_show ids s
      else if i = ''pause'' \<or> i = ''resume'' then tu_emit (CoreCall (i @ ''_torrent'') ids) s
      else if i = ''up'' \<or> i = ''down'' then tu_emit (CoreCall (''queue_'' @ i) ids) s
      else s)"

definition tb_on_torrent_add :: "torrent_ui \<Rightarrow> torrent_ui" where
  "tb_on_torrent_add s = tu_emit (ShowWindow ''add'') s"

definition tb_handle :: "tb_handler \<Rightarrow> string \<Rightarrow> torrent_ui \<Rightarrow> torrent_ui" where
  "tb_handle h i s = (case h of OnAbout \<Rightarrow> tb_on_about_click s | OnTorrentAction \<Rightarrow> tb_on_torrent_action i s
     | OnTorrentAdd \<Rightarrow> tb_on_torrent_add s | OnPreferences \<Rightarrow> tb_on_preferences_click s
     | OnConnectionManager \<Rightarrow> tb_on_connection_manager_click s | OnHelp \<Rightarrow> tb_on_help_click s
     | OnLogout \<Rightarrow> tb_on_logout s)"

text \<open>A click on a button: a disabled one does nothing.\<close>

definition tb_click :: "string \<Rightarrow> torrent_ui \<Rightarrow> torrent_ui" where
  "tb_click i s = (case (map_of toolbar_items i, map_of (tu_toolbar s) i) of
     (Some (t, ic, en, h), Some True) \<Rightarrow> tb_handle h i s | _ \<Rightarrow> s)"

section \<open>Properties\<close>

lemma tu_emit_state [simp]: "tu_grid (tu_emit e s) = tu_grid s" "tu_remove (tu_emit e s) = tu_remove s"
  "tu_move (tu_emit e s) = tu_move s" "tu_toolbar (tu_emit e s) = tu_toolbar s" "tu_trace (tu_emit e s) = tu_trace s @ [e]"
  by (simp_all add: tu_emit_def)

lemma each_do_collect: "each_do (\<lambda>r xs. xs @ [f r]) rs xs = xs @ List.map f rs"
  by (induction rs arbitrary: xs) simp_all

lemma selected_ids_eq: "grid_get_selected_ids g = List.map fst (grid_get_selections g)"
proof -
  have "(\<lambda>(i, d) ids. ids @ [i]) = (\<lambda>r ids. ids @ [fst (r :: string \<times> jsval obj)])" by (simp add: fun_eq_iff)
  then show ?thesis using each_do_collect[of fst "grid_get_selections g" "[]"] by (simp add: grid_get_selected_ids_def)
qed

text \<open>All items of a menu, those of its submenus included.\<close>

fun menu_items :: "menu_node \<Rightarrow> (string \<times> torrent_action) list" where
  "menu_items (Item t i a) = [(t, a)]"
| "menu_items (Sub t i ns) = concat (List.map menu_items ns)"
| "menu_items Sep = []"

text \<open>The buttons that act on torrents, and the label and action of their items.\<close>

definition toolbar_actions :: "(string \<times> string \<times> torrent_action) list" where
  "toolbar_actions = [(''pause'', ''Pause'', ActMethod ''pause_torrent''),
     (''resume'', ''Resume'', ActMethod ''resume_torrent''), (''up'', ''Up'', ActMethod ''queue_up''),
     (''down'', ''Down'', ActMethod ''queue_down''), (''remove'', ''Remove Torrent'', ActShow ''remove'')]"

lemma toolbar_labels: "list_all (\<lambda>(i, t, a). (t, a) \<in> set (concat (List.map menu_items torrent_menu))) toolbar_actions"
  by code_simp

lemma toolbar_agrees_with_menu_parts:
  assumes "(i, t, a) \<in> set toolbar_actions"
  shows "(t, a) \<in> set (concat (List.map menu_items torrent_menu))"
    and "tb_on_torrent_action i s = menu_click a s"
proof -
  show "(t, a) \<in> set (concat (List.map menu_items torrent_menu))"
    using toolbar_labels assms unfolding list_all_iff by fast
  have ids: "each_do (\<lambda>r ids. ids @ [fst r]) (grid_get_selections (tu_grid s)) [] = grid_get_selected_ids (tu_grid s)"
    by (simp add: each_do_collect selected_ids_eq)
  have "list_all (\<lambda>(i, t, a). tb_on_torrent_action i s = menu_click a s) toolbar_actions"
    by (simp add: toolbar_actions_def menu_click_def tb_on_torrent_action_def on_action_method_def
        on_action_show_def Let_def ids)
  then show "tb_on_torrent_action i s = menu_click a s" using assms unfolding list_all_iff by fast
qed

text \<open>C17: A button of the toolbar does to the selected torrents what the item of the same name of the
  context menu does.\<close>

theorem toolbar_agrees_with_menu:
  assumes "(i, t, a) \<in> set toolbar_actions"
  shows "(t, a) \<in> set (concat (List.map menu_items torrent_menu))
    \<and> tb_on_torrent_action i s = menu_click a s"
  by (intro conjI toolbar_agrees_with_menu_parts[OF assms])

theorem toolbar_agrees_with_menu_witness:
  "tb_on_torrent_action ''pause'' tu_new = menu_click (ActMethod ''pause_torrent'') tu_new"
  by (rule toolbar_agrees_with_menu[of _ "''Pause''", THEN conjunct2]) (simp add: toolbar_actions_def)

lemma removed_rows: "g_rows (grid_on_torrents_removed ids g) = each_do del ids (g_rows g)"
  unfolding grid_on_torrents_removed_def by (induction ids arbitrary: g) simp_all

lemma lookup_each_del: "map_of (each_do del ids ob) i = (if i \<in> set ids then None else map_of ob i)"
  by (induction ids arbitrary: ob) (auto simp: lookup_del)

lemma remove_takes_rows_parts:
  assumes "s1 = rw_on_reply r (rw_remove b (rw_show ids s))"
  shows "map_of (g_rows (tu_grid s1)) i = (if i \<in> set ids then None else map_of (g_rows (tu_grid s)) i)"
    and "\<not> rw_visible (tu_remove s1)"
    and "\<exists>es. tu_trace s1 = tu_trace s @ [RemoveTorrents (Some ids) b] @ es @ [FireTorrentsRemoved (Some ids), UiUpdate]"
  by (simp_all add: assms rw_on_reply_def rw_on_removed_def rw_remove_def rw_show_def Let_def removed_rows
      lookup_each_del)

text \<open>Removing the torrents a window was shown for takes exactly their rows out of the grid, hides
  the window and polls, when the reply comes while the window still is for them.\<close>

theorem remove_takes_rows:
  assumes "s1 = rw_on_reply r (rw_remove b (rw_show ids s))"
  shows "map_of (g_rows (tu_grid s1)) i = (if i \<in> set ids then None else map_of (g_rows (tu_grid s)) i)
    \<and> \<not> rw_visible (tu_remove s1)
    \<and> (\<exists>es. tu_trace s1 = tu_trace s @ [RemoveTorrents (Some ids) b] @ es @ [FireTorrentsRemoved (Some ids), UiUpdate])"
  by (intro conjI remove_takes_rows_parts[OF assms])

theorem remove_takes_rows_witness:
  "map_of (g_rows (tu_grid (rw_on_reply (Arr 0 []) (rw_remove True (rw_show [''a'']
     (tu_new\<lparr> tu_grid := grid_new\<lparr> g_rows := [(''a'', []), (''b'', [])] \<rparr> \<rparr>)))))) ''b'' = Some []"
  by (simp add: remove_takes_rows[OF refl, THEN conjunct1])

lemma remove_late_reply_takes_other_rows_parts:
  assumes "s1 = rw_on_reply r (rw_show ids' (rw_on_cancel (rw_remove b (rw_show ids s))))"
  shows "map_of (g_rows (tu_grid s1)) i = (if i \<in> set ids' then None else map_of (g_rows (tu_grid s)) i)"
    and "\<not> rw_visible (tu_remove s1)"
  by (simp_all add: assms rw_on_reply_def rw_on_removed_def rw_remove_def rw_show_def rw_on_cancel_def Let_def
      removed_rows lookup_each_del)

text \<open>A reply that comes after the window was cancelled and shown for other torrents takes the rows
  of those out of the grid, which were not removed, and hides the window before it is answered.\<close>

theorem remove_late_reply_takes_other_rows:
  assumes "s1 = rw_on_reply r (rw_show ids' (rw_on_cancel (rw_remove b (rw_show ids s))))"
  shows "map_of (g_rows (tu_grid s1)) i = (if i \<in> set ids' then None else map_of (g_rows (tu_grid s)) i)
    \<and> \<not> rw_visible (tu_remove s1)"
  by (intro conjI remove_late_reply_takes_other_rows_parts[OF assms])

theorem remove_late_reply_takes_other_rows_witness:
  "map_of (g_rows (tu_grid (rw_on_reply (Arr 0 []) (rw_show [''b''] (rw_on_cancel (rw_remove True (rw_show [''a'']
     (tu_new\<lparr> tu_grid := grid_new\<lparr> g_rows := [(''a'', []), (''b'', [])] \<rparr> \<rparr>)))))))) ''b'' = None"
  by (simp add: remove_late_reply_takes_other_rows[OF refl, THEN conjunct1])

text \<open>The names of the priorities and their numbers are inverse to each other, and every priority of
  libtorrent has a name and a style.\<close>

theorem file_priority_names:
  "\<forall>n \<in> {''Skip'', ''Low'', ''Normal'', ''High'', ''Mixed''}. oget file_priority (to_str (oget file_priority n)) = Str n"
  "\<forall>p \<in> {0, 1, 2, 3, 4, 5, 6, 7, 9}. (\<exists>n \<in> {''Skip'', ''Low'', ''Normal'', ''High'', ''Mixed''}.
     oget file_priority (to_str (JInt p)) = Str n) \<and> oget file_priority_css (to_str (JInt p)) \<noteq> Undef"
  by (code_simp+)

end
