(* ===== verification/Trackers.thy ===== *)
theory Trackers
  imports JSValue "HOL-Library.Multiset"
begin

text \<open>
  The windows that edit the trackers of a torrent (EditTrackersWindow.js,
  AddTrackerWindow.js, EditTrackerWindow.js). The rows carry the identity of their
  record; requests and the sub-windows are the trace.
\<close>

section \<open>Addresses of trackers\<close>

definition is_word :: "char \<Rightarrow> bool" where
  "is_word c = (let n = (of_char c :: int) in
     48 \<le> n \<and> n \<le> 57 \<or> 65 \<le> n \<and> n \<le> 90 \<or> 97 \<le> n \<and> n \<le> 122 \<or> n = 95)"

definition is_label :: "char \<Rightarrow> bool" where
  "is_label c = (c = CHR ''-'' \<or> is_word c)"

text \<open>\<open>([\-\w]+\.)+\w{2,3}\<close> at the beginning of a string; everything the pattern says after that is optional.\<close>

function host_match :: "string \<Rightarrow> bool" where
  "host_match s = (let r = dropWhile is_label s in
     if takeWhile is_label s \<noteq> [] \<and> r \<noteq> [] \<and> hd r = CHR ''.''
     then (if 2 \<le> length (takeWhile is_word (tl r)) then True else host_match (tl r)) else False)"
  by pat_completeness auto

lemma length_dropWhile_tl: "dropWhile P s \<noteq> [] \<Longrightarrow> length (tl (dropWhile P s)) < length s"
  using length_dropWhile_le[of P s] by (cases "dropWhile P s") auto

termination host_match
  by (relation "measure length") (auto simp: length_dropWhile_tl simp del: length_tl)

declare host_match.simps [simp del]

definition tracker_url :: "string \<Rightarrow> bool" where
  "tracker_url s = list_ex (\<lambda>p. lower (take (length p) s) = p \<and> host_match (drop (length p) s))
     [''http://'', ''https://'', ''udp://'']"

section \<open>The windows\<close>

record tracker =
  tr_uid :: nat
  tr_tier :: int
  tr_url :: string

datatype tracker_effect =
    ReqTrackers string
  | SetTrackers string "(int \<times> string) list"
  | ShowAdd
  | ShowEdit nat

record trackers_window =
  tw_rows :: "tracker list"
  tw_next :: nat
  tw_sel :: "nat option"
  tw_edit_on :: bool
  tw_torrent :: string
  tw_visible :: bool
  tw_trace :: "tracker_effect list"

definition tw_emit :: "tracker_effect \<Rightarrow> trackers_window \<Rightarrow> trackers_window" where
  "tw_emit e w = w\<lparr> tw_trace := tw_trace w @ [e] \<rparr>"

definition tw_selected :: "trackers_window \<Rightarrow> tracker option" where
  "tw_selected w = (case tw_sel w of None \<Rightarrow> None
     | Some u \<Rightarrow> List.find (\<lambda>r. tr_uid r = u) (tw_rows w))"

text \<open>A selection enables Edit. A view that is refreshed loses its selection.\<close>

definition tw_on_select :: "trackers_window \<Rightarrow> trackers_window" where
  "tw_on_select w = (if tw_sel w \<noteq> None then w\<lparr> tw_edit_on := True \<rparr> else w)"

definition tw_select :: "nat \<Rightarrow> trackers_window \<Rightarrow> trackers_window" where
  "tw_select u w = tw_on_select (w\<lparr> tw_sel := Some u \<rparr>)"

definition tw_set_rows :: "tracker list \<Rightarrow> trackers_window \<Rightarrow> trackers_window" where
  "tw_set_rows rs w = w\<lparr> tw_rows := rs, tw_sel := None \<rparr>"

text \<open>\<open>getSelected\<close> of the grid is \<open>None\<close> when no torrent is selected, and reading its id fails.\<close>

definition tw_on_show :: "string option \<Rightarrow> trackers_window \<Rightarrow> trackers_window result" where
  "tw_on_show sel w = (let w = w\<lparr> tw_edit_on := False \<rparr> in
     case sel of None \<Rightarrow> Inl TypeError | Some i \<Rightarrow> Inr (tw_emit (ReqTrackers i) (w\<lparr> tw_torrent := i \<rparr>)))"

definition tw_on_request_complete :: "(int \<times> string) list \<Rightarrow> trackers_window \<Rightarrow> trackers_window" where
  "tw_on_request_complete ts w =
     (let rows = List.map (\<lambda>(u, t, url). \<lparr> tr_uid = u, tr_tier = t, tr_url = url \<rparr>) (zip [tw_next w ..< tw_next w + length ts] ts)
      in tw_set_rows (sort_key tr_tier rows) (w\<lparr> tw_next := tw_next w + length ts \<rparr>))"

definition tw_on_add_click :: "trackers_window \<Rightarrow> trackers_window" where
  "tw_on_add_click w = tw_emit ShowAdd w"

text \<open>The loop over the store for one new tracker: the highest tier and whether it is there already. The
  records are asked for a field \<open>tracker\<close>, which they do not have.\<close>

definition tracker_field :: "tracker \<Rightarrow> string \<Rightarrow> jsval" where
  "tracker_field r k = (if k = ''tier'' then JInt (tr_tier r) else if k = ''url'' then Str (tr_url r) else Undef)"

fun scan_tiers :: "string \<Rightarrow> tracker list \<Rightarrow> int \<Rightarrow> int \<times> bool" where
  "scan_tiers t [] h = (h, False)"
| "scan_tiers t (r # rs) h = (let h' = (if h < tr_tier r then tr_tier r else h) in
     if loose_eq (Str t) (tracker_field r ''tracker'') then (h', True) else scan_tiers t rs h')"

definition tw_add_tracker :: "string \<Rightarrow> trackers_window \<Rightarrow> trackers_window" where
  "tw_add_tracker t w = (case scan_tiers t (tw_rows w) (-1) of (h, duplicate) \<Rightarrow>
     if duplicate then w
     else w\<lparr> tw_rows := tw_rows w @ [\<lparr> tr_uid = tw_next w, tr_tier = h + 1, tr_url = t \<rparr>], tw_next := tw_next w + 1 \<rparr>)"

definition tw_on_add_trackers :: "string list \<Rightarrow> trackers_window \<Rightarrow> trackers_window" where
  "tw_on_add_trackers ts w = each_do tw_add_tracker ts w"

definition tw_hide :: "trackers_window \<Rightarrow> trackers_window" where
  "tw_hide w = (if tw_visible w then tw_set_rows [] (w\<lparr> tw_visible := False \<rparr>) else w)"

definition tw_on_cancel_click :: "trackers_window \<Rightarrow> trackers_window" where
  "tw_on_cancel_click w = tw_hide w"

definition tw_on_edit_click :: "trackers_window \<Rightarrow> trackers_window" where
  "tw_on_edit_click w = (case tw_selected w of None \<Rightarrow> w | Some r \<Rightarrow> tw_emit (ShowEdit (tr_uid r)) w)"

definition tw_on_ok_click :: "trackers_window \<Rightarrow> trackers_window" where
  "tw_on_ok_click w = tw_hide (tw_emit (SetTrackers (tw_torrent w)
     (List.map (\<lambda>r. (tr_tier r, tr_url r)) (tw_rows w))) w)"

definition tw_on_remove_click :: "trackers_window \<Rightarrow> trackers_window" where
  "tw_on_remove_click w = (case tw_selected w of None \<Rightarrow> w
     | Some r \<Rightarrow> tw_on_select (w\<lparr> tw_rows := List.filter (\<lambda>q. tr_uid q \<noteq> tr_uid r) (tw_rows w), tw_sel := None \<rparr>))"

definition set_tier :: "nat \<Rightarrow> int \<Rightarrow> tracker list \<Rightarrow> tracker list" where
  "set_tier u t rs = List.map (\<lambda>q. if tr_uid q = u then q\<lparr> tr_tier := t \<rparr> else q) rs"

definition tw_move :: "tracker \<Rightarrow> int \<Rightarrow> trackers_window \<Rightarrow> trackers_window" where
  "tw_move r t w = tw_select (tr_uid r)
     (tw_set_rows (sort_key tr_tier (set_tier (tr_uid r) t (tw_rows w))) w)"

definition tw_on_down_click :: "trackers_window \<Rightarrow> trackers_window" where
  "tw_on_down_click w = (case tw_selected w of None \<Rightarrow> w | Some r \<Rightarrow> tw_move r (tr_tier r + 1) w)"

definition tw_on_up_click :: "trackers_window \<Rightarrow> trackers_window" where
  "tw_on_up_click w = (case tw_selected w of None \<Rightarrow> w
     | Some r \<Rightarrow> if tr_tier r = 0 then w else tw_move r (tr_tier r - 1) w)"

subsection \<open>Adding and editing\<close>

fun split_lines :: "string \<Rightarrow> string list" where
  "split_lines [] = [[]]"
| "split_lines (c # cs) = (if of_char c = (10 :: int) then [] # split_lines cs
     else (case split_lines cs of [] \<Rightarrow> [[c]] | l # ls \<Rightarrow> (c # l) # ls))"

text \<open>The trackers the add window fires \<open>add\<close> with; its text is then emptied.\<close>

definition at_on_add_click :: "string \<Rightarrow> string list" where
  "at_on_add_click txt = each_do (\<lambda>t cleaned. if tracker_url t then cleaned @ [t] else cleaned) (split_lines txt) []"

record edit_tracker =
  ed_record :: "nat option"
  ed_text :: string
  ed_visible :: bool

definition ed_show :: "tracker \<Rightarrow> edit_tracker \<Rightarrow> edit_tracker" where
  "ed_show r e = e\<lparr> ed_record := Some (tr_uid r), ed_text := tr_url r, ed_visible := True \<rparr>"

definition ed_on_hide :: "edit_tracker \<Rightarrow> edit_tracker" where
  "ed_on_hide e = e\<lparr> ed_text := [] \<rparr>"

definition ed_on_cancel_click :: "edit_tracker \<Rightarrow> edit_tracker" where
  "ed_on_cancel_click e = (if ed_visible e then ed_on_hide (ed_on_hide (e\<lparr> ed_visible := False \<rparr>)) else e)"

definition ed_on_save_click :: "edit_tracker \<Rightarrow> trackers_window \<Rightarrow> edit_tracker \<times> trackers_window" where
  "ed_on_save_click e w = (ed_on_cancel_click e, w\<lparr> tw_rows := List.map
     (\<lambda>r. if Some (tr_uid r) = ed_record e then r\<lparr> tr_url := ed_text e \<rparr> else r) (tw_rows w) \<rparr>)"

section \<open>Properties\<close>

definition tw_ok :: "trackers_window \<Rightarrow> bool" where
  "tw_ok w = (distinct (List.map tr_uid (tw_rows w)) \<and> (\<forall>r \<in> set (tw_rows w). tr_uid r < tw_next w))"

lemma scan_tiers_eq: "scan_tiers t rs h = (Max (insert h (tr_tier ` set rs)), False)"
proof (induction rs arbitrary: h)
  case (Cons r rs)
  have "Max (insert h (tr_tier ` set (r # rs))) = Max (insert (if h < tr_tier r then tr_tier r else h) (tr_tier ` set rs))"
    by (cases "rs = []") (auto simp: max_def insert_commute[of h])
  then show ?case using Cons by (simp add: tracker_field_def loose_eq_def Let_def)
qed simp

text \<open>Adding a tracker never finds it in the list: the record is asked for a field it does not have,
  so the tracker is appended, one tier above the highest, even when it is there already.\<close>

theorem add_tracker_keeps_duplicates:
  "List.map tr_url (tw_rows (tw_on_add_trackers ts w)) = List.map tr_url (tw_rows w) @ ts"
proof -
  have one: "List.map tr_url (tw_rows (tw_add_tracker t w)) = List.map tr_url (tw_rows w) @ [t]" for t w
    by (simp add: tw_add_tracker_def scan_tiers_eq)
  show ?thesis unfolding tw_on_add_trackers_def by (induction ts arbitrary: w) (simp_all add: one)
qed

lemma find_tracker: "List.find (\<lambda>r. tr_uid r = u) rs = Some r \<Longrightarrow> r \<in> set rs \<and> tr_uid r = u"
  by (induction rs) (auto split: if_splits)

lemma find_uid: "distinct (List.map tr_uid rs) \<Longrightarrow> r \<in> set rs \<Longrightarrow> List.find (\<lambda>q. tr_uid q = tr_uid r) rs = Some r"
  by (induction rs) (auto simp: image_iff)

lemma set_tier_keys: "List.map tr_uid (set_tier u t rs) = List.map tr_uid rs"
  "List.map tr_url (set_tier u t rs) = List.map tr_url rs"
  by (auto simp: set_tier_def)

lemma mset_map_sort_key: "mset (List.map f (sort_key k xs)) = mset (List.map f xs)"
  by (metis mset_map mset_sort)

lemma tracker_moves_parts:
  assumes "tw_ok w" and "tw_selected w = Some r" and "(w', t) \<in> {(tw_on_down_click w, tr_tier r + 1),
      (tw_on_up_click w, if tr_tier r = 0 then 0 else tr_tier r - 1)}" and "sorted (List.map tr_tier (tw_rows w))"
  shows "sorted (List.map tr_tier (tw_rows w'))"
    and "set (tw_rows w') = (\<lambda>q. if tr_uid q = tr_uid r then q\<lparr> tr_tier := t \<rparr> else q) ` set (tw_rows w)"
    and "tw_ok w'" and "tw_selected w' = Some (r\<lparr> tr_tier := t \<rparr>)"
proof -
  have r: "r \<in> set (tw_rows w)" "tw_sel w = Some (tr_uid r)"
    using assms(2) by (auto simp: tw_selected_def split: option.splits dest: find_tracker)
  have same: "(\<lambda>q. if tr_uid q = tr_uid r then q\<lparr> tr_tier := tr_tier r \<rparr> else q) ` set (tw_rows w) = set (tw_rows w)"
  proof -
    have "(if tr_uid q = tr_uid r then q\<lparr> tr_tier := tr_tier r \<rparr> else q) = q" if "q \<in> set (tw_rows w)" for q
      using that r(1) assms(1) by (auto simp: tw_ok_def distinct_map dest: inj_onD)
    then show ?thesis by simp
  qed
  have moved: "sorted (List.map tr_tier (tw_rows (tw_move r t w)))
    \<and> set (tw_rows (tw_move r t w)) = (\<lambda>q. if tr_uid q = tr_uid r then q\<lparr> tr_tier := t \<rparr> else q) ` set (tw_rows w)
    \<and> tw_ok (tw_move r t w) \<and> tw_selected (tw_move r t w) = Some (r\<lparr> tr_tier := t \<rparr>)"
  proof -
    let ?rs = "sort_key tr_tier (set_tier (tr_uid r) t (tw_rows w))"
    have rs: "tw_rows (tw_move r t w) = ?rs" "tw_sel (tw_move r t w) = Some (tr_uid r)" "tw_next (tw_move r t w) = tw_next w"
      by (simp_all add: tw_move_def tw_select_def tw_on_select_def tw_set_rows_def)
    have d: "distinct (List.map tr_uid ?rs)"
      using assms(1) set_tier_keys(1)[of "tr_uid r" t "tw_rows w"] mset_map_sort_key[of tr_uid tr_tier]
      by (metis mset_eq_imp_distinct_iff tw_ok_def)
    have s: "set ?rs = (\<lambda>q. if tr_uid q = tr_uid r then q\<lparr> tr_tier := t \<rparr> else q) ` set (tw_rows w)"
      by (simp add: set_tier_def)
    have "r\<lparr> tr_tier := t \<rparr> \<in> set ?rs" unfolding s using r(1) by (auto intro!: image_eqI[of _ _ r])
    then have "List.find (\<lambda>q. tr_uid q = tr_uid r) ?rs = Some (r\<lparr> tr_tier := t \<rparr>)"
      using find_uid[OF d] by fastforce
    then show ?thesis using d s rs assms(1) by (auto simp: tw_selected_def tw_ok_def)
  qed
  show "sorted (List.map tr_tier (tw_rows w'))"
    "set (tw_rows w') = (\<lambda>q. if tr_uid q = tr_uid r then q\<lparr> tr_tier := t \<rparr> else q) ` set (tw_rows w)"
    "tw_ok w'" "tw_selected w' = Some (r\<lparr> tr_tier := t \<rparr>)"
    using assms moved same by (auto simp: tw_on_down_click_def tw_on_up_click_def split: if_splits)
qed

text \<open>Up and Down change the tier of the selected tracker by one, not below 0, and nothing else of any
  tracker; afterwards the list is sorted by tier and the tracker is still the selected one.\<close>

theorem tracker_moves:
  assumes "tw_ok w" and "tw_selected w = Some r" and "(w', t) \<in> {(tw_on_down_click w, tr_tier r + 1),
      (tw_on_up_click w, if tr_tier r = 0 then 0 else tr_tier r - 1)}" and "sorted (List.map tr_tier (tw_rows w))"
  shows "sorted (List.map tr_tier (tw_rows w'))
    \<and> set (tw_rows w') = (\<lambda>q. if tr_uid q = tr_uid r then q\<lparr> tr_tier := t \<rparr> else q) ` set (tw_rows w)
    \<and> tw_ok w'
    \<and> tw_selected w' = Some (r\<lparr> tr_tier := t \<rparr>)"
  by (intro conjI tracker_moves_parts[OF assms])

definition two_trackers :: trackers_window where
  "two_trackers = tw_select 1 (tw_on_request_complete [(0, ''http://a.org/x''), (1, ''udp://b.org:80'')]
     \<lparr> tw_rows = [], tw_next = 0, tw_sel = None, tw_edit_on = False, tw_torrent = ''t'', tw_visible = True, tw_trace = [] \<rparr>)"

theorem tracker_moves_witness:
  "sorted (List.map tr_tier (tw_rows (tw_on_up_click two_trackers)))
    \<and> tw_selected (tw_on_up_click two_trackers) = Some \<lparr> tr_uid = 1, tr_tier = 0, tr_url = ''udp://b.org:80'' \<rparr>"
proof -
  let ?r = "\<lparr> tr_uid = 1, tr_tier = 1, tr_url = ''udp://b.org:80'' \<rparr>"
  have "distinct (List.map tr_uid (tw_rows two_trackers))" "\<forall>r \<in> set (tw_rows two_trackers). tr_uid r < tw_next two_trackers"
    and s: "tw_selected two_trackers = Some ?r" and o: "sorted (List.map tr_tier (tw_rows two_trackers))" by (code_simp+)
  then have k: "tw_ok two_trackers" by (simp add: tw_ok_def)
  have m: "(tw_on_up_click two_trackers, 0) \<in> {(tw_on_down_click two_trackers, tr_tier ?r + 1),
      (tw_on_up_click two_trackers, if tr_tier ?r = 0 then 0 else tr_tier ?r - 1)}" by simp
  show ?thesis using tracker_moves[OF k s m o] by simp
qed

text \<open>The test of an address wants a host name with a dot and two letters or digits after one of its
  dots: \<open>localhost\<close>, IPv6 addresses and some IPv4 addresses are dropped without a message.\<close>

theorem add_window_drops_hosts:
  "at_on_add_click ''http://tracker.org/announce'' = [''http://tracker.org/announce'']"
  "at_on_add_click ''http://localhost:6969/announce'' = []"
  "at_on_add_click ''udp://10.0.0.1:80'' = []"
  "at_on_add_click ''http://[::1]:6969/announce'' = []"
  by (code_simp+)

lemma trackers_ok_sends_list_parts:
  assumes "tw_visible w" and "tw_on_show (Some i) w = Inr w0" and "w1 = tw_on_add_trackers ts (tw_on_request_complete us w0)"
  shows "tw_trace (tw_on_ok_click w1) = tw_trace w1 @ [SetTrackers i (List.map (\<lambda>r. (tr_tier r, tr_url r)) (tw_rows w1))]"
    and "tw_rows (tw_on_ok_click w1) = []" and "mset (List.map tr_url (tw_rows w1)) = mset (List.map snd us) + mset ts"
proof -
  have frame: "tw_torrent (tw_on_add_trackers ts v) = tw_torrent v \<and> tw_visible (tw_on_add_trackers ts v) = tw_visible v" for v
    unfolding tw_on_add_trackers_def
    by (induction ts arbitrary: v) (auto simp: tw_add_tracker_def split: prod.splits)
  have w0: "w0 = tw_emit (ReqTrackers i) (w\<lparr> tw_edit_on := False, tw_torrent := i \<rparr>)"
    using assms(2) by (simp add: tw_on_show_def Let_def)
  have w1: "tw_torrent w1 = i" "tw_visible w1"
    using assms(1) by (simp_all add: assms(3) frame w0 Let_def tw_on_request_complete_def tw_set_rows_def tw_emit_def)
  then show "tw_trace (tw_on_ok_click w1) = tw_trace w1 @ [SetTrackers i (List.map (\<lambda>r. (tr_tier r, tr_url r)) (tw_rows w1))]"
    "tw_rows (tw_on_ok_click w1) = []"
    by (simp_all add: tw_on_ok_click_def tw_hide_def tw_emit_def tw_set_rows_def)
  have "List.map tr_url (List.map (\<lambda>(u, t, url). \<lparr> tr_uid = u, tr_tier = t, tr_url = url \<rparr>) (zip us' us)) = List.map snd us"
    if "length us' = length us" for us' :: "nat list"
    using that by (induction us' us rule: list_induct2) auto
  then have "mset (List.map tr_url (tw_rows (tw_on_request_complete us w0))) = mset (List.map snd us)"
    by (simp add: tw_on_request_complete_def tw_set_rows_def Let_def mset_map_sort_key del: mset_map map_map)
  then show "mset (List.map tr_url (tw_rows w1)) = mset (List.map snd us) + mset ts"
    unfolding assms(3) add_tracker_keeps_duplicates by (simp del: mset_map)
qed

text \<open>OK sends the trackers of the list, tier and address, in the order of the list, for the torrent
  the window was shown for, and empties the list.\<close>

theorem trackers_ok_sends_list:
  assumes "tw_visible w" and "tw_on_show (Some i) w = Inr w0" and "w1 = tw_on_add_trackers ts (tw_on_request_complete us w0)"
  shows "tw_trace (tw_on_ok_click w1) = tw_trace w1 @ [SetTrackers i (List.map (\<lambda>r. (tr_tier r, tr_url r)) (tw_rows w1))]
    \<and> tw_rows (tw_on_ok_click w1) = []
    \<and> mset (List.map tr_url (tw_rows w1)) = mset (List.map snd us) + mset ts"
  by (intro conjI trackers_ok_sends_list_parts[OF assms])

theorem trackers_ok_sends_list_witness:
  "tw_rows (tw_on_ok_click (tw_on_add_trackers [''b''] (tw_on_request_complete [(0, ''a'')]
    (tw_emit (ReqTrackers ''t'') (two_trackers\<lparr> tw_edit_on := False, tw_torrent := ''t'' \<rparr>))))) = []"
  by (rule trackers_ok_sends_list[OF _ _ refl, of two_trackers "''t''", THEN conjunct2, THEN conjunct1])
    (simp_all add: tw_on_show_def two_trackers_def tw_select_def tw_on_select_def tw_on_request_complete_def tw_set_rows_def)

end
