(* ===== verification/FileTree.thy ===== *)
theory FileTree
  imports JSValue
begin

text \<open>
  The trees of files the interface shows: what the server sends (\<open>entry\<close>), the nodes of
  the tree widget (\<open>node\<close>), the walks over both, and arrays that are written by index.
  Two components build on it: the files of a torrent to be added and the files of the
  details.
\<close>

section \<open>Arrays written by index\<close>

text \<open>\<open>a[i] = v\<close> for an index \<open>i\<close> that is not negative: the array grows, the holes are undefined.\<close>

function arr_put :: "int \<Rightarrow> jsval \<Rightarrow> jsval list \<Rightarrow> jsval list" where
  "arr_put i v [] = (if i \<le> 0 then [v] else Undef # arr_put (i - 1) v [])"
| "arr_put i v (x # xs) = (if i \<le> 0 then v # xs else x # arr_put (i - 1) v xs)"
  by pat_completeness auto

termination arr_put
  by (relation "measure (\<lambda>(i, v, xs). nat i + length xs)") auto

fun arr_at :: "int \<Rightarrow> jsval list \<Rightarrow> jsval" where
  "arr_at i [] = Undef"
| "arr_at i (x # xs) = (if i = 0 then x else arr_at (i - 1) xs)"

lemma arr_at_put [simp]:
  assumes "0 \<le> i" and "0 \<le> j"
  shows "arr_at j (arr_put i v xs) = (if j = i then v else arr_at j xs)"
proof -
  have neg: "arr_at k ys = Undef" if "k < 0" for k ys
    using that by (induction k ys rule: arr_at.induct) auto
  show ?thesis
    using assms
  proof (induction i v xs arbitrary: j rule: arr_put.induct)
    case (1 i v)
    then show ?case by (cases "j = 0") (auto simp: neg)
  next
    case (2 i v x xs)
    then show ?case by (cases "j = 0") auto
  qed
qed

text \<open>A value used as an index of an array: anything else names a property that is no element.\<close>

definition idx_of :: "jsval \<Rightarrow> int option" where
  "idx_of v = (case v of Num (Fin x) \<Rightarrow> if 0 \<le> x \<and> of_int \<lfloor>x\<rfloor> = x then Some \<lfloor>x\<rfloor> else None | _ \<Rightarrow> None)"

lemma idx_of_JInt [simp]: "idx_of (JInt i) = (if 0 \<le> i then Some i else None)"
  by (simp add: idx_of_def)

lemma idx_of_nonneg: "idx_of v = Some i \<Longrightarrow> 0 \<le> i"
  by (auto simp: idx_of_def split: jsval.splits jsnum.splits if_splits)

lemma idx_of_inj: "idx_of v = Some i \<Longrightarrow> v = JInt i"
  by (auto simp: idx_of_def split: jsval.splits jsnum.splits if_splits)

definition arr_set :: "jsval \<Rightarrow> jsval \<Rightarrow> jsval list \<Rightarrow> jsval list" where
  "arr_set i v xs = (case idx_of i of None \<Rightarrow> xs | Some n \<Rightarrow> arr_put n v xs)"

definition arr_get :: "jsval \<Rightarrow> jsval list \<Rightarrow> jsval" where
  "arr_get i xs = (case idx_of i of None \<Rightarrow> Undef | Some n \<Rightarrow> arr_at n xs)"

section \<open>Files of a torrent\<close>

text \<open>An entry of the server's tree with its name and attributes (\<open>index\<close>, \<open>length\<close> or \<open>size\<close>,
  \<open>download\<close>, \<open>progress\<close>, \<open>priority\<close>).\<close>

datatype entry =
    EFile string "jsval obj"
  | EDir string "jsval obj" "entry list"

fun entry_name :: "entry \<Rightarrow> string" where
  "entry_name (EFile n a) = n"
| "entry_name (EDir n a es) = n"

fun entry_attrs :: "entry \<Rightarrow> jsval obj" where
  "entry_attrs (EFile n a) = a"
| "entry_attrs (EDir n a es) = a"

text \<open>The walk with a callback on every entry, a directory before its contents.\<close>

function walk_file_tree :: "(entry \<Rightarrow> 's \<Rightarrow> 's) \<Rightarrow> entry list \<Rightarrow> 's \<Rightarrow> 's" where
  "walk_file_tree f [] s = s"
| "walk_file_tree f (EFile n a # es) s = walk_file_tree f es (f (EFile n a) s)"
| "walk_file_tree f (EDir n a ds # es) s = walk_file_tree f es (walk_file_tree f ds (f (EDir n a ds) s))"
  by pat_completeness auto

termination walk_file_tree
  by (relation "measure (\<lambda>(f, es, s). size_list size es)") auto

text \<open>The reference: the entries in the order of the walk.\<close>

fun flatten :: "entry \<Rightarrow> entry list" where
  "flatten (EFile n a) = [EFile n a]"
| "flatten (EDir n a ds) = EDir n a ds # concat (List.map flatten ds)"

lemma walk_file_tree_eq: "walk_file_tree f es s = each_do f (concat (List.map flatten es)) s"
  by (induction f es s rule: walk_file_tree.induct) auto

text \<open>The attributes of the files, in that order.\<close>

fun files_of :: "entry \<Rightarrow> jsval obj list" where
  "files_of (EFile n a) = [a]"
| "files_of (EDir n a ds) = concat (List.map files_of ds)"

definition all_files :: "entry list \<Rightarrow> jsval obj list" where
  "all_files es = concat (List.map files_of es)"

section \<open>Nodes of the tree widget\<close>

datatype node = Node "jsval obj" bool "node list"

fun node_attrs :: "node \<Rightarrow> jsval obj" where
  "node_attrs (Node a l ns) = a"

fun is_leaf :: "node \<Rightarrow> bool" where
  "is_leaf (Node a l ns) = l"

fun node_children :: "node \<Rightarrow> node list" where
  "node_children (Node a l ns) = ns"

text \<open>\<open>cascade\<close>: a node and all below it.\<close>

fun cascade :: "node \<Rightarrow> node list" where
  "cascade (Node a l ns) = Node a l ns # concat (List.map cascade ns)"

text \<open>The attributes of every node in turn changed by a function.\<close>

fun cascade_map :: "(jsval obj \<Rightarrow> jsval obj) \<Rightarrow> node \<Rightarrow> node" where
  "cascade_map f (Node a l ns) = Node (f a) l (List.map (cascade_map f) ns)"

lemma cascade_cascade_map: "List.map node_attrs (cascade (cascade_map f n)) = List.map (\<lambda>m. f (node_attrs m)) (cascade n)"
  by (induction n) (simp add: map_concat cong: map_cong)

lemma cascade_map_attrs [simp]: "node_attrs (cascade_map f n) = f (node_attrs n)"
  "is_leaf (cascade_map f n) = is_leaf n"
  by (cases n; simp)+

text \<open>A node is found by the positions on the way to it.\<close>

fun node_at :: "nat list \<Rightarrow> node list \<Rightarrow> node option" where
  "node_at [] ns = None"
| "node_at [i] ns = (if i < length ns then Some (ns ! i) else None)"
| "node_at (i # j # p) ns = (if i < length ns then node_at (j # p) (node_children (ns ! i)) else None)"

fun update_at :: "nat list \<Rightarrow> (node \<Rightarrow> node) \<Rightarrow> node list \<Rightarrow> node list" where
  "update_at [] f ns = ns"
| "update_at [i] f ns = (if i < length ns then ns[i := f (ns ! i)] else ns)"
| "update_at (i # j # p) f ns = (if i < length ns then ns[i := (case ns ! i of Node a l ms \<Rightarrow>
     Node a l (update_at (j # p) f ms))] else ns)"

definition all_nodes :: "node list \<Rightarrow> node list" where
  "all_nodes ns = concat (List.map cascade ns)"

lemma all_nodes_simps [simp]: "all_nodes [] = []" "all_nodes (n # ns) = cascade n @ all_nodes ns"
  "all_nodes (ms @ ns) = all_nodes ms @ all_nodes ns"
  by (simp_all add: all_nodes_def)

lemma cascade_Node: "cascade (Node a l ns) = Node a l ns # all_nodes ns"
  by (simp add: all_nodes_def)

lemma all_nodes_split:
  assumes "i < length ns"
  shows "all_nodes ns = all_nodes (take i ns) @ cascade (ns ! i) @ all_nodes (drop (Suc i) ns)"
  by (subst id_take_nth_drop[OF assms]) simp

lemma update_all_nodes:
  assumes "i < length ns"
  shows "all_nodes (ns[i := n]) = all_nodes (take i ns) @ cascade n @ all_nodes (drop (Suc i) ns)"
  using assms by (simp add: upd_conv_take_nth_drop)

lemma arr_at_for_in:
  assumes "wf_obj ix" and "\<forall>(k, v) \<in> set ix. 0 \<le> k" and "0 \<le> i"
  shows "arr_at i (for_in arr_put ix xs) = (case map_of ix i of Some v \<Rightarrow> v | None \<Rightarrow> arr_at i xs)"
  using assms
proof (induction ix arbitrary: xs)
  case (Cons kv ix)
  obtain k v where kv: "kv = (k, v)" by fastforce
  have "wf_obj ix" and "map_of ix k = None"
    using Cons.prems(1) kv by (auto simp: wf_obj_def map_of_eq_None_iff)
  then show ?case using Cons kv by (auto split: option.splits)
qed simp

lemma cascade_trans: "m \<in> set (cascade n) \<Longrightarrow> set (cascade m) \<subseteq> set (cascade n)"
proof (induction n arbitrary: m)
  case (Node a l ns)
  then consider "m = Node a l ns" | k where "k \<in> set ns" "m \<in> set (cascade k)" by auto
  then show ?case
  proof cases
    case (2 k)
    then have "set (cascade m) \<subseteq> set (cascade k)" by (rule Node.IH)
    then show ?thesis using 2(1) by auto
  qed simp
qed

lemma cascade_self: "n \<in> set (cascade n)"
  by (cases n) simp

lemma arr_at_length: "arr_at i xs \<noteq> Undef \<Longrightarrow> 0 \<le> i \<and> i < int (length xs)"
proof (induction i xs rule: arr_at.induct)
  case (2 i x xs)
  then show ?case by (cases "i = 0") auto
qed simp

lemma node_at_nodes: "node_at p ns = Some n \<Longrightarrow> set (cascade n) \<subseteq> set (all_nodes ns)"
proof (induction p ns rule: node_at.induct)
  case (2 i ns)
  then have i: "i < length ns" and "n = ns ! i" by (auto split: if_splits)
  then show ?case using all_nodes_split[OF i] by auto
next
  case (3 i j p ns)
  then have i: "i < length ns" and "set (cascade n) \<subseteq> set (all_nodes (node_children (ns ! i)))" by (auto split: if_splits)
  moreover have "set (all_nodes (node_children m)) \<subseteq> set (cascade m)" for m by (cases m) (auto simp: all_nodes_def)
  ultimately show ?case using all_nodes_split[OF i] by auto
qed simp

lemma arr_put_neq_Nil [simp]: "arr_put i v xs \<noteq> []"
  by (cases xs) auto

text \<open>Clearing a tree widget: \<open>cascade\<close> removes the nodes below the root while its loop over
  the children runs up to the number there was at first. With two or more the loop ends on a
  position that is empty by then.\<close>

fun clear_loop :: "nat \<Rightarrow> nat \<Rightarrow> node list \<Rightarrow> node list result" where
  "clear_loop i 0 ns = Inr ns"
| "clear_loop i (Suc k) ns = (if i < length ns then clear_loop (Suc i) k (take i ns @ drop (Suc i) ns)
     else Inl TypeError)"

definition clear_nodes :: "node list \<Rightarrow> node list result" where
  "clear_nodes ns = clear_loop 0 (length ns) ns"

lemma clear_nodes_small: "length ns \<le> 1 \<Longrightarrow> clear_nodes ns = Inr []"
  by (cases ns) (auto simp: clear_nodes_def)

lemma clear_loop_fails: "length ns < i + k \<Longrightarrow> 0 < k \<Longrightarrow> clear_loop i k ns = Inl TypeError"
proof (induction i k ns rule: clear_loop.induct)
  case (2 i k ns)
  then show ?case by (cases "i < length ns"; cases k) auto
qed simp

text \<open>A tree with two or more entries at the top cannot be cleared: removing its nodes while the
  loop runs ends in an exception. With one entry, as a torrent has it, it is cleared.\<close>

theorem clear_needs_one_root:
  "clear_nodes ns = (if length ns \<le> 1 then Inr [] else Inl TypeError)"
proof (cases "length ns \<le> 1")
  case False
  then obtain n m ms where "ns = n # m # ms" by (cases ns; cases "tl ns") auto
  then show ?thesis using clear_loop_fails[of "m # ms" 1 "Suc (length ms)"] by (simp add: clear_nodes_def)
qed (simp add: clear_nodes_small)

end
