(* ===== verification/AddOptions.thy ===== *)
theory AddOptions
  imports FileTree MultiOptions
begin

text \<open>
  The options of the torrents to be added (add/OptionsPanel.js, add/FilesTab.js,
  add/OptionsTab.js): a torrent's options are those of its id in an options manager by
  id, its file priorities one array that the panel writes in place, and the tree of
  files shows the torrent that is selected. Arrays have an identity, so a write in
  place reaches every value that holds the array.
\<close>

section \<open>The form\<close>

text \<open>The bound options in the order of the form: option, label, kind of field.\<close>

definition add_form_fields :: "(string \<times> string \<times> string) list" where
  "add_form_fields =
    [(''download_location'', [], ''textfield''),
     (''move_completed'', [], ''togglefield''),
     (''move_completed_path'', [], ''togglefield''),
     (''max_download_speed'', ''Max Down Speed'', ''spinnerfield''),
     (''max_upload_speed'', ''Max Up Speed'', ''spinnerfield''),
     (''max_connections'', ''Max Connections'', ''spinnerfield''),
     (''max_upload_slots'', ''Max Upload Slots'', ''spinnerfield''),
     (''add_paused'', ''Add In Paused State'', ''checkbox''),
     (''prioritize_first_last_pieces'', ''Prioritize First/Last Pieces'', ''checkbox''),
     (''sequential_download'', ''Sequential Download'', ''checkbox''),
     (''seed_mode'', ''Skip File Hash Check'', ''checkbox''),
     (''super_seeding'', ''Super Seed'', ''checkbox''),
     (''pre_allocate_storage'', ''Preallocate Disk Space'', ''checkbox'')]"

text \<open>The fields are numbered in that order.\<close>

fun bind_fields :: "nat \<Rightarrow> (string \<times> string \<times> string) list \<Rightarrow> 'a om_base_scheme \<Rightarrow> 'a om_base_scheme" where
  "bind_fields n [] s = s"
| "bind_fields n ((opt, label, kind) # fs) s = bind_fields (n + 1) fs (om_bind opt n s)"

definition add_default_keys :: "string list" where
  "add_default_keys = [''add_paused'', ''pre_allocate_storage'', ''download_location'',
     ''max_connections_per_torrent'', ''max_download_speed_per_torrent'', ''move_completed'',
     ''move_completed_path'', ''max_upload_slots_per_torrent'', ''max_upload_speed_per_torrent'',
     ''prioritize_first_last_pieces'', ''sequential_download'']"

text \<open>The options from the configuration of the daemon; \<open>r\<close> is the identity of the new array.\<close>

definition add_defaults :: "nat \<Rightarrow> jsval obj \<Rightarrow> jsval obj" where
  "add_defaults r config =
    [(''file_priorities'', Arr r []),
     (''add_paused'', oget config ''add_paused''),
     (''sequential_download'', oget config ''sequential_download''),
     (''pre_allocate_storage'', oget config ''pre_allocate_storage''),
     (''download_location'', oget config ''download_location''),
     (''move_completed'', oget config ''move_completed''),
     (''move_completed_path'', oget config ''move_completed_path''),
     (''max_connections'', oget config ''max_connections_per_torrent''),
     (''max_download_speed'', oget config ''max_download_speed_per_torrent''),
     (''max_upload_slots'', oget config ''max_upload_slots_per_torrent''),
     (''max_upload_speed'', oget config ''max_upload_speed_per_torrent''),
     (''prioritize_first_last_pieces'', oget config ''prioritize_first_last_pieces''),
     (''seed_mode'', Bool False),
     (''super_seeding'', Bool False)]"

section \<open>The panel\<close>

text \<open>\<open>ti_files\<close> is \<open>None\<close> when the torrent has no tree of files, as a magnet link.\<close>

record torrent_info =
  ti_hash :: string
  ti_name :: string
  ti_filename :: string
  ti_files :: "entry list option"

record options_panel =
  op_torrents :: "(string \<times> torrent_info) list"
  op_form :: mo
  op_nodes :: "node list"
  op_files_on :: bool
  op_form_on :: bool
  op_files_tab :: bool
  op_next_ref :: nat

definition op_new :: options_panel where
  "op_new = \<lparr> op_torrents = [], op_form = bind_fields 0 add_form_fields (mo_new []), op_nodes = [],
     op_files_on = False, op_form_on = False, op_files_tab = True, op_next_ref = 1 \<rparr>"

text \<open>The reply to \<open>get_config_values\<close>.\<close>

definition op_get_defaults :: "jsval obj \<Rightarrow> options_panel \<Rightarrow> options_panel" where
  "op_get_defaults config s = s\<lparr> op_next_ref := op_next_ref s + 1, op_form := mo_reset_all
     ((op_form s)\<lparr> om_options := add_defaults (op_next_ref s) config \<rparr>) \<rparr>"

text \<open>A write into the array with identity \<open>r\<close>, wherever the array is held.\<close>

fun poke :: "nat \<Rightarrow> (jsval list \<Rightarrow> jsval list) \<Rightarrow> jsval \<Rightarrow> jsval" where
  "poke r f (Arr q xs) = (if q = r then Arr q (f xs) else Arr q (List.map (poke r f) xs))"
| "poke r f (Obj q ps) = Obj q (List.map (\<lambda>(k, v). (k, poke r f v)) ps)"
| "poke r f v = v"

definition poke_obj :: "nat \<Rightarrow> (jsval list \<Rightarrow> jsval list) \<Rightarrow> jsval obj \<Rightarrow> jsval obj" where
  "poke_obj r f ob = List.map (\<lambda>(k, v). (k, poke r f v)) ob"

definition mo_poke :: "nat \<Rightarrow> (jsval list \<Rightarrow> jsval list) \<Rightarrow> mo \<Rightarrow> mo" where
  "mo_poke r f s = s\<lparr> om_options := poke_obj r f (om_options s),
     mo_changed := List.map (\<lambda>(i, ob). (i, poke_obj r f ob)) (mo_changed s),
     mo_stored := List.map (\<lambda>(i, x). (i, map_option (poke_obj r f) x)) (mo_stored s) \<rparr>"

text \<open>\<open>fileIndexes\<close>, and the array made of it.\<close>

definition note_file :: "entry \<Rightarrow> (int \<times> jsval) list \<Rightarrow> (int \<times> jsval) list" where
  "note_file e ix = (case e of EDir n a es \<Rightarrow> ix
     | EFile n a \<Rightarrow> (case idx_of (oget a ''index'') of None \<Rightarrow> ix | Some i \<Rightarrow> put i (oget a ''download'') ix))"

definition file_indexes :: "entry list \<Rightarrow> (int \<times> jsval) list" where
  "file_indexes es = walk_file_tree note_file es []"

definition file_flags :: "entry list \<Rightarrow> jsval list" where
  "file_flags es = for_in arr_put (file_indexes es) []"

definition with_id :: "string \<Rightarrow> (mo \<Rightarrow> mo) \<Rightarrow> mo \<Rightarrow> mo" where
  "with_id i f m = (case mo_change_id (Some i) True m of (old, m) \<Rightarrow> snd (mo_change_id old True (f m)))"

definition op_add_torrent :: "torrent_info \<Rightarrow> options_panel \<Rightarrow> options_panel" where
  "op_add_torrent t s =
     (let flags = file_flags (case ti_files t of None \<Rightarrow> [] | Some es \<Rightarrow> es)
      in s\<lparr> op_torrents := put (ti_hash t) t (op_torrents s), op_next_ref := op_next_ref s + 1,
           op_form := with_id (ti_hash t) (mo_set_default (Str ''file_priorities'') (Arr (op_next_ref s) flags)) (op_form s) \<rparr>)"

definition op_clear :: "options_panel \<Rightarrow> options_panel result" where
  "op_clear s = bind_result (clear_nodes (op_nodes s))
     (\<lambda>ns. Inr (s\<lparr> op_nodes := ns, op_form := mo_reset_all (op_form s) \<rparr>))"

definition op_get_filename :: "string \<Rightarrow> options_panel \<Rightarrow> string result" where
  "op_get_filename i s = (case map_of (op_torrents s) i of None \<Rightarrow> Inl TypeError | Some t \<Rightarrow> Inr (ti_filename t))"

text \<open>The options sent for a torrent: the flags of the files become 0 or 1, in the array itself.\<close>

definition flags_to_numbers :: "jsval list \<Rightarrow> jsval list" where
  "flags_to_numbers xs = List.map (\<lambda>v. JInt (if truthy v then 1 else 0)) xs"

definition op_get_options :: "string \<Rightarrow> options_panel \<Rightarrow> jsval obj \<times> options_panel" where
  "op_get_options i s =
     (let (old, m) = mo_change_id (Some i) True (op_form s);
          options = mo_get_all m;
          m = snd (mo_change_id old True m)
      in case oget options ''file_priorities'' of
           Arr r xs \<Rightarrow> (poke_obj r flags_to_numbers options, s\<lparr> op_form := mo_poke r flags_to_numbers m \<rparr>)
         | _ \<Rightarrow> (options, s\<lparr> op_form := m \<rparr>))"

text \<open>The nodes for a tree of files. \<open>entry.index\<close> decides by its truth, so the file with index 0 and
  the directories are shown as to be downloaded.\<close>

definition node_download :: "jsval \<Rightarrow> jsval \<Rightarrow> jsval" where
  "node_download priorities index = (if truthy index
     then (case priorities of Arr r xs \<Rightarrow> arr_get index xs | _ \<Rightarrow> Undef) else Bool True)"

definition node_data :: "jsval \<Rightarrow> entry \<Rightarrow> jsval obj" where
  "node_data priorities e = [(''download'', node_download priorities (oget (entry_attrs e) ''index'')),
     (''filename'', Str (entry_name e)), (''fileindex'', oget (entry_attrs e) ''index''),
     (''size'', oget (entry_attrs e) ''length'')]"

fun grow :: "jsval \<Rightarrow> entry \<Rightarrow> node" where
  "grow ps (EFile n a) = Node (node_data ps (EFile n a)) True []"
| "grow ps (EDir n a es) = Node (node_data ps (EDir n a es)) False (List.map (grow ps) es)"

text \<open>Reading an element of priorities that are undefined or null fails, and so does expanding the first
  node of a tree that has none.\<close>

definition op_set_torrent :: "string \<Rightarrow> options_panel \<Rightarrow> options_panel result" where
  "op_set_torrent i s =
     (if i = [] then Inr s
      else
        let m = snd (mo_change_id (Some i) False (op_form s)); s = s\<lparr> op_form := m \<rparr>
        in bind_result (clear_nodes (op_nodes s)) (\<lambda>ns.
          let s = s\<lparr> op_nodes := ns, op_form_on := True \<rparr>; ps = mo_get m ''file_priorities''
          in case map_of (op_torrents s) i of
               None \<Rightarrow> Inl TypeError
             | Some t \<Rightarrow> (case ti_files t of
                 None \<Rightarrow> Inr (s\<lparr> op_files_tab := False, op_files_on := False \<rparr>)
               | Some es \<Rightarrow>
                   if nullish ps \<and> (\<exists>e \<in> set (concat (List.map flatten es)). truthy (oget (entry_attrs e) ''index'')) then Inl TypeError
                   else if es = [] then Inl TypeError
                   else Inr (s\<lparr> op_nodes := ns @ List.map (grow ps) es, op_files_on := True, op_files_tab := True \<rparr>))))"

text \<open>\<open>fileschecked\<close> for the nodes of a click. A directory has no index, and a write at \<open>undefined\<close> makes
  no element. Options that are undefined or null have no properties to write.\<close>

definition check_one :: "jsval \<Rightarrow> jsval obj \<Rightarrow> mo \<Rightarrow> mo result" where
  "check_one v a m =
     (if js_lt (oget a ''fileindex'') (JInt 0) then Inr m
      else (case mo_get m ''file_priorities'' of
        Arr r xs \<Rightarrow> let m = mo_poke r (arr_set (oget a ''fileindex'') v) m
          in Inr (mo_update (Str ''file_priorities'') (mo_get m ''file_priorities'') m)
      | w \<Rightarrow> if nullish w then Inl TypeError else Inr (mo_update (Str ''file_priorities'') w m)))"

definition op_on_files_checked :: "jsval obj list \<Rightarrow> jsval \<Rightarrow> options_panel \<Rightarrow> options_panel result" where
  "op_on_files_checked nodes v s = bind_result (each_result (check_one v) nodes (op_form s))
     (\<lambda>m. Inr (s\<lparr> op_form := m \<rparr>))"

text \<open>\<open>setDownload\<close> on the node at a position, and the click on its box.\<close>

definition op_set_download :: "nat list \<Rightarrow> jsval \<Rightarrow> bool \<Rightarrow> options_panel \<Rightarrow> options_panel result" where
  "op_set_download p v suppress s = (case node_at p (op_nodes s) of
     None \<Rightarrow> Inr s
   | Some n \<Rightarrow>
       if is_leaf n then
         let s = s\<lparr> op_nodes := update_at p (\<lambda>n. Node (put ''download'' v (node_attrs n)) True (node_children n)) (op_nodes s) \<rparr>
         in if suppress then Inr s else op_on_files_checked [node_attrs n] v s
       else
         let s = s\<lparr> op_nodes := update_at p (cascade_map (put ''download'' v)) (op_nodes s) \<rparr>
         in if suppress then Inr s else op_on_files_checked (node_attrs n # List.map node_attrs (cascade n)) v s)"

definition op_on_node_click :: "nat list \<Rightarrow> options_panel \<Rightarrow> options_panel result" where
  "op_on_node_click p s = (case node_at p (op_nodes s) of None \<Rightarrow> Inr s
     | Some n \<Rightarrow> op_set_download p (Bool (\<not> truthy (oget (node_attrs n) ''download''))) False s)"

section \<open>File indexes\<close>

definition note_attrs :: "jsval obj \<Rightarrow> (int \<times> jsval) list \<Rightarrow> (int \<times> jsval) list" where
  "note_attrs a ix = (case idx_of (oget a ''index'') of None \<Rightarrow> ix | Some i \<Rightarrow> put i (oget a ''download'') ix)"

definition file_idx :: "jsval obj \<Rightarrow> int option" where
  "file_idx a = idx_of (oget a ''index'')"

lemma note_file_simps [simp]: "note_file (EDir n a es) ix = ix" "note_file (EFile n a) ix = note_attrs a ix"
  by (simp_all add: note_file_def note_attrs_def)

lemma note_attrs_cases: "note_attrs a ix = (case file_idx a of None \<Rightarrow> ix | Some i \<Rightarrow> put i (oget a ''download'') ix)"
  by (simp add: note_attrs_def file_idx_def)

lemma each_note_flatten: "each_do note_file (flatten e) ix = each_do note_attrs (files_of e) ix"
proof (induction e arbitrary: ix)
  case (EDir n a es)
  have "each_do note_file (concat (List.map flatten es)) ix = each_do note_attrs (concat (List.map files_of es)) ix" for ix
    using EDir by (induction es arbitrary: ix) auto
  then show ?case by simp
qed simp

lemma file_indexes_eq: "file_indexes es = each_do note_attrs (all_files es) []"
proof -
  have "each_do note_file (concat (List.map flatten es)) ix = each_do note_attrs (concat (List.map files_of es)) ix" for ix
    by (induction es arbitrary: ix) (auto simp: each_note_flatten)
  then show ?thesis by (simp add: file_indexes_def walk_file_tree_eq all_files_def)
qed

lemma wf_note_attrs: "wf_obj ix \<Longrightarrow> wf_obj (each_do note_attrs as ix)"
  by (rule each_do_invariant[where P = wf_obj]) (auto simp: note_attrs_def wf_obj_put split: option.splits)

lemma lookup_note_attrs:
  assumes "distinct (List.filter (\<lambda>x. x \<noteq> None) (List.map file_idx as))"
  shows "map_of (each_do note_attrs as ix) i = (case List.find (\<lambda>a. file_idx a = Some i) as of
     Some a \<Rightarrow> Some (oget a ''download'') | None \<Rightarrow> map_of ix i)"
  using assms
proof (induction as arbitrary: ix)
  case (Cons a as)
  have ih: "map_of (each_do note_attrs as jx) i = (case List.find (\<lambda>a. file_idx a = Some i) as of
     Some a \<Rightarrow> Some (oget a ''download'') | None \<Rightarrow> map_of jx i)" for jx
    using Cons by (auto split: if_splits)
  show ?case
  proof (cases "file_idx a = Some i")
    case True
    then have "Some i \<notin> set (List.map file_idx as)" using Cons.prems by auto
    then have "List.find (\<lambda>a. file_idx a = Some i) as = None" by (induction as) auto
    moreover have "note_attrs a ix = put i (oget a ''download'') ix" using True by (simp add: note_attrs_cases)
    ultimately show ?thesis using True ih by (simp add: lookup_put)
  next
    case False
    then have "map_of (note_attrs a ix) i = map_of ix i"
      by (auto simp: note_attrs_cases lookup_put split: option.splits)
    then show ?thesis using False ih by (simp split: option.splits)
  qed
qed simp

lemma note_attrs_nonneg: "\<forall>(k, v) \<in> set ix. 0 \<le> k \<Longrightarrow> \<forall>(k, v) \<in> set (each_do note_attrs as ix). 0 \<le> k"
  by (rule each_do_invariant[where P = "\<lambda>ix. \<forall>(k, v) \<in> set ix. 0 \<le> k"])
    (auto simp: note_attrs_def idx_of_nonneg dest!: in_put split: option.splits)

text \<open>The indexes of the files of a tree are different.\<close>

definition files_ok :: "entry list \<Rightarrow> bool" where
  "files_ok es = (list_all (\<lambda>a. file_idx a \<noteq> None) (all_files es) \<and> distinct (List.map file_idx (all_files es)))"

lemma file_flags_at:
  assumes "files_ok es" and "a \<in> set (all_files es)" and "file_idx a = Some i"
  shows "arr_at i (file_flags es) = oget a ''download''"
proof -
  have d: "distinct (List.map file_idx (all_files es))" using assms(1) by (simp add: files_ok_def)
  then have d': "distinct (List.filter (\<lambda>x. x \<noteq> None) (List.map file_idx (all_files es)))" by simp
  have "List.find (\<lambda>a. file_idx a = Some i) as = Some a" if "distinct (List.map file_idx as)" "a \<in> set as" for as
    using that assms(3) by (induction as) (auto simp: image_iff)
  with d assms(2) have "List.find (\<lambda>a. file_idx a = Some i) (all_files es) = Some a" by blast
  then have "map_of (file_indexes es) i = Some (oget a ''download'')"
    using lookup_note_attrs[OF d', of "[]" i] by (simp add: file_indexes_eq)
  then show ?thesis
    using arr_at_for_in[of "file_indexes es" i "[]"] wf_note_attrs[of "[]"] note_attrs_nonneg[of "[]"]
      idx_of_nonneg[OF assms(3)[unfolded file_idx_def]]
    by (simp add: file_flags_def file_indexes_eq)
qed

lemma file_flags_neq_Nil:
  assumes "files_ok es" and "all_files es \<noteq> []"
  shows "file_flags es \<noteq> []"
proof
  assume "file_flags es = []"
  moreover obtain a i where "a \<in> set (all_files es)" "file_idx a = Some i"
    using assms by (cases "all_files es") (auto simp: files_ok_def)
  moreover have "for_in arr_put ix xs = [] \<Longrightarrow> ix = []" for ix :: "(int \<times> jsval) list" and xs
  proof (induction ix arbitrary: xs rule: rev_induct)
    case (snoc kv ix)
    then show ?case by (cases kv) simp
  qed simp
  ultimately have "file_indexes es = []" by (auto simp: file_flags_def)
  moreover have "distinct (List.filter (\<lambda>x. x \<noteq> None) (List.map file_idx (all_files es)))"
    using assms(1) by (simp add: files_ok_def)
  ultimately have "List.find (\<lambda>a. file_idx a = Some i) (all_files es) = None"
    using lookup_note_attrs[of "all_files es" "[]" i] by (auto simp: file_indexes_eq split: option.splits)
  then show False using \<open>a \<in> set (all_files es)\<close> \<open>file_idx a = Some i\<close> by (simp add: find_None_iff)
qed

section \<open>The array of priorities\<close>

abbreviation fp :: string where
  "fp \<equiv> ''file_priorities''"

text \<open>The array is stored for the selected torrent, and no change is recorded beside it.\<close>

definition fp_ok :: "mo \<Rightarrow> nat \<Rightarrow> jsval list \<Rightarrow> bool" where
  "fp_ok m r xs = (xs \<noteq> [] \<and> (\<forall>ob. mo_cur_changed m = Some ob \<longrightarrow> oget ob fp = Undef)
     \<and> (\<exists>ob. mo_cur_stored m = Some ob \<and> oget ob fp = Arr r xs))"

lemma fp_ok_get:
  assumes "fp_ok m r xs"
  shows "mo_get m fp = Arr r xs" and "mo_get_default m fp = Arr r xs" and "\<not> mo_is_dirty m fp"
  using assms by (auto simp: fp_ok_def mo_get_def mo_get_default_def mo_has_def mo_is_dirty_def split: option.splits)

lemma map_of_map_values: "map_of (List.map (\<lambda>(k, v). (k, f v)) xs) k = map_option f (map_of xs k)"
  by (induction xs) auto

lemma oget_poke_obj: "oget (poke_obj r f ob) k = (if has_key ob k then poke r f (oget ob k) else Undef)"
  by (auto simp: oget_def poke_obj_def map_of_map_values has_key_def split: option.splits)

lemma mo_key_poke [simp]: "mo_key (mo_poke r f m) = mo_key m"
  by (simp add: mo_key_def mo_poke_def)

lemma mo_cur_poke: "mo_cur_changed (mo_poke r f m) = map_option (poke_obj r f) (mo_cur_changed m)"
  "mo_cur_stored (mo_poke r f m) = map_option (poke_obj r f) (mo_cur_stored m)"
  by (auto simp: mo_cur_changed_def mo_cur_stored_def map_of_map_values[unfolded case_prod_beta]
      mo_poke_def map_of_map_values split: option.splits) (simp_all add: mo_key_def)

lemma fp_ok_poke:
  assumes "fp_ok m r xs" and "f xs \<noteq> []"
  shows "fp_ok (mo_poke r f m) r (f xs)"
proof -
  obtain ob where ob: "mo_cur_stored m = Some ob" "oget ob fp = Arr r xs" using assms(1) by (auto simp: fp_ok_def)
  have "has_key ob fp" using ob(2) by (auto simp: oget_def has_key_def split: option.splits)
  then have "mo_cur_stored (mo_poke r f m) = Some (poke_obj r f ob)" "oget (poke_obj r f ob) fp = Arr r (f xs)"
    by (simp_all add: mo_cur_poke ob oget_poke_obj)
  moreover have "oget oc fp = Undef" if "mo_cur_changed (mo_poke r f m) = Some oc" for oc
    using that assms(1) by (auto simp: mo_cur_poke fp_ok_def oget_poke_obj)
  ultimately show ?thesis using assms(2) by (auto simp: fp_ok_def)
qed

lemma fp_ok_update:
  assumes "fp_ok m r xs"
  shows "fp_ok (mo_update (Str fp) (Arr r xs) m) r xs"
proof -
  define s1 where "s1 = (if mo_cur_changed m = None then m\<lparr> mo_changed := put (mo_key m) [] (mo_changed m) \<rparr> else m)"
  have s1: "fp_ok s1 r xs" using assms by (auto simp: s1_def fp_ok_def)
  have "mo_update (Str fp) (Arr r xs) m = s1"
    using fp_ok_get[OF s1]
    by (simp add: mo_update_def mo_update_one_def s1_def[symmetric] Let_def loose_eq_def convert_value_type_def)
  then show ?thesis using s1 by simp
qed

section \<open>Adding, selecting, checking\<close>

lemma mo_cur_current [simp]:
  "mo_cur_changed (m\<lparr> mo_current := Some i \<rparr>) = map_of (mo_changed m) i"
  "mo_cur_stored (m\<lparr> mo_current := Some i \<rparr>) = (case map_of (mo_stored m) i of Some (Some ob) \<Rightarrow> Some ob | _ \<Rightarrow> None)"
  by (simp_all add: mo_cur_changed_def mo_cur_stored_def mo_key_def)

text \<open>What the manager holds for the id \<open>i\<close>.\<close>

definition fp_stored :: "mo \<Rightarrow> string \<Rightarrow> nat \<Rightarrow> jsval list \<Rightarrow> bool" where
  "fp_stored m i r xs = fp_ok (m\<lparr> mo_current := Some i \<rparr>) r xs"

lemma om_fire_mo [simp]: "mo_changed (om_fire opt v old m) = mo_changed (m :: mo)"
  "mo_stored (om_fire opt v old m) = mo_stored m" "mo_current (om_fire opt v old m) = mo_current m"
  "om_options (om_fire opt v old m) = om_options m"
proof -
  have "mo_changed (om_on_change opt v m) = mo_changed m \<and> mo_stored (om_on_change opt v m) = mo_stored m
      \<and> mo_current (om_on_change opt v m) = mo_current m \<and> om_options (om_on_change opt v m) = om_options m"
    unfolding om_on_change_def by (rule each_do_invariant) simp_all
  then show "mo_changed (om_fire opt v old m) = mo_changed m" "mo_stored (om_fire opt v old m) = mo_stored m"
    "mo_current (om_fire opt v old m) = mo_current m" "om_options (om_fire opt v old m) = om_options m"
    by (simp_all add: om_fire_def Let_def)
qed

text \<open>The id is new to the manager, and the shared option is an array of another identity.\<close>

lemma op_add_torrent_stores:
  assumes "ti_files t = Some es" and "files_ok es" and "all_files es \<noteq> []"
    and "map_of (mo_changed (op_form s)) (ti_hash t) = None" and "map_of (mo_stored (op_form s)) (ti_hash t) = None"
    and "oget (om_options (op_form s)) fp = Arr q []" and "q < op_next_ref s"
  shows "fp_stored (op_form (op_add_torrent t s)) (ti_hash t) (op_next_ref s) (file_flags es)"
proof -
  let ?m = "(op_form s)\<lparr> mo_current := Some (ti_hash t) \<rparr>" and ?v = "Arr (op_next_ref s) (file_flags es)"
  have cs: "mo_cur_stored ?m = None" "mo_cur_changed ?m = None" using assms(4,5) by simp_all
  have d: "mo_get_default ?m fp = Arr q []" using cs assms(6) by (simp add: mo_get_default_def mo_has_def)
  define m1 where "m1 = mo_set_default_one fp ?v ?m"
  have m1: "mo_changed m1 = mo_changed (op_form s)" "mo_stored m1 = put (ti_hash t) (Some [(fp, ?v)]) (mo_stored (op_form s))"
    using d cs assms(7) by (auto simp: m1_def mo_set_default_one_def Let_def convert_value_type_def loose_eq_def mo_key_def
        mo_is_dirty_def mo_cur_changed_def)
  have "op_form (op_add_torrent t s) = m1\<lparr> mo_current := mo_current (op_form s) \<rparr>"
    by (simp add: op_add_torrent_def Let_def with_id_def mo_change_id_def assms(1) mo_set_default_def m1_def)
  then show ?thesis
    using m1 assms(4) file_flags_neq_Nil[OF assms(2,3)]
    by (simp add: fp_stored_def fp_ok_def lookup_put oget_def)
qed

lemma fp_ok_cong: "mo_changed m = mo_changed n \<Longrightarrow> mo_stored m = mo_stored n \<Longrightarrow> mo_current m = mo_current n
    \<Longrightarrow> fp_ok m r xs = fp_ok n r xs"
  by (simp add: fp_ok_def mo_cur_changed_def mo_cur_stored_def mo_key_def)

lemma mo_change_id_state:
  "mo_changed (snd (mo_change_id i b m)) = mo_changed m" "mo_stored (snd (mo_change_id i b m)) = mo_stored m"
  "mo_current (snd (mo_change_id i b m)) = i" "om_options (snd (mo_change_id i b m)) = om_options m"
proof -
  define P where "P = (\<lambda>t::mo. mo_changed t = mo_changed m \<and> mo_stored t = mo_stored m \<and> mo_current t = i
    \<and> om_options t = om_options m)"
  have "P (for_in (\<lambda>opt v t. each_do (\<lambda>f t. t\<lparr> om_trace := om_trace t @ [SetValue f (mo_get t opt)] \<rparr>)
      (binds_of (om_binds t) opt) t) ob t)" if "P t" for ob :: "jsval obj" and t
    by (rule for_in_invariant, rule that, rule each_do_invariant, assumption, simp add: P_def)
  moreover have "P (m\<lparr> mo_current := i \<rparr>)" by (simp add: P_def)
  ultimately have "P (snd (mo_change_id i b m))" by (simp add: mo_change_id_def Let_def)
  then show "mo_changed (snd (mo_change_id i b m)) = mo_changed m" "mo_stored (snd (mo_change_id i b m)) = mo_stored m"
    "mo_current (snd (mo_change_id i b m)) = i" "om_options (snd (mo_change_id i b m)) = om_options m"
    by (simp_all add: P_def)
qed

lemma mo_update_current: "mo_current (mo_update_one opt v m) = mo_current m" "om_options (mo_update_one opt v m) = om_options m"
  by (simp_all add: mo_update_one_def Let_def)

definition node_idx :: "jsval obj \<Rightarrow> int option" where
  "node_idx a = idx_of (oget a ''fileindex'')"

definition node_idx_ok :: "jsval obj \<Rightarrow> bool" where
  "node_idx_ok a = (oget a ''fileindex'' = Undef \<or> node_idx a \<noteq> None)"

lemma mo_poke_state: "mo_current (mo_poke r f m) = mo_current m"
  "keys_of (om_options (mo_poke r f m)) = keys_of (om_options m)"
  by (simp_all add: mo_poke_def poke_obj_def keys_of_def comp_def case_prod_beta)

lemma check_one_ok:
  assumes "fp_ok m r xs" and "node_idx_ok a"
  obtains m' ys where "check_one v a m = Inr m'" and "fp_ok m' r ys" and "mo_current m' = mo_current m"
    and "keys_of (om_options m') = keys_of (om_options m)"
    and "\<And>i. 0 \<le> i \<Longrightarrow> arr_at i ys = (if node_idx a = Some i then v else arr_at i xs)"
proof -
  have neg: "\<not> js_lt (oget a ''fileindex'') (JInt 0)"
    using assms(2) idx_of_inj idx_of_nonneg
    by (auto simp: node_idx_ok_def node_idx_def js_lt_def) fastforce
  let ?ys = "arr_set (oget a ''fileindex'') v xs"
  have ne: "?ys \<noteq> []" using assms(1) by (simp add: arr_set_def fp_ok_def split: option.splits)
  have m1: "fp_ok (mo_poke r (arr_set (oget a ''fileindex'') v) m) r ?ys" by (rule fp_ok_poke[of m r xs "arr_set (oget a ''fileindex'') v", OF assms(1) ne])
  let ?m = "mo_poke r (arr_set (oget a ''fileindex'') v) m"
  have "check_one v a m = Inr (mo_update (Str fp) (Arr r ?ys) ?m)"
    using neg fp_ok_get(1)[OF assms(1)] fp_ok_get(1)[OF m1] by (simp add: check_one_def Let_def)
  moreover have "fp_ok (mo_update (Str fp) (Arr r ?ys) ?m) r ?ys" by (rule fp_ok_update[OF m1])
  moreover have "mo_current (mo_update (Str fp) (Arr r ?ys) ?m) = mo_current m"
    "keys_of (om_options (mo_update (Str fp) (Arr r ?ys) ?m)) = keys_of (om_options m)"
    by (simp_all add: mo_update_def mo_update_current mo_poke_state)
  moreover have "arr_at i ?ys = (if node_idx a = Some i then v else arr_at i xs)" if "0 \<le> i" for i
    using that by (auto simp: arr_set_def node_idx_def idx_of_nonneg split: option.splits)
  ultimately show ?thesis by (rule that)
qed

lemma check_all_ok:
  assumes "fp_ok m r xs" and "\<forall>a \<in> set as. node_idx_ok a"
  obtains m' ys where "each_result (check_one v) as m = Inr m'" and "fp_ok m' r ys" and "mo_current m' = mo_current m"
    and "keys_of (om_options m') = keys_of (om_options m)"
    and "\<And>i. 0 \<le> i \<Longrightarrow> arr_at i ys = (if Some i \<in> node_idx ` set as then v else arr_at i xs)"
  using assms
proof (induction as arbitrary: m xs thesis)
  case (Cons a as)
  obtain m1 ys where 1: "check_one v a m = Inr m1" "fp_ok m1 r ys" "mo_current m1 = mo_current m"
    "keys_of (om_options m1) = keys_of (om_options m)"
    "\<And>i. 0 \<le> i \<Longrightarrow> arr_at i ys = (if node_idx a = Some i then v else arr_at i xs)"
    using check_one_ok[of m r xs a v] Cons.prems(2,3) by auto
  obtain m2 zs where 2: "each_result (check_one v) as m1 = Inr m2" "fp_ok m2 r zs" "mo_current m2 = mo_current m1"
    "keys_of (om_options m2) = keys_of (om_options m1)"
    "\<And>i. 0 \<le> i \<Longrightarrow> arr_at i zs = (if Some i \<in> node_idx ` set as then v else arr_at i ys)"
    using Cons.IH[of m1 ys] 1(2) Cons.prems(3) by auto
  show ?case by (rule Cons.prems(1)[of m2 zs]) (use 1 2 in auto)
qed auto

subsection \<open>The nodes\<close>

lemma cascade_grow: "List.map node_attrs (cascade (grow ps e)) = List.map (node_data ps) (flatten e)"
  by (induction e) (simp_all add: map_concat comp_def cong: map_cong)

lemma all_nodes_grow: "List.map node_attrs (all_nodes (List.map (grow ps) es)) = List.map (node_data ps) (concat (List.map flatten es))"
  by (induction es) (simp_all add: cascade_grow)

lemma grow_leaf: "n \<in> set (cascade (grow ps e)) \<Longrightarrow> is_leaf n \<Longrightarrow> node_children n = []"
  by (induction e arbitrary: n) auto

lemma op_set_download_ok:
  assumes "fp_ok (op_form s) r xs" and "node_at p (op_nodes s) = Some n" and "\<forall>m \<in> set (cascade n). node_idx_ok (node_attrs m)"
    and "is_leaf n \<Longrightarrow> node_children n = []"
  obtains s' ys where "op_set_download p v False s = Inr s'" and "fp_ok (op_form s') r ys"
    and "mo_current (op_form s') = mo_current (op_form s)" and "keys_of (om_options (op_form s')) = keys_of (om_options (op_form s))"
    and "\<And>i. 0 \<le> i \<Longrightarrow> arr_at i ys = (if Some i \<in> node_idx ` node_attrs ` set (cascade n) then v else arr_at i xs)"
proof -
  define as where "as = (if is_leaf n then [node_attrs n] else node_attrs n # List.map node_attrs (cascade n))"
  have set_as: "set as = node_attrs ` set (cascade n)"
    using assms(4) by (cases n) (auto simp: as_def)
  obtain m' ys where m': "each_result (check_one v) as (op_form s) = Inr m'" "fp_ok m' r ys"
    "mo_current m' = mo_current (op_form s)" "keys_of (om_options m') = keys_of (om_options (op_form s))"
    "\<And>i. 0 \<le> i \<Longrightarrow> arr_at i ys = (if Some i \<in> node_idx ` node_attrs ` set (cascade n) then v else arr_at i xs)"
    using check_all_ok[OF assms(1), of as v] assms(3) unfolding set_as by auto
  show ?thesis
  proof (cases "is_leaf n")
    case True
    show ?thesis
      by (rule that[of "s\<lparr> op_nodes := update_at p (\<lambda>n. Node (put ''download'' v (node_attrs n)) True (node_children n)) (op_nodes s),
          op_form := m' \<rparr>" ys])
        (use True m' in \<open>simp_all add: op_set_download_def assms(2) op_on_files_checked_def as_def Let_def\<close>)
  next
    case False
    show ?thesis
      by (rule that[of "s\<lparr> op_nodes := update_at p (cascade_map (put ''download'' v)) (op_nodes s), op_form := m' \<rparr>" ys])
        (use False m' in \<open>simp_all add: op_set_download_def assms(2) op_on_files_checked_def as_def Let_def\<close>)
  qed
qed

lemma oget_get_all: "oget (mo_get_all m) k = (if has_key (om_options m) k then mo_get m k else Undef)"
proof -
  have "oget (for_in (\<lambda>opt v ob. put opt (mo_get m opt) ob) xs ob) k
      = (if has_key xs k then mo_get m k else oget ob k)" for xs :: "jsval obj" and ob
    by (induction xs arbitrary: ob) (auto simp: has_key_def)
  from this[of "om_options m" "[]"] show ?thesis by (simp add: mo_get_all_def)
qed

lemma op_get_options_fp:
  assumes "fp_stored (op_form s) i r xs" and "has_key (om_options (op_form s)) fp"
  shows "oget (fst (op_get_options i s)) fp = Arr r (flags_to_numbers xs)"
proof -
  let ?m = "(op_form s)\<lparr> mo_current := Some i \<rparr>"
  have g: "mo_get ?m fp = Arr r xs" using assms(1) fp_ok_get(1) by (simp add: fp_stored_def)
  then have o: "oget (mo_get_all ?m) fp = Arr r xs" using assms(2) by (simp add: oget_get_all)
  then have "has_key (mo_get_all ?m) fp" by (auto simp: oget_def has_key_def split: option.splits)
  then show ?thesis by (simp add: op_get_options_def mo_change_id_def Let_def o oget_poke_obj)
qed

lemma arr_at_flags: "0 \<le> i \<Longrightarrow> arr_at i (flags_to_numbers xs)
    = (if i < int (length xs) then JInt (if truthy (arr_at i xs) then 1 else 0) else Undef)"
  by (induction i xs rule: arr_at.induct) (auto simp: flags_to_numbers_def)

text \<open>Directories have no index.\<close>

definition dirs_ok :: "entry list \<Rightarrow> bool" where
  "dirs_ok es = list_all (\<lambda>e. case e of EDir n a ds \<Rightarrow> oget a ''index'' = Undef | EFile n a \<Rightarrow> True) (concat (List.map flatten es))"

lemma files_flatten: "EFile n a \<in> set (flatten e) \<Longrightarrow> a \<in> set (files_of e)"
  by (induction e) auto

lemma flatten_files: "a \<in> set (files_of e) \<Longrightarrow> \<exists>n. EFile n a \<in> set (flatten e)"
  by (induction e) (auto, blast)

lemma all_files_flatten: "a \<in> set (all_files es) \<longleftrightarrow> (\<exists>n. EFile n a \<in> set (concat (List.map flatten es)))"
  using files_flatten flatten_files by (fastforce simp: all_files_def)

lemma node_data_simps [simp]: "oget (node_data ps e) ''fileindex'' = oget (entry_attrs e) ''index''"
  "oget (node_data ps e) ''download'' = node_download ps (oget (entry_attrs e) ''index'')"
  by (simp_all add: node_data_def oget_def)

lemma entry_index_cases:
  assumes "files_ok es" and "dirs_ok es" and "e \<in> set (concat (List.map flatten es))"
  obtains n a ds where "e = EDir n a ds" "oget (entry_attrs e) ''index'' = Undef"
  | n a i where "e = EFile n a" "a \<in> set (all_files es)" "file_idx a = Some i"
proof (cases e)
  case (EFile n a)
  then have "a \<in> set (all_files es)" using assms(3) all_files_flatten by blast
  then show ?thesis using assms(1) EFile that(2) by (auto simp: files_ok_def list_all_iff)
next
  case (EDir n a ds)
  with assms(3) have "EDir n a ds \<in> set (concat (List.map flatten es))" by simp
  then have "oget a ''index'' = Undef" using bspec[OF assms(2)[unfolded dirs_ok_def list_all_iff]] by force
  then show ?thesis using EDir that(1) by simp
qed

text \<open>What a fresh manager is: nothing is kept for the torrent, and the shared priorities are the empty
  array of the defaults.\<close>

definition op_fresh :: "string \<Rightarrow> options_panel \<Rightarrow> bool" where
  "op_fresh i s = (map_of (mo_changed (op_form s)) i = None \<and> map_of (mo_stored (op_form s)) i = None
     \<and> (\<exists>q < op_next_ref s. oget (om_options (op_form s)) fp = Arr q []) \<and> length (op_nodes s) \<le> 1)"

lemma fp_stored_cong: "mo_changed m = mo_changed n \<Longrightarrow> mo_stored m = mo_stored n \<Longrightarrow> fp_stored m i r xs = fp_stored n i r xs"
  unfolding fp_stored_def by (rule fp_ok_cong) simp_all

lemma fp_stored_current: "mo_current m = Some i \<Longrightarrow> fp_stored m i r xs = fp_ok m r xs"
  unfolding fp_stored_def by (rule fp_ok_cong) simp_all

text \<open>Selecting a torrent that was added shows its tree.\<close>

lemma op_set_torrent_added:
  assumes "ti_files t = Some es" and "es \<noteq> []" and "ti_hash t \<noteq> []" and "length (op_nodes s) \<le> 1"
    and "map_of (op_torrents s) (ti_hash t) = Some t" and "fp_stored (op_form s) (ti_hash t) r xs"
  obtains s' where "op_set_torrent (ti_hash t) s = Inr s'" and "op_nodes s' = List.map (grow (Arr r xs)) es"
    and "fp_ok (op_form s') r xs" and "mo_current (op_form s') = Some (ti_hash t)"
    and "om_options (op_form s') = om_options (op_form s)" and "op_torrents s' = op_torrents s"
proof -
  define m where "m = snd (mo_change_id (Some (ti_hash t)) False (op_form s))"
  note st = mo_change_id_state[of "Some (ti_hash t)" False "op_form s", folded m_def]
  have ok: "fp_ok m r xs"
    using assms(6) st fp_stored_current[OF st(3), of r xs] fp_stored_cong[OF st(1,2)] by simp
  have "op_set_torrent (ti_hash t) s = Inr (s\<lparr> op_form := m, op_form_on := True,
      op_nodes := List.map (grow (Arr r xs)) es, op_files_on := True, op_files_tab := True \<rparr>)"
    using assms fp_ok_get(1)[OF ok]
    by (simp add: op_set_torrent_def Let_def clear_nodes_small flip: m_def)
  then show ?thesis by (rule that) (use ok st in simp_all)
qed

lemma has_key_oget: "oget ob k \<noteq> Undef \<Longrightarrow> has_key ob k"
  by (auto simp: oget_def has_key_def split: option.splits)

lemma has_key_keys: "keys_of ob = keys_of oc \<Longrightarrow> has_key ob k = has_key oc k"
  using set_keys_of[of ob] set_keys_of[of oc] by auto

definition all_checked :: "entry list \<Rightarrow> jsval list \<Rightarrow> bool" where
  "all_checked es xs = (\<forall>a \<in> set (all_files es). \<forall>i. file_idx a = Some i \<longrightarrow> arr_at i xs = Bool True)"

text \<open>Every node of a tree whose files are all to be downloaded says so, and has a proper index.\<close>

lemma grown_nodes:
  assumes "files_ok es" and "dirs_ok es" and "all_checked es xs"
    and "m \<in> set (all_nodes (List.map (grow (Arr r xs)) es))"
  shows "node_idx_ok (node_attrs m) \<and> oget (node_attrs m) ''download'' = Bool True"
proof -
  have "node_attrs m \<in> set (List.map node_attrs (all_nodes (List.map (grow (Arr r xs)) es)))" using assms(4) by simp
  then obtain e where e: "e \<in> set (concat (List.map flatten es))" "node_attrs m = node_data (Arr r xs) e"
    unfolding all_nodes_grow by auto
  show ?thesis
  proof (rule entry_index_cases[OF assms(1,2) e(1)])
    fix n a ds assume "e = EDir n a ds" "oget (entry_attrs e) ''index'' = Undef"
    then show ?thesis using e(2) by (simp add: node_idx_ok_def node_download_def)
  next
    fix n a i assume a: "e = EFile n a" "a \<in> set (all_files es)" "file_idx a = Some i"
    then show ?thesis using e(2) assms(3)
      by (auto simp: all_checked_def node_idx_ok_def node_idx_def node_download_def arr_get_def file_idx_def)
  qed
qed

text \<open>A click on a node of such a tree, and the priorities that are sent afterwards.\<close>

lemma click_flags:
  assumes "fp_ok (op_form s) r xs" and "op_nodes s = List.map (grow (Arr r xs)) es" and "files_ok es" and "dirs_ok es"
    and all: "all_checked es xs"
    and "mo_current (op_form s) = Some h" and "has_key (om_options (op_form s)) fp" and n: "node_at p (op_nodes s) = Some n"
  shows "\<exists>s3 ys. op_on_node_click p s = Inr s3 \<and> oget (fst (op_get_options h s3)) fp = Arr r ys
      \<and> (\<forall>a i. a \<in> set (all_files es) \<longrightarrow> file_idx a = Some i \<longrightarrow>
          arr_at i ys = JInt (if Some i \<in> node_idx ` node_attrs ` set (cascade n) then 0 else 1))"
proof -
  have sub: "set (cascade n) \<subseteq> set (all_nodes (op_nodes s))" by (rule node_at_nodes[OF n])
  have ok: "node_idx_ok (node_attrs m) \<and> oget (node_attrs m) ''download'' = Bool True" if "m \<in> set (cascade n)" for m
    using grown_nodes[OF assms(3,4) all] sub that unfolding assms(2) by blast
  have leaf: "is_leaf n \<Longrightarrow> node_children n = []"
    using sub cascade_self[of n] grow_leaf[of n] by (auto simp: assms(2) all_nodes_def)
  obtain s3 ys where s3: "op_set_download p (Bool False) False s = Inr s3" "fp_ok (op_form s3) r ys"
    "mo_current (op_form s3) = mo_current (op_form s)" "keys_of (om_options (op_form s3)) = keys_of (om_options (op_form s))"
    "\<And>i. 0 \<le> i \<Longrightarrow> arr_at i ys = (if Some i \<in> node_idx ` node_attrs ` set (cascade n) then Bool False else arr_at i xs)"
    using op_set_download_ok[OF assms(1) n _ leaf, of "Bool False"] ok by blast
  have "oget (fst (op_get_options h s3)) fp = Arr r (flags_to_numbers ys)"
    using s3(2,3) assms(6,7) has_key_keys[OF s3(4)] by (intro op_get_options_fp) (simp_all add: fp_stored_current)
  moreover have "arr_at i (flags_to_numbers ys) = JInt (if Some i \<in> node_idx ` node_attrs ` set (cascade n) then 0 else 1)"
    if a: "a \<in> set (all_files es)" "file_idx a = Some i" for a i
  proof -
    have i: "0 \<le> i" using a(2) idx_of_nonneg by (simp add: file_idx_def)
    have y: "arr_at i ys = Bool (Some i \<notin> node_idx ` node_attrs ` set (cascade n))"
      using s3(5)[OF i] all a by (simp add: all_checked_def)
    then have "i < int (length ys)" using arr_at_length[of i ys] by simp
    then show ?thesis using arr_at_flags[OF i, of ys] y by simp
  qed
  ultimately show ?thesis using s3(1) n ok[OF cascade_self] by (auto simp: op_on_node_click_def)
qed

text \<open>C18: From the file dialog to the daemon: a torrent with files is added and selected, and the user
  clicks the box of one node of its tree. Nothing fails, and the priorities then sent for the torrent
  are 0 for exactly the files at or below that node and 1 for all others.\<close>

theorem unchecked_files_are_skipped:
  assumes "op_fresh (ti_hash t) s" and "ti_files t = Some es" and "files_ok es" and "dirs_ok es" and "all_files es \<noteq> []"
    and "ti_hash t \<noteq> []" and "\<forall>a \<in> set (all_files es). oget a ''download'' = Bool True"
  shows "\<exists>s2. op_set_torrent (ti_hash t) (op_add_torrent t s) = Inr s2
    \<and> (\<forall>p n. node_at p (op_nodes s2) = Some n \<longrightarrow> (\<exists>r s3 ys. op_on_node_click p s2 = Inr s3
      \<and> oget (fst (op_get_options (ti_hash t) s3)) fp = Arr r ys
      \<and> (\<forall>a i. a \<in> set (all_files es) \<longrightarrow> file_idx a = Some i \<longrightarrow>
          arr_at i ys = JInt (if Some i \<in> node_idx ` node_attrs ` set (cascade n) then 0 else 1))))"
proof -
  let ?r = "op_next_ref s" and ?fl = "file_flags es" and ?s1 = "op_add_torrent t s"
  have at: "all_checked es ?fl" using file_flags_at[OF assms(3)] assms(7) by (simp add: all_checked_def)
  obtain q where q: "oget (om_options (op_form s)) fp = Arr q []" "q < ?r" using assms(1) by (auto simp: op_fresh_def)
  have st: "fp_stored (op_form ?s1) (ti_hash t) ?r ?fl"
    using assms(1) by (intro op_add_torrent_stores[OF assms(2,3,5) _ _ q]) (auto simp: op_fresh_def)
  have ne: "es \<noteq> []" using assms(5) by (auto simp: all_files_def)
  have s1: "map_of (op_torrents ?s1) (ti_hash t) = Some t" "op_nodes ?s1 = op_nodes s"
    by (simp_all add: op_add_torrent_def Let_def lookup_put)
  have opts: "om_options (op_form ?s1) = om_options (op_form s)"
    by (simp add: op_add_torrent_def Let_def with_id_def mo_change_id_def mo_set_default_def mo_set_default_one_def)
  have len: "length (op_nodes ?s1) \<le> 1" using assms(1) s1(2) by (simp add: op_fresh_def)
  obtain s2 where s2: "op_set_torrent (ti_hash t) ?s1 = Inr s2" "op_nodes s2 = List.map (grow (Arr ?r ?fl)) es"
    "fp_ok (op_form s2) ?r ?fl" "mo_current (op_form s2) = Some (ti_hash t)" "om_options (op_form s2) = om_options (op_form ?s1)"
    using op_set_torrent_added[OF assms(2) ne assms(6) len s1(1) st] by blast
  have key: "has_key (om_options (op_form s2)) fp" using q(1) s2(5) opts by (simp add: has_key_oget)
  show ?thesis using s2(1) click_flags[OF s2(3,2) assms(3,4) at s2(4) key] by blast
qed

text \<open>A torrent with one directory of two files, in a fresh panel.\<close>

definition two_files :: torrent_info where
  "two_files = \<lparr> ti_hash = ''h'', ti_name = ''d'', ti_filename = ''/tmp/d.torrent'', ti_files = Some [EDir ''d'' []
     [EFile ''a'' [(''index'', JInt 0), (''download'', Bool True), (''length'', JInt 10)],
      EFile ''b'' [(''index'', JInt 1), (''download'', Bool True), (''length'', JInt 20)]]] \<rparr>"

definition fresh_panel :: options_panel where
  "fresh_panel = op_get_defaults [(''add_paused'', Bool False)] op_new"

theorem unchecked_files_are_skipped_witness:
  "\<exists>s2. op_set_torrent ''h'' (op_add_torrent two_files fresh_panel) = Inr s2"
proof -
  let ?es = "[EDir ''d'' [] [EFile ''a'' [(''index'', JInt 0), (''download'', Bool True), (''length'', JInt 10)],
      EFile ''b'' [(''index'', JInt 1), (''download'', Bool True), (''length'', JInt 20)]]]"
  have t: "ti_files two_files = Some ?es" "ti_hash two_files = ''h''" by (simp_all add: two_files_def)
  have "map_of (mo_changed (op_form fresh_panel)) ''h'' = None" "map_of (mo_stored (op_form fresh_panel)) ''h'' = None"
    "oget (om_options (op_form fresh_panel)) fp = Arr 1 []" "1 < op_next_ref fresh_panel" "length (op_nodes fresh_panel) \<le> 1"
    by (code_simp+)
  then have f: "op_fresh (ti_hash two_files) fresh_panel" by (auto simp: op_fresh_def t)
  have e: "files_ok ?es" "dirs_ok ?es" "all_files ?es \<noteq> []" "\<forall>a \<in> set (all_files ?es). oget a ''download'' = Bool True"
    by (simp_all add: files_ok_def dirs_ok_def all_files_def file_idx_def oget_def idx_of_def)
  show ?thesis using unchecked_files_are_skipped[OF f t(1) e(1,2,3) _ e(4)] by (auto simp: t)
qed

text \<open>The first file of a torrent (index 0) is always shown as to be downloaded when the torrent is
  selected, whatever its priority is: an index is tested by its truth.\<close>

theorem first_file_always_checked:
  "oget (node_attrs (grow (Arr r xs) (EFile n (put ''index'' (JInt 0) a)))) ''download'' = Bool True"
  by (simp add: node_download_def)

end
