(* ===== verification/AddWindow.thy ===== *)
theory AddWindow
  imports AddOptions
begin

text \<open>
  The window that adds torrents (add/AddWindow.js) and the one that adds a torrent from
  an address (add/UrlWindow.js): the list of torrents, uploads and downloads whose
  information is still to come, and the request that adds them with their options.
  Requests, messages and events are the trace; ids made of the clock are arguments.
\<close>

section \<open>State\<close>

datatype add_effect =
    ReqAddTorrents "(string \<times> jsval obj) list"
  | ReqTorrentInfo string string
  | ReqMagnetInfo string string
  | ReqDownload string string string
  | Upload "string list"
  | ResetUploadForm
  | GetDefaults
  | ErrorMessage string
  | FireAddFailed "string option"
  | ShowUrlWindow
  | AddThrow js_error

text \<open>A row: its id, the info hash once it is known, and the text.\<close>

record add_row =
  ar_id :: string
  ar_hash :: "string option"
  ar_text :: string

record add_window =
  aw_rows :: "add_row list"
  aw_sel :: "string option"
  aw_visible :: bool
  aw_panel :: options_panel
  aw_trace :: "add_effect list"

definition aw_new :: add_window where
  "aw_new = \<lparr> aw_rows = [], aw_sel = None, aw_visible = False, aw_panel = op_new, aw_trace = [] \<rparr>"

definition aw_emit :: "add_effect \<Rightarrow> add_window \<Rightarrow> add_window" where
  "aw_emit e w = w\<lparr> aw_trace := aw_trace w @ [e] \<rparr>"

text \<open>An exception ends the handler with the state it has reached.\<close>

definition aw_try :: "options_panel result \<Rightarrow> (add_window \<Rightarrow> add_window) \<Rightarrow> add_window \<Rightarrow> add_window" where
  "aw_try r k w = (case r of Inl e \<Rightarrow> aw_emit (AddThrow e) w | Inr p \<Rightarrow> k (w\<lparr> aw_panel := p \<rparr>))"

section \<open>The list\<close>

definition aw_find :: "string \<Rightarrow> add_window \<Rightarrow> add_row option" where
  "aw_find i w = List.find (\<lambda>r. ar_id r = i) (aw_rows w)"

text \<open>\<open>onSelect\<close>: a row whose hash is not known yet has the hash null, and \<open>setTorrent\<close> returns at once.\<close>

definition aw_on_select :: "add_row option \<Rightarrow> add_window \<Rightarrow> add_window" where
  "aw_on_select x w = (case x of
     Some r \<Rightarrow> aw_try (case ar_hash r of None \<Rightarrow> Inr (aw_panel w) | Some h \<Rightarrow> op_set_torrent h (aw_panel w)) id w
   | None \<Rightarrow> w\<lparr> aw_panel := (aw_panel w)\<lparr> op_files_on := False, op_form_on := False \<rparr> \<rparr>)"

definition aw_select :: "string \<Rightarrow> add_window \<Rightarrow> add_window" where
  "aw_select i w = (if aw_sel w = Some i then w
     else (case aw_find i w of None \<Rightarrow> w | Some r \<Rightarrow> aw_on_select (Some r) (w\<lparr> aw_sel := Some i \<rparr>)))"

definition aw_deselect :: "add_window \<Rightarrow> add_window" where
  "aw_deselect w = (if aw_sel w = None then w else aw_on_select None (w\<lparr> aw_sel := None \<rparr>))"

definition aw_remove_row :: "string \<Rightarrow> add_window \<Rightarrow> add_window" where
  "aw_remove_row i w = (let w' = w\<lparr> aw_rows := List.filter (\<lambda>r. ar_id r \<noteq> i) (aw_rows w) \<rparr>
     in if aw_sel w = Some i then aw_deselect w' else w')"

definition aw_clear :: "(add_window \<Rightarrow> add_window) \<Rightarrow> add_window \<Rightarrow> add_window" where
  "aw_clear k w = (let w = aw_deselect (w\<lparr> aw_rows := [] \<rparr>) in
     aw_try (op_clear (aw_panel w)) (\<lambda>w. k (aw_emit ResetUploadForm w)) w)"

text \<open>Hiding shows the first tab the next time and disables both.\<close>

definition aw_on_hide :: "add_window \<Rightarrow> add_window" where
  "aw_on_hide w = w\<lparr> aw_panel := (aw_panel w)\<lparr> op_files_tab := True, op_files_on := False, op_form_on := False \<rparr> \<rparr>"

definition aw_hide :: "add_window \<Rightarrow> add_window" where
  "aw_hide w = (if aw_visible w then aw_on_hide (aw_on_hide (w\<lparr> aw_visible := False \<rparr>)) else w)"

definition aw_on_show :: "add_window \<Rightarrow> add_window" where
  "aw_on_show w = aw_emit GetDefaults w"

definition aw_show :: "add_window \<Rightarrow> add_window" where
  "aw_show w = (if aw_visible w then w else aw_on_show (aw_on_show (w\<lparr> aw_visible := True \<rparr>)))"

text \<open>The torrents of the request, in the order of the list. A row without a hash has no torrent, and
  reading its file name fails.\<close>

definition collect_one :: "add_row \<Rightarrow> (string \<times> jsval obj) list \<times> options_panel \<Rightarrow> ((string \<times> jsval obj) list \<times> options_panel) result" where
  "collect_one r x = (case x of (ts, p) \<Rightarrow>
     (case ar_hash r of None \<Rightarrow> Inl TypeError
      | Some h \<Rightarrow> bind_result (op_get_filename h p) (\<lambda>f.
          case op_get_options h p of (opts, p') \<Rightarrow> Inr (ts @ [(f, opts)], p'))))"

definition aw_on_add_click :: "add_window \<Rightarrow> add_window" where
  "aw_on_add_click w = (case each_result collect_one (aw_rows w) ([], aw_panel w) of
     Inl e \<Rightarrow> aw_emit (AddThrow e) w
   | Inr (ts, p) \<Rightarrow> aw_clear aw_hide (aw_emit (ReqAddTorrents ts) (w\<lparr> aw_panel := p \<rparr>)))"

definition aw_on_cancel_click :: "add_window \<Rightarrow> add_window" where
  "aw_on_cancel_click w = aw_clear aw_hide w"

text \<open>Removing the selected row clears the panel: the trees and the options of every torrent. The
  field \<open>torrents\<close> of the window does not exist, so the torrent stays known to the panel.\<close>

definition aw_on_remove :: "add_window \<Rightarrow> add_window" where
  "aw_on_remove w = (case aw_sel w of None \<Rightarrow> w
     | Some i \<Rightarrow> let w = aw_remove_row i w in aw_try (op_clear (aw_panel w)) id w)"

section \<open>Torrents that come in\<close>

text \<open>The record of a new row is appended; a row with the same id would be replaced in its place.\<close>

definition aw_on_torrent_before_add :: "string \<Rightarrow> string \<Rightarrow> add_window \<Rightarrow> add_window" where
  "aw_on_torrent_before_add i text w =
     (let r = \<lparr> ar_id = i, ar_hash = None, ar_text = text \<rparr>
      in w\<lparr> aw_rows := (if aw_find i w = None then aw_rows w @ [r]
                       else List.map (\<lambda>x. if ar_id x = i then r else x) (aw_rows w)) \<rparr>)"

text \<open>The information for a row; \<open>None\<close> when it is no torrent. A row that is gone fails: \<open>r\<close> is undefined.\<close>

definition aw_on_torrent_add :: "string \<Rightarrow> torrent_info option \<Rightarrow> add_window \<Rightarrow> add_window" where
  "aw_on_torrent_add i info w = (case info of
     None \<Rightarrow> aw_remove_row i (aw_emit (ErrorMessage ''Not a valid torrent'') w)
   | Some t \<Rightarrow> (case aw_find i w of
       None \<Rightarrow> aw_emit (AddThrow TypeError) w
     | Some r \<Rightarrow>
         let w = w\<lparr> aw_rows := List.map (\<lambda>r. if ar_id r = i then r\<lparr> ar_hash := Some (ti_hash t), ar_text := ti_name t \<rparr> else r) (aw_rows w),
                    aw_panel := op_add_torrent t (aw_panel w) \<rparr>
         in aw_select i w))"

definition aw_on_torrent_add_failed :: "string \<Rightarrow> add_window \<Rightarrow> add_window" where
  "aw_on_torrent_add_failed i w = (if aw_find i w = None then w else aw_remove_row i w)"

text \<open>Files chosen for upload: each gets a row whose id is the clock and its position.\<close>

definition upload_ids :: "string \<Rightarrow> string list \<Rightarrow> (string \<times> string) list" where
  "upload_ids random names = List.map (\<lambda>(i, n). (random @ i, n)) (enum_from 0 names)"

definition aw_on_file_selected :: "string \<Rightarrow> string list \<Rightarrow> add_window \<Rightarrow> add_window" where
  "aw_on_file_selected random names w = (let ids = upload_ids random names in
     aw_emit (Upload (List.map fst ids)) (each_do (\<lambda>(i, n). aw_on_torrent_before_add i n) ids w))"

text \<open>The reply to the upload: the names of the files on the server, for the ids in order.\<close>

definition aw_on_upload_success :: "bool \<Rightarrow> string list \<Rightarrow> string list \<Rightarrow> add_window \<Rightarrow> add_window" where
  "aw_on_upload_success ok files ids w =
     (if \<not> ok then aw_clear id w
      else aw_emit ResetUploadForm (each_do (\<lambda>(i, f). aw_emit (ReqTorrentInfo f i)) (zip ids files) w))"

definition aw_on_upload_failure :: "add_window \<Rightarrow> add_window" where
  "aw_on_upload_failure w = aw_emit (FireAddFailed None) (aw_emit (ErrorMessage ''Failed to upload torrent'') (aw_hide w))"

text \<open>The information about an uploaded file: null fails when its file name is set.\<close>

definition aw_on_got_info :: "string \<Rightarrow> string \<Rightarrow> torrent_info option \<Rightarrow> add_window \<Rightarrow> add_window" where
  "aw_on_got_info filename i info w = (case info of None \<Rightarrow> aw_emit (AddThrow TypeError) w
     | Some t \<Rightarrow> aw_on_torrent_add i (Some (t\<lparr> ti_filename := filename \<rparr>)) w)"

definition aw_on_url :: "add_window \<Rightarrow> add_window" where
  "aw_on_url w = aw_emit ShowUrlWindow w"

subsection \<open>From an address\<close>

fun contains :: "string \<Rightarrow> string \<Rightarrow> bool" where
  "contains p [] = (p = [])"
| "contains p (c # cs) = (take (length p) (c # cs) = p \<or> contains p cs)"

definition is_magnet :: "string \<Rightarrow> bool" where
  "is_magnet url = (take 8 url = ''magnet:?'' \<and> contains ''xt=urn:btih'' url)"

text \<open>A click on Add in the window for an address, and the replies to its requests.\<close>

definition url_on_add_click :: "string \<Rightarrow> string \<Rightarrow> string \<Rightarrow> add_window \<Rightarrow> add_window" where
  "url_on_add_click i url cookies w =
     aw_on_torrent_before_add i url (aw_emit (if is_magnet url then ReqMagnetInfo url i else ReqDownload url cookies i) w)"

definition url_on_download :: "string \<Rightarrow> string \<Rightarrow> add_window \<Rightarrow> add_window" where
  "url_on_download filename i w = aw_emit (ReqTorrentInfo filename i) w"

definition url_on_download_failed :: "string \<Rightarrow> add_window \<Rightarrow> add_window" where
  "url_on_download_failed i w = aw_on_torrent_add_failed i (aw_emit (ErrorMessage ''Failed to download torrent'') w)"

definition url_on_got_info :: "string \<Rightarrow> string \<Rightarrow> torrent_info option \<Rightarrow> add_window \<Rightarrow> add_window" where
  "url_on_got_info filename i info w = (case info of None \<Rightarrow> aw_emit (AddThrow TypeError) w
     | Some t \<Rightarrow> aw_on_torrent_add i (Some (t\<lparr> ti_filename := filename \<rparr>)) w)"

section \<open>Adding the rows\<close>

text \<open>The torrent of a row is known to the panel, with its file name.\<close>

definition row_known :: "options_panel \<Rightarrow> add_row \<Rightarrow> bool" where
  "row_known p r = (\<exists>h. ar_hash r = Some h \<and> map_of (op_torrents p) h \<noteq> None)"

definition row_file :: "options_panel \<Rightarrow> add_row \<Rightarrow> string" where
  "row_file p r = (case ar_hash r of None \<Rightarrow> [] | Some h \<Rightarrow> (case map_of (op_torrents p) h of None \<Rightarrow> [] | Some t \<Rightarrow> ti_filename t))"

lemma op_get_options_state:
  "op_torrents (snd (op_get_options h p)) = op_torrents p" "op_nodes (snd (op_get_options h p)) = op_nodes p"
  by (simp_all add: op_get_options_def mo_change_id_def Let_def split: jsval.split)

lemma collect_one_apply: "collect_one r (ts, p) = (case ar_hash r of None \<Rightarrow> Inl TypeError
    | Some h \<Rightarrow> bind_result (op_get_filename h p) (\<lambda>f.
        case op_get_options h p of (opts, p') \<Rightarrow> Inr (ts @ [(f, opts)], p')))"
  by (simp add: collect_one_def)

text \<open>Every row known: one entry for each, in the order of the list, with its file name.\<close>

lemma collect_known:
  assumes "\<forall>r \<in> set rs. row_known p r"
  shows "\<exists>ts p'. each_result collect_one rs (us, p) = Inr (us @ ts, p') \<and> List.map fst ts = List.map (row_file p) rs
    \<and> op_nodes p' = op_nodes p"
  using assms
proof (induction rs arbitrary: us p)
  case (Cons r rs)
  obtain h t where h: "ar_hash r = Some h" "map_of (op_torrents p) h = Some t"
    using Cons.prems by (auto simp: row_known_def)
  obtain opts q where q: "op_get_options h p = (opts, q)" by fastforce
  then have st: "op_torrents q = op_torrents p" "op_nodes q = op_nodes p"
    using op_get_options_state[of h p] by auto
  have "row_file q = row_file p" unfolding row_file_def fun_eq_iff st(1) by simp
  moreover have "\<forall>r \<in> set rs. row_known q r" using Cons.prems st(1) by (auto simp: row_known_def)
  ultimately obtain ts p' where
    "each_result collect_one rs (us @ [(ti_filename t, opts)], q) = Inr ((us @ [(ti_filename t, opts)]) @ ts, p')"
    "List.map fst ts = List.map (row_file p) rs" "op_nodes p' = op_nodes p"
    using Cons.IH[of q "us @ [(ti_filename t, opts)]"] st by auto
  then show ?case
    by (intro exI[of _ "(ti_filename t, opts) # ts"] exI[of _ p'])
      (simp add: collect_one_apply h q op_get_filename_def row_file_def)
qed simp

lemma collect_pending:
  assumes "r \<in> set rs" and "\<not> row_known p r"
  shows "each_result collect_one rs (us, p) = Inl TypeError"
  using assms
proof (induction rs arbitrary: us p)
  case (Cons x rs)
  show ?case
  proof (cases "row_known p x")
    case True
    then obtain h t where h: "ar_hash x = Some h" "map_of (op_torrents p) h = Some t" by (auto simp: row_known_def)
    obtain opts q where q: "op_get_options h p = (opts, q)" by fastforce
    have "op_torrents q = op_torrents p" using op_get_options_state[of h p] q by auto
    moreover have "r \<in> set rs" using Cons.prems True by auto
    ultimately show ?thesis
      using Cons.IH[of q] Cons.prems(2) by (simp add: collect_one_apply h q op_get_filename_def row_known_def)
  next
    case False
    then show ?thesis
      by (auto simp: collect_one_apply row_known_def op_get_filename_def split: option.splits)
  qed
qed simp

text \<open>Clearing an empty or cleared list.\<close>

lemma aw_deselect_rows: "aw_deselect (w\<lparr> aw_rows := rs \<rparr>) = w\<lparr> aw_rows := rs, aw_sel := None,
    aw_panel := (if aw_sel w = None then aw_panel w else (aw_panel w)\<lparr> op_files_on := False, op_form_on := False \<rparr>) \<rparr>"
  by (simp add: aw_deselect_def aw_on_select_def)

lemma op_clear_small: "length (op_nodes p) \<le> 1 \<Longrightarrow> op_clear p = Inr (p\<lparr> op_nodes := [], op_form := mo_reset_all (op_form p) \<rparr>)"
  by (simp add: op_clear_def clear_nodes_small)


section \<open>Removing a row\<close>

text \<open>Values that are not objects have no identity to write through.\<close>

definition plain_val :: "jsval \<Rightarrow> bool" where
  "plain_val v = (case v of Arr r xs \<Rightarrow> False | Obj r ps \<Rightarrow> False | _ \<Rightarrow> True)"

lemma poke_plain [simp]: "plain_val v \<Longrightarrow> poke r f v = v"
  by (cases v) (simp_all add: plain_val_def)

lemma copy_props: "wf_obj (ob @ xs) \<Longrightarrow> for_in put xs ob = ob @ xs" for xs :: "('a \<times> 'b) list"
proof (induction xs arbitrary: ob)
  case (Cons kv xs)
  moreover have "put k v ob = ob @ [(k, v)]" if "k \<notin> fst ` set ob" for k v and ob :: "('a \<times> 'b) list"
    using that by (induction ob) auto
  ultimately have "put (fst kv) (snd kv) ob = ob @ [kv]"
    by (cases kv) (auto simp: wf_obj_def)
  then show ?case using Cons by (cases kv) simp
qed simp

lemma mo_get_all_initial:
  assumes "mo_stored m = []" and "mo_changed m = []" and "wf_obj (om_options m)"
  shows "mo_get_all m = om_options m"
proof -
  have g: "mo_get m k = oget (om_options m) k" for k
    using assms(1,2) by (simp add: mo_get_def mo_is_dirty_def mo_get_default_def mo_has_def mo_cur_changed_def mo_cur_stored_def)
  have "for_in (\<lambda>k v ob. put k (mo_get m k) ob) xs ob = for_in put xs ob"
    if "set xs \<subseteq> set (om_options m)" for xs ob
    using that
  proof (induction xs arbitrary: ob)
    case (Cons kv xs)
    have "map_of (om_options m) (fst kv) = Some (snd kv)"
      using Cons.prems assms(3) by (intro map_of_is_SomeI) (auto simp: wf_obj_def)
    then have "mo_get m (fst kv) = snd kv" by (simp add: g oget_def)
    then show ?case using Cons by (cases kv) simp
  qed simp
  then show ?thesis using copy_props[of "[]" "om_options m"] assms(3) by (simp add: mo_get_all_def)
qed

text \<open>The options of a torrent for which nothing is kept are those of the configuration.\<close>

definition plain_panel :: "nat \<Rightarrow> jsval obj \<Rightarrow> options_panel \<Rightarrow> bool" where
  "plain_panel q config p = (mo_stored (op_form p) = [] \<and> mo_changed (op_form p) = []
     \<and> om_options (op_form p) = add_defaults q config)"

lemma plain_options:
  assumes "plain_panel q config p" and "\<forall>k. plain_val (oget config k)"
  shows "fst (op_get_options h p) = add_defaults q config" and "plain_panel q config (snd (op_get_options h p))"
proof -
  let ?d = "add_defaults q config" and ?m = "(op_form p)\<lparr> mo_current := Some h \<rparr>"
  have "wf_obj ?d" by (simp add: add_defaults_def wf_obj_def)
  then have all: "mo_get_all ?m = ?d"
    using assms(1) mo_get_all_initial[of ?m] by (simp add: plain_panel_def)
  have same: "poke_obj q flags_to_numbers ?d = ?d"
    using assms(2) by (simp add: poke_obj_def add_defaults_def flags_to_numbers_def plain_val_def)
  have fp: "oget ?d ''file_priorities'' = Arr q []" by (simp add: add_defaults_def oget_def)
  show "fst (op_get_options h p) = ?d" "plain_panel q config (snd (op_get_options h p))"
    using assms(1) by (simp_all add: op_get_options_def mo_change_id_def Let_def all fp same plain_panel_def mo_poke_def)
qed

lemma collect_plain:
  assumes "plain_panel q config p" and "\<forall>k. plain_val (oget config k)" and "\<forall>r \<in> set rs. row_known p r"
  shows "\<exists>p'. each_result collect_one rs (us, p) = Inr (us @ List.map (\<lambda>r. (row_file p r, add_defaults q config)) rs, p')
    \<and> op_nodes p' = op_nodes p"
  using assms
proof (induction rs arbitrary: us p)
  case (Cons r rs)
  obtain h t where h: "ar_hash r = Some h" "map_of (op_torrents p) h = Some t"
    using Cons.prems(3) by (auto simp: row_known_def)
  obtain opts x where x: "op_get_options h p = (opts, x)" by fastforce
  then have st: "op_torrents x = op_torrents p" "op_nodes x = op_nodes p" "opts = add_defaults q config"
    "plain_panel q config x"
    using op_get_options_state[of h p] plain_options[OF Cons.prems(1,2), of h] by auto
  have f: "row_file x = row_file p" unfolding row_file_def fun_eq_iff st(1) by simp
  have "\<forall>r \<in> set rs. row_known x r" using Cons.prems(3) st(1) by (auto simp: row_known_def)
  then obtain p' where "op_nodes p' = op_nodes p" "each_result collect_one rs (us @ [(ti_filename t, opts)], x)
      = Inr ((us @ [(ti_filename t, opts)]) @ List.map (\<lambda>r. (row_file p r, add_defaults q config)) rs, p')"
    using Cons.IH[OF st(4) Cons.prems(2), of "us @ [(ti_filename t, opts)]"] st(2) f by auto
  moreover have "row_file p r = ti_filename t" by (simp add: row_file_def h)
  ultimately show ?case
    by (intro exI[of _ p']) (simp add: collect_one_apply h x op_get_filename_def st(3))
qed simp

text \<open>The Remove button forgets the options of every torrent, not of the removed one only: an Add
  that follows sends each of the other torrents with the options of the configuration and no file
  priorities, whatever was chosen for it before.\<close>

theorem remove_forgets_options:
  assumes "aw_sel w = Some i" and "length (op_nodes (aw_panel w)) \<le> 1"
    and "om_options (op_form (aw_panel w)) = add_defaults q config" and "\<forall>k. plain_val (oget config k)"
    and "\<forall>r \<in> set (aw_rows w). row_known (aw_panel w) r"
  shows "aw_trace (aw_on_add_click (aw_on_remove w)) = aw_trace w
    @ [ReqAddTorrents (List.map (\<lambda>r. (row_file (aw_panel w) r, add_defaults q config))
         (List.filter (\<lambda>r. ar_id r \<noteq> i) (aw_rows w))), ResetUploadForm]"
proof -
  define p where "p = (aw_panel w)\<lparr> op_files_on := False, op_form_on := False, op_nodes := [], op_form := mo_reset_all (op_form (aw_panel w)) \<rparr>"
  let ?rs = "List.filter (\<lambda>r. ar_id r \<noteq> i) (aw_rows w)"
  have "op_clear ((aw_panel w)\<lparr> op_files_on := False, op_form_on := False \<rparr>) = Inr p"
    using op_clear_small[of "(aw_panel w)\<lparr> op_files_on := False, op_form_on := False \<rparr>"] assms(2) by (simp add: p_def)
  then have rm: "aw_on_remove w = w\<lparr> aw_rows := ?rs, aw_sel := None, aw_panel := p \<rparr>"
    using assms(1) by (simp add: aw_on_remove_def aw_remove_row_def aw_deselect_rows aw_try_def Let_def)
  have "om_options (mo_reset_all m) = om_options m" "mo_stored (mo_reset_all m) = []" "mo_changed (mo_reset_all m) = []" for m
    by (simp_all add: mo_reset_all_def mo_change_id_state)
  then have "plain_panel q config p" using assms(3) by (simp add: plain_panel_def p_def)
  moreover have t: "op_torrents p = op_torrents (aw_panel w)" by (simp add: p_def)
  then have "\<forall>r \<in> set ?rs. row_known p r" using assms(5) by (auto simp: row_known_def)
  moreover have f: "row_file p = row_file (aw_panel w)" unfolding row_file_def fun_eq_iff t by simp
  ultimately obtain p' where p': "op_nodes p' = []" "each_result collect_one ?rs ([], p)
      = Inr (List.map (\<lambda>r. (row_file (aw_panel w) r, add_defaults q config)) ?rs, p')"
    using collect_plain[OF _ assms(4), of q p ?rs "[]"] by (auto simp: p_def)
  then show ?thesis
    by (simp add: aw_on_add_click_def rm aw_clear_def aw_deselect_rows aw_try_def op_clear_small aw_emit_def aw_hide_def aw_on_hide_def Let_def)
qed

text \<open>A list of two magnet links, the first of them with a choice of its own.\<close>

definition two_magnets :: add_window where
  "two_magnets = \<lparr>
     aw_rows = [\<lparr> ar_id = ''1'', ar_hash = Some ''aa'', ar_text = ''A'' \<rparr>, \<lparr> ar_id = ''2'', ar_hash = Some ''bb'', ar_text = ''B'' \<rparr>],
     aw_sel = Some ''2'', aw_visible = True,
     aw_panel = op_new\<lparr>
       op_torrents := [(''aa'', \<lparr> ti_hash = ''aa'', ti_name = ''A'', ti_filename = ''m1'', ti_files = None \<rparr>),
                       (''bb'', \<lparr> ti_hash = ''bb'', ti_name = ''B'', ti_filename = ''m2'', ti_files = None \<rparr>)],
       op_form := (mo_new (add_defaults 1 [(''add_paused'', Bool False)]))\<lparr>
         mo_changed := [(''aa'', [(''add_paused'', Bool True)])] \<rparr> \<rparr>,
     aw_trace = [] \<rparr>"

lemma two_magnets_known: "\<forall>r \<in> set (aw_rows two_magnets). row_known (aw_panel two_magnets) r"
  by (simp add: two_magnets_def row_known_def)

lemma two_magnets_paused: "mo_get ((op_form (aw_panel two_magnets))\<lparr> mo_current := Some ''aa'' \<rparr>) ''add_paused'' = Bool True"
  by (simp add: two_magnets_def mo_get_def mo_is_dirty_def is_empty_def oget_def)

lemma remove_forgets_options_witness:
  "aw_trace (aw_on_add_click (aw_on_remove two_magnets)) = aw_trace two_magnets
    @ [ReqAddTorrents [(''m1'', add_defaults 1 [(''add_paused'', Bool False)])], ResetUploadForm]"
proof -
  have "aw_sel two_magnets = Some ''2''" "length (op_nodes (aw_panel two_magnets)) \<le> 1"
    "om_options (op_form (aw_panel two_magnets)) = add_defaults 1 [(''add_paused'', Bool False)]"
    by (simp_all add: two_magnets_def op_new_def mo_new_def)
  moreover have "\<forall>k. plain_val (oget [(''add_paused'', Bool False)] k)" by (simp add: oget_def plain_val_def)
  ultimately show ?thesis
    using remove_forgets_options[of two_magnets "''2''" 1 "[(''add_paused'', Bool False)]"] two_magnets_known
    by (simp add: two_magnets_def row_file_def)
qed


section \<open>Reachable states\<close>

inductive aw_step :: "add_window \<Rightarrow> add_window \<Rightarrow> bool" where
  "aw_step w (aw_show w)"
| "aw_step w (aw_hide w)"
| "aw_step w (aw_select i w)"
| "aw_step w (aw_deselect w)"
| "aw_step w (aw_on_add_click w)"
| "aw_step w (aw_on_cancel_click w)"
| "aw_step w (aw_on_remove w)"
| "aw_step w (aw_on_file_selected random names w)"
| "aw_step w (aw_on_upload_success ok files ids w)"
| "aw_step w (aw_on_upload_failure w)"
| "aw_step w (aw_on_got_info filename i info w)"
| "aw_step w (aw_on_url w)"
| "aw_step w (url_on_add_click i url cookies w)"
| "aw_step w (url_on_download filename i w)"
| "aw_step w (url_on_download_failed i w)"
| "aw_step w (url_on_got_info filename i info w)"
| "aw_step w (w\<lparr> aw_panel := op_get_defaults config (aw_panel w) \<rparr>)"
| "aw_step w (aw_try (op_on_node_click p (aw_panel w)) id w)"

inductive aw_reach :: "add_window \<Rightarrow> bool" where
  start: "aw_reach aw_new"
| step: "aw_reach w \<Longrightarrow> aw_step w w' \<Longrightarrow> aw_reach w'"

definition aw_ok :: "add_window \<Rightarrow> bool" where
  "aw_ok w = (distinct (List.map ar_id (aw_rows w)) \<and> (\<forall>i. aw_sel w = Some i \<longrightarrow> i \<in> ar_id ` set (aw_rows w))
     \<and> (\<forall>r \<in> set (aw_rows w). ar_hash r \<noteq> None \<longrightarrow> row_known (aw_panel w) r))"

text \<open>The panel keeps the torrents it knows.\<close>

lemma op_set_torrent_torrents: "op_set_torrent h p = Inr p' \<Longrightarrow> op_torrents p' = op_torrents p"
  by (cases "clear_nodes (op_nodes p)")
    (auto simp: op_set_torrent_def Let_def split: if_splits option.splits)

lemma op_clear_torrents: "op_clear p = Inr p' \<Longrightarrow> op_torrents p' = op_torrents p"
  by (cases "clear_nodes (op_nodes p)") (auto simp: op_clear_def)

lemma op_click_torrents: "op_on_node_click q p = Inr p' \<Longrightarrow> op_torrents p' = op_torrents p"
proof -
  have c: "op_on_files_checked ns v s = Inr s' \<Longrightarrow> op_torrents s' = op_torrents s" for ns v and s s' :: options_panel
    by (cases "each_result (check_one v) ns (op_form s)") (auto simp: op_on_files_checked_def)
  show "op_on_node_click q p = Inr p' \<Longrightarrow> op_torrents p' = op_torrents p"
    by (auto simp: op_on_node_click_def op_set_download_def Let_def split: option.splits if_splits dest: c)
qed

lemma aw_ok_panel: "aw_ok w \<Longrightarrow> op_torrents p = op_torrents (aw_panel w) \<Longrightarrow> aw_ok (w\<lparr> aw_panel := p \<rparr>)"
  by (simp add: aw_ok_def row_known_def)

lemma aw_ok_emit [simp]: "aw_ok (aw_emit e w) = aw_ok w"
  by (simp add: aw_ok_def aw_emit_def)

lemma aw_ok_visible [simp]: "aw_ok (w\<lparr> aw_visible := b \<rparr>) = aw_ok w"
  by (simp add: aw_ok_def)

lemma aw_ok_try:
  assumes "aw_ok w" and "\<And>p. r = Inr p \<Longrightarrow> op_torrents p = op_torrents (aw_panel w)" and "\<And>w. aw_ok w \<Longrightarrow> aw_ok (k w)"
  shows "aw_ok (aw_try r k w)"
  using assms by (auto simp: aw_try_def intro: aw_ok_panel split: sum.split)

lemma aw_ok_on_select: "aw_ok w \<Longrightarrow> aw_ok (aw_on_select x w)"
  by (auto simp: aw_on_select_def intro!: aw_ok_try aw_ok_panel dest: op_set_torrent_torrents split: option.splits)

lemma aw_ok_select: "aw_ok w \<Longrightarrow> aw_ok (aw_select i w)"
proof -
  have "aw_ok (w\<lparr> aw_sel := Some i \<rparr>)" if "aw_ok w" "aw_find i w = Some r" for r
    using that by (auto simp: aw_ok_def aw_find_def find_Some_iff)
  then show "aw_ok w \<Longrightarrow> aw_ok (aw_select i w)"
    by (auto simp: aw_select_def intro: aw_ok_on_select split: option.split)
qed

lemma aw_ok_rows:
  assumes "aw_ok w" and "distinct (List.map ar_id rs)" and "set rs \<subseteq> set (aw_rows w)"
    and "\<And>i. x = Some i \<Longrightarrow> i \<in> ar_id ` set rs" and "op_torrents p = op_torrents (aw_panel w)"
  shows "aw_ok (w\<lparr> aw_rows := rs, aw_sel := x, aw_panel := p \<rparr>)"
  using assms by (auto simp: aw_ok_def row_known_def)

lemma aw_deselect_eq: "aw_deselect w = w\<lparr> aw_sel := None,
    aw_panel := (if aw_sel w = None then aw_panel w else (aw_panel w)\<lparr> op_files_on := False, op_form_on := False \<rparr>) \<rparr>"
  using aw_deselect_rows[of "aw_rows w" w] by simp

lemma aw_ok_deselect: "aw_ok w \<Longrightarrow> aw_ok (aw_deselect w)"
  unfolding aw_deselect_eq using aw_ok_rows[of w "aw_rows w" None] by (simp add: aw_ok_def)

lemma aw_ok_remove_row:
  assumes "aw_ok w"
  shows "aw_ok (aw_remove_row i w)"
proof -
  let ?rs = "List.filter (\<lambda>r. ar_id r \<noteq> i) (aw_rows w)"
  have d: "distinct (List.map ar_id ?rs)" "set ?rs \<subseteq> set (aw_rows w)"
    using assms by (auto simp: aw_ok_def distinct_map_filter)
  show ?thesis
  proof (cases "aw_sel w = Some i")
    case True
    then show ?thesis using aw_ok_rows[OF assms d, of None] by (simp add: aw_remove_row_def aw_deselect_rows)
  next
    case False
    have "j \<in> ar_id ` set ?rs" if "aw_sel w = Some j" for j
      using assms that False by (auto simp: aw_ok_def)
    then have "aw_ok (w\<lparr> aw_rows := ?rs, aw_sel := aw_sel w, aw_panel := aw_panel w \<rparr>)"
      by (intro aw_ok_rows[OF assms d]) simp_all
    then show ?thesis using False by (simp add: aw_remove_row_def)
  qed
qed

lemma aw_ok_clear:
  assumes "aw_ok w" and "\<And>w. aw_ok w \<Longrightarrow> aw_ok (k w)"
  shows "aw_ok (aw_clear k w)"
  using aw_ok_rows[OF assms(1), of "[]" None] assms(2)
  unfolding aw_clear_def aw_deselect_rows Let_def
  by (intro aw_ok_try) (simp_all add: op_clear_torrents)

lemma aw_ok_hide: "aw_ok w \<Longrightarrow> aw_ok (aw_hide w)"
  unfolding aw_hide_def aw_on_hide_def by (auto intro!: aw_ok_panel)

lemma aw_ok_before_add:
  assumes "aw_ok w"
  shows "aw_ok (aw_on_torrent_before_add i text w)"
proof -
  let ?r = "\<lparr> ar_id = i, ar_hash = None, ar_text = text \<rparr>"
  have m: "List.map ar_id (List.map (\<lambda>x. if ar_id x = i then ?r else x) rs) = List.map ar_id rs" for rs by simp
  then have s: "ar_id ` set (List.map (\<lambda>x. if ar_id x = i then ?r else x) rs) = ar_id ` set rs" for rs
    by (metis list.set_map)
  show ?thesis
  proof (cases "aw_find i w")
    case None
    then show ?thesis using assms
      by (auto simp: aw_on_torrent_before_add_def aw_ok_def aw_find_def find_None_iff row_known_def)
  next
    case (Some x)
    define rs where "rs = List.map (\<lambda>x. if ar_id x = i then ?r else x) (aw_rows w)"
    have "\<forall>y \<in> set rs. ar_hash y \<noteq> None \<longrightarrow> row_known (aw_panel w) y"
      using assms by (auto simp: aw_ok_def rs_def)
    moreover have "aw_on_torrent_before_add i text w = w\<lparr> aw_rows := rs \<rparr>"
      using Some by (simp add: aw_on_torrent_before_add_def rs_def)
    ultimately show ?thesis using assms s[of "aw_rows w"] m[of "aw_rows w"]
      by (simp add: aw_ok_def flip: rs_def del: list.map_comp)
  qed
qed

lemma aw_ok_torrent_add:
  assumes "aw_ok w"
  shows "aw_ok (aw_on_torrent_add i info w)"
proof (cases info)
  case (Some t)
  let ?f = "\<lambda>r. if ar_id r = i then r\<lparr> ar_hash := Some (ti_hash t), ar_text := ti_name t \<rparr> else r"
  let ?p = "op_add_torrent t (aw_panel w)"
  have tor: "op_torrents ?p = put (ti_hash t) t (op_torrents (aw_panel w))" by (simp add: op_add_torrent_def Let_def)
  define rs where "rs = List.map ?f (aw_rows w)"
  have ids: "List.map ar_id rs = List.map ar_id (aw_rows w)" by (simp add: rs_def)
  then have "ar_id ` set rs = ar_id ` set (aw_rows w)" by (metis list.set_map)
  moreover have "\<forall>r \<in> set rs. ar_hash r \<noteq> None \<longrightarrow> row_known ?p r"
  proof -
    have "row_known ?p r" if "row_known (aw_panel w) r" for r
      using that by (cases "ar_hash r") (auto simp: row_known_def tor lookup_put)
    moreover have "row_known ?p (r\<lparr> ar_hash := Some (ti_hash t), ar_text := ti_name t \<rparr>)" for r
      by (simp add: row_known_def tor lookup_put)
    ultimately show ?thesis using assms by (auto simp: aw_ok_def rs_def)
  qed
  ultimately have "aw_ok (w\<lparr> aw_rows := rs, aw_panel := ?p \<rparr>)"
    using assms by (simp add: aw_ok_def ids)
  then show ?thesis using assms Some
    by (auto simp: aw_on_torrent_add_def Let_def simp flip: rs_def intro: aw_ok_select split: option.split)
qed (use assms in \<open>auto simp: aw_on_torrent_add_def intro: aw_ok_remove_row\<close>)

lemmas aw_ok_intros = aw_ok_select aw_ok_deselect aw_ok_clear aw_ok_hide aw_ok_remove_row aw_ok_before_add aw_ok_torrent_add

lemma aw_ok_each: "aw_ok w \<Longrightarrow> (\<And>x w. aw_ok w \<Longrightarrow> aw_ok (f x w)) \<Longrightarrow> aw_ok (each_do f xs w)"
  by (rule each_do_invariant) auto

lemma collect_torrents: "each_result collect_one rs (us, p) = Inr (ts, p') \<Longrightarrow> op_torrents p' = op_torrents p"
proof (induction rs arbitrary: us p)
  case (Cons r rs)
  then obtain h f where "ar_hash r = Some h" "op_get_filename h p = Inr f"
    by (cases "ar_hash r"; cases "op_get_filename (the (ar_hash r)) p") (auto simp: collect_one_apply)
  moreover obtain opts q where "op_get_options h p = (opts, q)" by fastforce
  ultimately show ?case using Cons op_get_options_state(1)[of h p] by (auto simp: collect_one_apply)
qed simp

lemma aw_ok_step: "aw_step w w' \<Longrightarrow> aw_ok w \<Longrightarrow> aw_ok w'"
proof (induction rule: aw_step.induct)
  case (5 w)
  show ?case
  proof (cases "each_result collect_one (aw_rows w) ([], aw_panel w)")
    case (Inr x)
    then obtain ts p where x: "each_result collect_one (aw_rows w) ([], aw_panel w) = Inr (ts, p)" by (cases x) auto
    then have "aw_ok (w\<lparr> aw_panel := p \<rparr>)" using 5 collect_torrents[OF x] by (intro aw_ok_panel) auto
    then show ?thesis by (auto simp: aw_on_add_click_def x intro!: aw_ok_intros)
  qed (use 5 in \<open>simp add: aw_on_add_click_def\<close>)
next
  case (7 w)
  then show ?case
    by (auto simp: aw_on_remove_def Let_def intro!: aw_ok_try aw_ok_remove_row dest: op_clear_torrents split: option.split)
next
  case (18 w p)
  then show ?case by (auto intro!: aw_ok_try dest: op_click_torrents)
next
  case (17 w config)
  then show ?case by (auto intro!: aw_ok_panel simp: op_get_defaults_def)
qed (auto simp: aw_show_def aw_on_show_def aw_on_cancel_click_def aw_on_file_selected_def aw_on_upload_success_def
    aw_on_upload_failure_def aw_on_got_info_def aw_on_url_def url_on_add_click_def url_on_download_def
    url_on_download_failed_def aw_on_torrent_add_failed_def url_on_got_info_def Let_def
    intro!: aw_ok_intros aw_ok_each split: option.split)



end
