(* ===== verification/DetailsFiles.thy ===== *)
theory DetailsFiles
  imports FileTree
begin

text \<open>
  The files of the selected torrent (details/FilesTab.js) with the selection of the tree
  (extjs/ext-extensions/tree/MultiSelectionModelFix.js): the tree made of the first
  reply, the walk that brings it up to date, the clicks that select, and the menu that
  sets priorities. Nodes have the id the tree library gives them; a node that was taken
  out of the tree can still be selected. The order in which the tree shows the nodes of
  a directory is left to its sorter.
\<close>

section \<open>State\<close>

datatype files_effect =
    ReqTorrentFiles string
  | ReqFilePriorities "string option" "jsval list" "int list" jsval
  | ShowPrioritiesMenu
  | ExpandAllNodes
  | FilesThrow js_error

text \<open>\<open>ft_gone\<close> are the subtrees that were removed, \<open>ft_last\<close> is \<open>lastSelNode\<close>.\<close>

record files_tab =
  ft_torrent :: "string option"
  ft_nodes :: "node list"
  ft_gone :: "node list"
  ft_sel :: "int list"
  ft_last :: "int option"
  ft_next :: int
  ft_trace :: "files_effect list"

definition ft_new :: files_tab where
  "ft_new = \<lparr> ft_torrent = None, ft_nodes = [], ft_gone = [], ft_sel = [], ft_last = None, ft_next = 0, ft_trace = [] \<rparr>"

definition ft_emit :: "files_effect \<Rightarrow> files_tab \<Rightarrow> files_tab" where
  "ft_emit e s = s\<lparr> ft_trace := ft_trace s @ [e] \<rparr>"

fun num_int :: "jsval \<Rightarrow> int" where
  "num_int (Num (Fin x)) = \<lfloor>x\<rfloor>"
| "num_int v = -1"

definition node_id :: "node \<Rightarrow> int" where
  "node_id n = num_int (oget (node_attrs n) ''id'')"

section \<open>The tree\<close>

text \<open>\<open>createFileTree\<close>: a node for each entry, numbered in the order of creation.\<close>

definition file_attrs :: "int \<Rightarrow> entry \<Rightarrow> jsval obj" where
  "file_attrs i e = (let a = entry_attrs e in
     [(''id'', JInt i), (''text'', Str (entry_name e)), (''filename'', Str (entry_name e))]
     @ (case e of EFile n b \<Rightarrow> [(''fileIndex'', oget a ''index'')] | EDir n b ds \<Rightarrow> [])
     @ [(''size'', oget a ''size''), (''progress'', oget a ''progress''), (''priority'', oget a ''priority'')])"

fun count_entries :: "entry \<Rightarrow> int" where
  "count_entries (EFile n a) = 1"
| "count_entries (EDir n a ds) = 1 + sum_list (List.map count_entries ds)"

function make_nodes :: "int \<Rightarrow> entry list \<Rightarrow> node list" where
  "make_nodes i [] = []"
| "make_nodes i (EFile n a # es) = Node (file_attrs i (EFile n a)) True [] # make_nodes (i + 1) es"
| "make_nodes i (EDir n a ds # es) = Node (file_attrs i (EDir n a ds)) False (make_nodes (i + 1) ds)
     # make_nodes (i + count_entries (EDir n a ds)) es"
  by pat_completeness auto

termination make_nodes
  by (relation "measure (\<lambda>(i, es). size_list size es)") auto

text \<open>An empty reply makes no first node to expand.\<close>

definition ft_create :: "entry list \<Rightarrow> files_tab \<Rightarrow> files_tab" where
  "ft_create es s = (let s = s\<lparr> ft_nodes := ft_nodes s @ make_nodes (ft_next s) es,
       ft_next := ft_next s + sum_list (List.map count_entries es) \<rparr>
     in if ft_nodes s = [] then ft_emit (FilesThrow TypeError) s else s)"

text \<open>\<open>findChild('filename', name)\<close>\<close>

fun find_child :: "string \<Rightarrow> node list \<Rightarrow> nat option" where
  "find_child f [] = None"
| "find_child f (n # ns) = (if oget (node_attrs n) ''filename'' = Str f then Some 0 else map_option Suc (find_child f ns))"

definition refresh_attrs :: "jsval obj \<Rightarrow> jsval obj \<Rightarrow> jsval obj" where
  "refresh_attrs a b = put ''priority'' (oget a ''priority'') (put ''progress'' (oget a ''progress'')
     (put ''size'' (oget a ''size'') b))"

text \<open>The walk of \<open>updateFileTree\<close>: the nodes it has changed, and whether it ended in an exception
  on an entry that has no node.\<close>

function update_walk :: "entry list \<Rightarrow> node list \<Rightarrow> node list \<times> bool" where
  "update_walk [] ns = (ns, True)"
| "update_walk (EFile f a # es) ns = (case find_child f ns of None \<Rightarrow> (ns, False)
     | Some i \<Rightarrow> (case ns ! i of Node b l cs \<Rightarrow> update_walk es (ns[i := Node (refresh_attrs a b) l cs])))"
| "update_walk (EDir f a ds # es) ns = (case find_child f ns of None \<Rightarrow> (ns, False)
     | Some i \<Rightarrow> (case ns ! i of Node b l cs \<Rightarrow> (case update_walk ds cs of (cs', ok) \<Rightarrow>
         let ns = ns[i := Node (refresh_attrs a b) l cs'] in if ok then update_walk es ns else (ns, False))))"
  by pat_completeness auto

termination update_walk
  by (relation "measure (\<lambda>(es, ns). size_list size es)") auto

definition ft_update_tree :: "entry list \<Rightarrow> files_tab \<Rightarrow> files_tab" where
  "ft_update_tree es s = (case update_walk es (ft_nodes s) of (ns, ok) \<Rightarrow>
     let s = s\<lparr> ft_nodes := ns \<rparr> in if ok then s else ft_emit (FilesThrow TypeError) s)"

definition ft_on_request_complete :: "entry list \<Rightarrow> files_tab \<Rightarrow> files_tab" where
  "ft_on_request_complete es s = (if ft_nodes s = [] then ft_create es s else ft_update_tree es s)"

section \<open>Selection\<close>

definition all_live :: "files_tab \<Rightarrow> node list" where
  "all_live s = all_nodes (ft_nodes s)"

definition find_node :: "int \<Rightarrow> files_tab \<Rightarrow> node option" where
  "find_node i s = List.find (\<lambda>n. node_id n = i) (all_nodes (ft_nodes s @ ft_gone s))"

definition selected_nodes :: "files_tab \<Rightarrow> node list" where
  "selected_nodes s = List.map_filter (\<lambda>i. find_node i s) (ft_sel s)"

definition ft_select :: "int \<Rightarrow> bool \<Rightarrow> files_tab \<Rightarrow> files_tab" where
  "ft_select i keep s = (let s = (if keep then s else s\<lparr> ft_sel := [] \<rparr>)
     in s\<lparr> ft_sel := (if i \<in> set (ft_sel s) then ft_sel s else ft_sel s @ [i]), ft_last := Some i \<rparr>)"

definition ft_unselect :: "int \<Rightarrow> files_tab \<Rightarrow> files_tab" where
  "ft_unselect i s = s\<lparr> ft_sel := remove1 i (ft_sel s) \<rparr>"

text \<open>The children of every node, with its id; the parent of the top is the hidden root (\<open>None\<close>). A removed
  node at the top of its subtree has no parent.\<close>

fun node_groups :: "node \<Rightarrow> (int option \<times> int list) list" where
  "node_groups (Node a l cs) = (Some (node_id (Node a l cs)), List.map node_id cs) # concat (List.map node_groups cs)"

definition groups :: "files_tab \<Rightarrow> (int option \<times> int list) list" where
  "groups s = (None, List.map node_id (ft_nodes s)) # concat (List.map node_groups (ft_nodes s @ ft_gone s))"

definition group_of :: "int \<Rightarrow> files_tab \<Rightarrow> (int option \<times> int list) option" where
  "group_of i s = List.find (\<lambda>(p, is). i \<in> set is) (groups s)"

text \<open>A click on a node with the keys held: \<open>onNodeClick\<close> of the selection model.\<close>

definition between :: "int \<Rightarrow> int \<Rightarrow> int list \<Rightarrow> int list" where
  "between a b is = (let fi = index_of a is; li = index_of b is; lo = min fi li; hi = max fi li
     in List.map snd (List.filter (\<lambda>(k, i). lo < int k \<and> int k < hi) (enumerate 0 is)))"

definition ft_on_node_click :: "bool \<Rightarrow> bool \<Rightarrow> int \<Rightarrow> files_tab \<Rightarrow> files_tab" where
  "ft_on_node_click ctrl shift i s =
     (if ctrl \<and> i \<in> set (ft_sel s) then ft_unselect i s
      else if shift \<and> i \<notin> set (ft_sel s) then
        (case ft_last s of None \<Rightarrow> ft_emit (FilesThrow TypeError) s
         | Some l \<Rightarrow> (case (group_of l s, group_of i s) of
             (Some (p, is), Some (q, js)) \<Rightarrow>
               if p \<noteq> q then s
               else ft_select i True (each_do (\<lambda>j. ft_select j True) (between i l js) (ft_select l False s))
           | _ \<Rightarrow> ft_emit (FilesThrow TypeError) s))
      else ft_select i ctrl s)"

section \<open>Showing a torrent\<close>

text \<open>\<open>clear\<close>: every node at the top is taken out and unselected, but not the nodes below it. The loop
  over the children runs up to the number there was at first.\<close>

fun detach_loop :: "nat \<Rightarrow> nat \<Rightarrow> files_tab \<Rightarrow> files_tab \<times> bool" where
  "detach_loop i 0 s = (s, True)"
| "detach_loop i (Suc k) s = (if i < length (ft_nodes s) then
     let n = ft_nodes s ! i; s = ft_unselect (node_id n) s
     in detach_loop (Suc i) k (s\<lparr> ft_nodes := take i (ft_nodes s) @ drop (Suc i) (ft_nodes s), ft_gone := ft_gone s @ [n] \<rparr>)
   else (s, False))"

definition ft_clear :: "files_tab \<Rightarrow> files_tab \<times> bool" where
  "ft_clear s = detach_loop 0 (length (ft_nodes s)) s"

definition ft_update :: "string \<Rightarrow> files_tab \<Rightarrow> files_tab" where
  "ft_update t s = (if ft_torrent s = Some t then ft_emit (ReqTorrentFiles t) s
     else (case ft_clear s of (s, ok) \<Rightarrow>
       if ok then ft_emit (ReqTorrentFiles t) (s\<lparr> ft_torrent := Some t \<rparr>) else ft_emit (FilesThrow TypeError) s))"

section \<open>Priorities\<close>

definition ft_on_context_menu :: "int \<Rightarrow> files_tab \<Rightarrow> files_tab" where
  "ft_on_context_menu i s = ft_emit ShowPrioritiesMenu
     (if length (selected_nodes s) < 2 then ft_select i False (s\<lparr> ft_sel := [] \<rparr>) else s)"

text \<open>The priorities by index of file: first those shown, then the new one for what is selected.\<close>

definition note_priority :: "(jsval obj \<Rightarrow> jsval) \<Rightarrow> jsval obj \<Rightarrow> (int \<times> jsval) list \<Rightarrow> (int \<times> jsval) list" where
  "note_priority f a ix = (if is_empty (oget a ''fileIndex'') then ix
     else (case idx_of (oget a ''fileIndex'') of None \<Rightarrow> ix | Some i \<Rightarrow> put i (f a) ix))"

definition selected_part :: "node \<Rightarrow> node list" where
  "selected_part n = (if is_leaf n then [n] else cascade n)"

definition priority_indexes :: "jsval \<Rightarrow> files_tab \<Rightarrow> (int \<times> jsval) list" where
  "priority_indexes p s =
     each_do (\<lambda>n. note_priority (\<lambda>a. p) (node_attrs n)) (concat (List.map selected_part (selected_nodes s)))
       (each_do (\<lambda>n. note_priority (\<lambda>a. oget a ''priority'') (node_attrs n)) (all_live s) [])"

definition priority_array :: "(int \<times> jsval) list \<Rightarrow> jsval list" where
  "priority_array ix = for_in arr_put ix (replicate (length ix) Undef)"

definition ft_on_item_click :: "string \<Rightarrow> jsval \<Rightarrow> files_tab \<Rightarrow> files_tab" where
  "ft_on_item_click item p s = (if item = ''expandAll'' then ft_emit ExpandAllNodes s
     else ft_emit (ReqFilePriorities (ft_torrent s) (priority_array (priority_indexes p s))
       (List.map node_id (selected_nodes s)) p) s)"

text \<open>The reply shows the new priority on the nodes that were selected.\<close>

fun set_priority :: "int list \<Rightarrow> jsval \<Rightarrow> node \<Rightarrow> node" where
  "set_priority is p (Node a l cs) = Node (if num_int (oget a ''id'') \<in> set is then put ''priority'' p a else a) l
     (List.map (set_priority is p) cs)"

definition ft_on_priorities_set :: "int list \<Rightarrow> jsval \<Rightarrow> files_tab \<Rightarrow> files_tab" where
  "ft_on_priorities_set is p s = s\<lparr> ft_nodes := List.map (set_priority is p) (ft_nodes s),
     ft_gone := List.map (set_priority is p) (ft_gone s) \<rparr>"

section \<open>Creating and updating agree\<close>

lemma file_attrs_simps [simp]:
  "oget (file_attrs i e) ''id'' = JInt i" "oget (file_attrs i e) ''filename'' = Str (entry_name e)"
  "oget (file_attrs i e) ''priority'' = oget (entry_attrs e) ''priority''"
  "oget (file_attrs i (EFile n a)) ''fileIndex'' = oget a ''index''"
  "oget (file_attrs i (EDir n a ds)) ''fileIndex'' = Undef"
  by (cases e; simp add: file_attrs_def oget_def Let_def)+

lemma refresh_attrs_file: "oget a ''index'' = oget b ''index'' \<Longrightarrow> refresh_attrs b (file_attrs i (EFile n a)) = file_attrs i (EFile n b)"
  by (simp add: refresh_attrs_def file_attrs_def Let_def)

lemma refresh_attrs_dir: "refresh_attrs b (file_attrs i (EDir n a ds)) = file_attrs i (EDir n b es)"
  by (simp add: refresh_attrs_def file_attrs_def Let_def)

text \<open>Two replies about the same files: the same names, kinds and indexes.\<close>

fun same_shape :: "entry list \<Rightarrow> entry list \<Rightarrow> bool" where
  "same_shape [] [] = True"
| "same_shape (EFile n a # es) (EFile m b # fs) = (n = m \<and> oget a ''index'' = oget b ''index'' \<and> same_shape es fs)"
| "same_shape (EDir n a ds # es) (EDir m b gs # fs) = (n = m \<and> same_shape ds gs \<and> same_shape es fs)"
| "same_shape es fs = False"

fun names_ok :: "entry \<Rightarrow> bool" where
  "names_ok (EFile n a) = True"
| "names_ok (EDir n a ds) = (distinct (List.map entry_name ds) \<and> list_all names_ok ds)"

lemma find_child_skip:
  assumes "\<forall>m \<in> set pre. oget (node_attrs m) ''filename'' \<noteq> Str f" and "oget (node_attrs n) ''filename'' = Str f"
  shows "find_child f (pre @ n # ns) = Some (length pre)"
  using assms by (induction pre) auto

lemma same_shape_count: "same_shape es fs \<Longrightarrow> sum_list (List.map count_entries es) = sum_list (List.map count_entries fs)"
  by (induction es fs rule: same_shape.induct) auto

lemma update_walk_prefix:
  assumes "same_shape es fs" and "distinct (List.map entry_name fs)" and "list_all names_ok fs"
    and "\<forall>m \<in> set pre. \<forall>f \<in> set fs. oget (node_attrs m) ''filename'' \<noteq> Str (entry_name f)"
  shows "update_walk fs (pre @ make_nodes i es) = (pre @ make_nodes i fs, True)"
  using assms
proof (induction es fs arbitrary: pre i rule: same_shape.induct)
  case (2 n a es m b fs)
  have "update_walk fs ((pre @ [Node (file_attrs i (EFile n b)) True []]) @ make_nodes (i + 1) es)
      = ((pre @ [Node (file_attrs i (EFile n b)) True []]) @ make_nodes (i + 1) fs, True)"
    using "2.prems" by (intro "2.IH") auto
  moreover have "find_child n (pre @ Node (file_attrs i (EFile n a)) True [] # make_nodes (i + 1) es) = Some (length pre)"
    using "2.prems" by (intro find_child_skip) auto
  ultimately show ?case using "2.prems" by (simp add: refresh_attrs_file)
next
  case (3 n a ds es m b gs fs)
  let ?i = "i + (1 + sum_list (List.map count_entries gs))"
  let ?n = "Node (file_attrs i (EDir n b gs)) False (make_nodes (i + 1) gs)"
  have "update_walk gs ([] @ make_nodes (i + 1) ds) = ([] @ make_nodes (i + 1) gs, True)"
    using "3.prems" by (intro "3.IH"(1)) auto
  moreover have "update_walk fs ((pre @ [?n]) @ make_nodes ?i es) = ((pre @ [?n]) @ make_nodes ?i fs, True)"
    using "3.prems" by (intro "3.IH"(2)) auto
  moreover have "find_child n (pre @ Node (file_attrs i (EDir n a ds)) False (make_nodes (i + 1) ds) # make_nodes ?i es) = Some (length pre)"
    using "3.prems" by (intro find_child_skip) auto
  ultimately show ?case
    using "3.prems" same_shape_count[of ds gs] refresh_attrs_dir[of b i n a ds gs] by simp
qed auto

text \<open>C21: A reply about the files a tree was made of brings the tree to what a tree made from scratch would
  be, and the walk does not fail.\<close>

theorem update_tree_as_created:
  assumes "same_shape es fs" and "distinct (List.map entry_name fs)" and "list_all names_ok fs"
  shows "update_walk fs (make_nodes i es) = (make_nodes i fs, True)"
  using update_walk_prefix[OF assms, of "[]" i] by simp

text \<open>An entry without a node ends the walk in an exception.\<close>

lemma update_walk_missing:
  assumes "\<forall>m \<in> set ns. oget (node_attrs m) ''filename'' \<noteq> Str (entry_name e)"
  shows "update_walk (e # es) ns = (ns, False)"
proof -
  have "find_child (entry_name e) ns = None" using assms by (induction ns) auto
  then show ?thesis by (cases e) simp_all
qed

section \<open>Shift-clicks\<close>

lemma select_each: "distinct js \<Longrightarrow> set js \<inter> set (ft_sel s) = {} \<Longrightarrow>
    ft_sel (each_do (\<lambda>j. ft_select j True) js s) = ft_sel s @ js"
  by (induction js arbitrary: s) (auto simp: ft_select_def)

lemma between_eq:
  assumes "distinct is" and "a < length is" and "b < length is"
  shows "between (is ! a) (is ! b) is = List.map (\<lambda>k. is ! k) (List.filter (\<lambda>k. min a b < k \<and> k < max a b) [0..<length is])"
proof -
  have e: "enumerate 0 is = List.map (\<lambda>k. (k, is ! k)) [0..<length is]"
    by (rule nth_equalityI) (simp_all add: nth_enumerate_eq)
  have "min (int a) (int b) < int k \<and> int k < max (int a) (int b) \<longleftrightarrow> min a b < k \<and> k < max a b" for k by auto
  then show ?thesis
    using assms by (simp add: between_def index_of_nth e filter_map comp_def)
qed

text \<open>A click on a node and a click with Shift on another one of the same directory select the nodes
  from the one to the other, in whichever direction, and nothing else.\<close>

theorem shift_click_selects_range:
  assumes "distinct is" and "a < length is" and "b < length is" and "a \<noteq> b"
    and "group_of (is ! a) s = Some (p, is)" and "group_of (is ! b) s = Some (p, is)"
  shows "set (ft_sel (ft_on_node_click False True (is ! b) (ft_on_node_click False False (is ! a) s)))
    = {is ! k | k. min a b \<le> k \<and> k \<le> max a b}"
proof -
  let ?s = "ft_select (is ! a) False s" and ?m = "List.filter (\<lambda>k. min a b < k \<and> k < max a b) [0..<length is]"
  have eq: "is ! j = is ! k \<longleftrightarrow> j = k" if "j < length is" "k < length is" for j k
    using that assms(1) by (simp add: nth_eq_iff_index_eq)
  have g: "group_of i ?s = group_of i s" for i by (simp add: group_of_def groups_def ft_select_def)
  have s1: "ft_sel ?s = [is ! a]" "ft_last ?s = Some (is ! a)" "ft_select (is ! a) False ?s = ?s"
    by (simp_all add: ft_select_def)
  let ?js = "between (is ! b) (is ! a) is"
  have js: "?js = List.map (\<lambda>k. is ! k) ?m" using assms by (simp add: between_eq min.commute max.commute)
  have sj: "set ?js = {is ! k | k. min a b < k \<and> k < max a b}" using assms(2,3) by (auto simp: js)
  have "distinct ?js" "is ! a \<notin> set ?js"
    using assms(1,2) eq[of a] by (auto simp: js distinct_map inj_on_def eq)
  then have "ft_sel (each_do (\<lambda>j. ft_select j True) ?js ?s) = (is ! a) # ?js"
    by (subst select_each) (auto simp: s1)
  moreover have "ft_on_node_click False True (is ! b) ?s = ft_select (is ! b) True (each_do (\<lambda>j. ft_select j True) ?js ?s)"
    using assms(2-6) eq[of b a] by (simp add: ft_on_node_click_def s1 g)
  moreover have "set (ft_sel (ft_select i True t)) = insert i (set (ft_sel t))" for i t
    by (auto simp: ft_select_def)
  ultimately have "set (ft_sel (ft_on_node_click False True (is ! b) ?s)) = insert (is ! b) (insert (is ! a) (set ?js))"
    by simp
  also have "\<dots> = {is ! k | k. min a b \<le> k \<and> k \<le> max a b}"
  proof -
    have "{k. min a b \<le> k \<and> k \<le> max a b} = insert b (insert a {k. min a b < k \<and> k < max a b})" by auto
    then show ?thesis unfolding sj by (auto simp: le_less min_def max_def split: if_splits)
  qed
  finally show ?thesis by (simp add: ft_on_node_click_def)
qed

section \<open>The priorities sent\<close>

definition node_index :: "node \<Rightarrow> int option" where
  "node_index n = (if is_empty (oget (node_attrs n) ''fileIndex'') then None else idx_of (oget (node_attrs n) ''fileIndex''))"

lemma note_priority_eq: "note_priority f (node_attrs n) ix = (case node_index n of None \<Rightarrow> ix | Some i \<Rightarrow> put i (f (node_attrs n)) ix)"
  by (simp add: note_priority_def node_index_def)

definition note_node :: "(jsval obj \<Rightarrow> jsval) \<Rightarrow> node \<Rightarrow> (int \<times> jsval) list \<Rightarrow> (int \<times> jsval) list" where
  "note_node f n ix = note_priority f (node_attrs n) ix"

lemma note_node_ok: "wf_obj ix \<Longrightarrow> wf_obj (each_do (note_node f) ns ix)"
  by (rule each_do_invariant[where P = wf_obj]) (auto simp: note_node_def note_priority_eq wf_obj_put split: option.split)

lemma note_node_keys: "has_key (each_do (note_node f) ns ix) k \<longleftrightarrow> has_key ix k \<or> Some k \<in> node_index ` set ns"
  by (induction ns arbitrary: ix) (auto simp: note_node_def note_priority_eq has_key_put split: option.splits)

lemma note_node_lookup:
  assumes "\<forall>m \<in> set ns. node_index m = Some k \<longrightarrow> f (node_attrs m) = v"
  shows "map_of (each_do (note_node f) ns ix) k = (if Some k \<in> node_index ` set ns then Some v else map_of ix k)"
  using assms
  by (induction ns arbitrary: ix) (auto simp: note_node_def note_priority_eq lookup_put split: option.splits)

text \<open>A tree of \<open>n\<close> files: the indexes in it are those below \<open>n\<close>, each on one node.\<close>

definition live_ok :: "files_tab \<Rightarrow> nat \<Rightarrow> bool" where
  "live_ok s n = ((\<forall>m \<in> set (all_live s). \<forall>m' \<in> set (all_live s). node_index m \<noteq> None \<longrightarrow> node_index m = node_index m' \<longrightarrow> m = m')
     \<and> {k. Some k \<in> node_index ` set (all_live s)} = {0 ..< int n})"

lemma length_arr_put: "0 \<le> i \<Longrightarrow> length (arr_put i v xs) = max (length xs) (nat i + 1)"
  by (induction i v xs rule: arr_put.induct) (auto simp: nat_diff_distrib max_def)

lemma priority_array_spec:
  assumes "wf_obj ix" and "{k. has_key ix k} = {0 ..< int n}"
  shows "length (priority_array ix) = n" and "0 \<le> k \<Longrightarrow> k < int n \<Longrightarrow> arr_at k (priority_array ix) = the (map_of ix k)"
proof -
  have keys: "fst ` set ix = {0 ..< int n}" using assms(2) by (auto simp: has_key_def map_of_eq_None_iff)
  have "length ix = card (fst ` set ix)" using assms(1) by (simp add: wf_obj_def distinct_card flip: length_map set_map)
  then have len: "length ix = n" by (simp add: keys)
  have "length (for_in arr_put jx xs) = length xs" if "fst ` set jx \<subseteq> {0 ..< int (length xs)}" for jx and xs :: "jsval list"
    using that
  proof (induction jx arbitrary: xs)
    case (Cons kv jx)
    obtain k v where kv: "kv = (k, v)" by fastforce
    then have "length (arr_put k v xs) = length xs" using Cons.prems by (auto simp: length_arr_put max_def)
    then show ?case using Cons.IH[of "arr_put k v xs"] Cons.prems kv by simp
  qed simp
  then show "length (priority_array ix) = n" by (simp add: priority_array_def keys len)
  assume k: "0 \<le> k" "k < int n"
  then have "map_of ix k \<noteq> None" using keys by (simp add: map_of_eq_None_iff)
  moreover have "\<forall>(k, v) \<in> set ix. 0 \<le> k" using keys by force
  ultimately show "arr_at k (priority_array ix) = the (map_of ix k)"
    using arr_at_for_in[OF assms(1) _ k(1)] by (auto simp: priority_array_def)
qed

lemma selected_part_live:
  assumes "set (selected_nodes s) \<subseteq> set (all_live s)"
  shows "set (concat (List.map selected_part (selected_nodes s))) \<subseteq> set (all_live s)"
proof -
  have "set (selected_part n) \<subseteq> set (all_live s)" if "n \<in> set (all_live s)" for n
    using that cascade_trans[of n] by (auto simp: selected_part_def all_live_def all_nodes_def)
  then show ?thesis using assms by auto
qed

lemma priorities_of_click:
  assumes "live_ok s n" and "set (selected_nodes s) \<subseteq> set (all_live s)" and "item \<noteq> ''expandAll''"
  shows "\<exists>arr. ft_on_item_click item p s
      = ft_emit (ReqFilePriorities (ft_torrent s) arr (List.map node_id (selected_nodes s)) p) s
    \<and> length arr = n
    \<and> (\<forall>m \<in> set (all_live s). \<forall>k. node_index m = Some k \<longrightarrow>
        arr_at k arr = (if m \<in> set (concat (List.map selected_part (selected_nodes s))) then p
                        else oget (node_attrs m) ''priority''))"
proof -
  let ?sel = "concat (List.map selected_part (selected_nodes s))"
  let ?old = "each_do (note_node (\<lambda>a. oget a ''priority'')) (all_live s) []"
  define ix where "ix = priority_indexes p s"
  have ix: "ix = each_do (note_node (\<lambda>a. p)) ?sel ?old"
    unfolding ix_def priority_indexes_def note_node_def ..
  have sub: "set ?sel \<subseteq> set (all_live s)" by (rule selected_part_live[OF assms(2)])
  have wf: "wf_obj ix" unfolding ix by (intro note_node_ok) simp
  have "has_key ix k \<longleftrightarrow> Some k \<in> node_index ` set (all_live s)" for k
    unfolding ix note_node_keys using sub by (auto simp: has_key_def)
  then have keys: "{k. has_key ix k} = {0 ..< int n}" using assms(1) by (simp add: live_ok_def)
  have look: "map_of ix k = Some (if m \<in> set ?sel then p else oget (node_attrs m) ''priority'')"
    if m: "m \<in> set (all_live s)" "node_index m = Some k" for m k
  proof -
    have inj: "m' = m" if "m' \<in> set (all_live s)" "node_index m' = Some k" for m'
      using that m assms(1) by (auto simp: live_ok_def)
    have o: "map_of ?old k = Some (oget (node_attrs m) ''priority'')"
    proof (subst note_node_lookup[where v = "oget (node_attrs m) ''priority''"])
      show "\<forall>m'\<in>set (all_live s). node_index m' = Some k \<longrightarrow> oget (node_attrs m') ''priority'' = oget (node_attrs m) ''priority''"
        using inj by blast
      have "Some k \<in> node_index ` set (all_live s)" using m by (rule rev_image_eqI[OF _ sym])
      then show "(if Some k \<in> node_index ` set (all_live s) then Some (oget (node_attrs m) ''priority'') else map_of [] k)
          = Some (oget (node_attrs m) ''priority'')" by simp
    qed
    have i: "Some k \<in> node_index ` set ?sel \<longleftrightarrow> m \<in> set ?sel"
    proof
      assume "Some k \<in> node_index ` set ?sel"
      then obtain m' where "m' \<in> set ?sel" "node_index m' = Some k" by (metis imageE)
      then show "m \<in> set ?sel" using inj[of m'] sub by (metis subsetD)
    next
      assume "m \<in> set ?sel"
      then show "Some k \<in> node_index ` set ?sel" using m(2) by (metis imageI)
    qed
    have "map_of ix k = (if Some k \<in> node_index ` set ?sel then Some p else map_of ?old k)"
      unfolding ix by (rule note_node_lookup) blast
    then show ?thesis unfolding i o by simp
  qed
  have at: "arr_at k (priority_array ix) = the (map_of ix k)" if "m \<in> set (all_live s)" "node_index m = Some k" for m k
  proof -
    have "Some k \<in> node_index ` set (all_live s)" using that by (metis imageI)
    then have "k \<in> {0 ..< int n}" using assms(1) unfolding live_ok_def by blast
    then show ?thesis by (intro priority_array_spec(2)[OF wf keys]) simp_all
  qed
  show ?thesis
  proof (intro exI[of _ "priority_array ix"] conjI ballI allI impI)
    fix m k assume m: "m \<in> set (all_live s)" "node_index m = Some k"
    show "arr_at k (priority_array ix) = (if m \<in> set ?sel then p else oget (node_attrs m) ''priority'')"
      unfolding at[OF m] look[OF m] by simp
  qed (simp_all add: ft_on_item_click_def assms(3) ix_def priority_array_spec(1)[OF wf keys, unfolded ix_def])
qed

text \<open>A choice in the priority menu sends, for the torrent of the tab, one priority for each of its
  files: the chosen one for the files at or below a selected node, and for every other file the
  priority it is shown with.\<close>

theorem chosen_priority_sent:
  assumes "live_ok s n" and "set (selected_nodes s) \<subseteq> set (all_live s)" and "item \<noteq> ''expandAll''"
  shows "\<exists>arr. ft_on_item_click item p s
      = ft_emit (ReqFilePriorities (ft_torrent s) arr (List.map node_id (selected_nodes s)) p) s
    \<and> length arr = n
    \<and> (\<forall>m \<in> set (all_live s). \<forall>k. node_index m = Some k \<longrightarrow>
        arr_at k arr = (if m \<in> set (concat (List.map selected_part (selected_nodes s))) then p
                        else oget (node_attrs m) ''priority''))"
  using assms by (rule priorities_of_click)

section \<open>Late replies\<close>

definition entry_idx :: "entry \<Rightarrow> int option" where
  "entry_idx e = (case e of EFile n a \<Rightarrow> (if is_empty (oget a ''index'') then None else idx_of (oget a ''index'')) | EDir n a ds \<Rightarrow> None)"

lemma node_index_made: "List.map node_index (all_nodes (make_nodes i es)) = List.map entry_idx (concat (List.map flatten es))"
  by (induction i es rule: make_nodes.induct) (simp_all add: cascade_Node node_index_def entry_idx_def del: cascade.simps)

lemma map_filter_inj:
  assumes "distinct (List.filter (\<lambda>k. k \<noteq> None) (List.map f xs))" and "x \<in> set xs" and "y \<in> set xs" and "f x \<noteq> None" and "f x = f y"
  shows "x = y"
proof -
  have "f x \<in> set (List.filter (\<lambda>k. k \<noteq> None) (List.map f xs))" using assms by auto
  with assms show ?thesis by (induction xs) (auto split: if_splits simp: image_iff)
qed

text \<open>Files numbered from 0 without gaps.\<close>

definition numbered :: "entry list \<Rightarrow> nat \<Rightarrow> bool" where
  "numbered es n = (distinct (List.filter (\<lambda>k. k \<noteq> None) (List.map entry_idx (concat (List.map flatten es))))
     \<and> {k. Some k \<in> set (List.map entry_idx (concat (List.map flatten es)))} = {0 ..< int n})"

lemma live_ok_made:
  assumes "ft_nodes s = make_nodes i es" and "numbered es n"
  shows "live_ok s n"
proof -
  have m: "List.map node_index (all_live s) = List.map entry_idx (concat (List.map flatten es))"
    by (simp add: all_live_def assms(1) node_index_made)
  then have "distinct (List.filter (\<lambda>k. k \<noteq> None) (List.map node_index (all_live s)))"
    using assms(2) by (simp add: numbered_def)
  moreover have "node_index ` set (all_live s) = set (List.map entry_idx (concat (List.map flatten es)))"
    unfolding m[symmetric] by simp
  moreover from calculation(1) have "m = m'" if "m \<in> set (all_live s)" "m' \<in> set (all_live s)"
    "node_index m \<noteq> None" "node_index m = node_index m'" for m m'
    using that by (rule map_filter_inj)
  ultimately show ?thesis using assms(2) unfolding live_ok_def numbered_def by blast
qed

lemma arr_at_nth: "k < length xs \<Longrightarrow> arr_at (int k) xs = xs ! k"
proof (induction xs arbitrary: k)
  case (Cons x xs)
  then show ?case by (cases k) auto
qed simp

text \<open>The reply with the files of a torrent is not checked against the torrent the tab shows. When
  another torrent is selected before it comes, the tree shows the files of the first one, and a
  choice in the priority menu on its top directory is sent as priorities of the second one, with as
  many elements as the first one has files.\<close>

theorem late_files_change_other_torrent:
  assumes "t \<noteq> u" and "numbered [EDir d a ds] n" and "item \<noteq> ''expandAll''"
  shows "ft_trace (ft_on_item_click item p (ft_on_context_menu 0
      (ft_on_request_complete [EDir d a ds] (ft_update u (ft_update t ft_new)))))
    = [ReqTorrentFiles t, ReqTorrentFiles u, ShowPrioritiesMenu,
       ReqFilePriorities (Some u) (replicate n p) [0] p]"
proof -
  let ?top = "Node (file_attrs 0 (EDir d a ds)) False (make_nodes 1 ds)"
  define s where "s = ft_on_context_menu 0 (ft_on_request_complete [EDir d a ds] (ft_update u (ft_update t ft_new)))"
  have s: "ft_nodes s = make_nodes 0 [EDir d a ds]" "ft_torrent s = Some u" "ft_sel s = [0]" "ft_gone s = []"
    "ft_trace s = [ReqTorrentFiles t, ReqTorrentFiles u, ShowPrioritiesMenu]"
    using assms(1)
    by (simp_all add: s_def ft_on_context_menu_def ft_on_request_complete_def ft_update_def ft_clear_def ft_new_def
        ft_emit_def ft_create_def ft_select_def selected_nodes_def map_filter_def)
  have top: "node_id ?top = 0" by (simp add: node_id_def)
  have sel: "selected_nodes s = [?top]"
    using top by (simp add: selected_nodes_def s find_node_def map_filter_def cascade_Node del: cascade.simps)
  have live: "all_live s = cascade ?top" by (simp add: all_live_def s)
  have ok: "live_ok s n" by (rule live_ok_made[OF s(1) assms(2)])
  obtain arr where arr: "ft_on_item_click item p s = ft_emit (ReqFilePriorities (Some u) arr [0] p) s" "length arr = n"
    "\<forall>m \<in> set (all_live s). \<forall>k. node_index m = Some k \<longrightarrow> arr_at k arr = p"
    using priorities_of_click[OF ok _ assms(3), of p] sel top
    by (auto simp: live selected_part_def s cascade_self)
  have "arr = replicate n p"
  proof (rule nth_equalityI)
    fix k assume k: "k < length arr"
    then have "Some (int k) \<in> node_index ` set (all_live s)" using ok arr(2) by (auto simp: live_ok_def)
    then have "arr_at (int k) arr = p" using arr(3) by auto
    then show "arr ! k = replicate n p ! k" using k arr(2) by (simp add: arr_at_nth)
  qed (simp add: arr(2))
  then show ?thesis using arr(1) s(5) by (simp add: ft_emit_def flip: s_def)
qed

section \<open>Sample runs\<close>

definition sample_files :: "int \<Rightarrow> entry list" where
  "sample_files p = [EDir ''d'' [(''size'', JInt 3)]
     [EFile ''a'' [(''index'', JInt 0), (''size'', JInt 1), (''priority'', JInt p)],
      EFile ''b'' [(''index'', JInt 1), (''size'', JInt 2), (''priority'', JInt p)]]]"

lemma sample_numbered: "numbered (sample_files p) 2"
  by (auto simp: numbered_def sample_files_def entry_idx_def oget_def idx_of_def)

lemma update_tree_as_created_witness:
  "update_walk (sample_files 4) (make_nodes 0 (sample_files 1)) = (make_nodes 0 (sample_files 4), True)"
  by (rule update_tree_as_created) (simp_all add: sample_files_def oget_def)

lemma late_files_change_other_torrent_witness:
  "ft_trace (ft_on_item_click ''skip'' (JInt 0) (ft_on_context_menu 0
      (ft_on_request_complete (sample_files 4) (ft_update ''u'' (ft_update ''t'' ft_new)))))
    = [ReqTorrentFiles ''t'', ReqTorrentFiles ''u'', ShowPrioritiesMenu,
       ReqFilePriorities (Some ''u'') [JInt 0, JInt 0] [0] (JInt 0)]"
  using late_files_change_other_torrent[OF _ sample_numbered[of 4, unfolded sample_files_def], of "''t''" "''u''" "''skip''" "JInt 0"]
  by (simp add: sample_files_def numeral_2_eq_2)

definition sample_tab :: files_tab where
  "sample_tab = ft_on_node_click False False 1 (ft_on_request_complete (sample_files 4) (ft_update ''t'' ft_new))"

lemma sample_tab_nodes: "ft_nodes sample_tab = make_nodes 0 (sample_files 4)" "ft_sel sample_tab = [1]"
  "ft_gone sample_tab = []" "ft_torrent sample_tab = Some ''t''"
  by (simp_all add: sample_tab_def ft_on_node_click_def ft_on_request_complete_def ft_update_def ft_clear_def ft_new_def
      ft_emit_def ft_create_def ft_select_def sample_files_def)

lemma chosen_priority_sent_witness:
  "\<exists>arr. length arr = 2 \<and> arr_at 0 arr = JInt 0 \<and> arr_at 1 arr = JInt 4
    \<and> ft_on_item_click ''skip'' (JInt 0) sample_tab = ft_emit (ReqFilePriorities (Some ''t'') arr [1] (JInt 0)) sample_tab"
proof -
  let ?a = "Node (file_attrs 1 (EFile ''a'' [(''index'', JInt 0), (''size'', JInt 1), (''priority'', JInt 4)])) True []"
  let ?b = "Node (file_attrs 2 (EFile ''b'' [(''index'', JInt 1), (''size'', JInt 2), (''priority'', JInt 4)])) True []"
  have sel: "selected_nodes sample_tab = [?a]"
    by (simp add: selected_nodes_def sample_tab_nodes find_node_def map_filter_def sample_files_def node_id_def)
  have live: "?a \<in> set (all_live sample_tab)" "?b \<in> set (all_live sample_tab)"
    by (simp_all add: all_live_def sample_tab_nodes sample_files_def)
  have ix: "node_index ?a = Some 0" "node_index ?b = Some 1" "node_id ?a = 1" "?b \<noteq> ?a"
    "oget (node_attrs ?b) ''priority'' = JInt 4"
    by (simp_all add: node_index_def node_id_def file_attrs_def oget_def idx_of_def)
  have ok: "live_ok sample_tab 2" by (rule live_ok_made[OF sample_tab_nodes(1) sample_numbered])
  obtain arr where arr: "ft_on_item_click ''skip'' (JInt 0) sample_tab
      = ft_emit (ReqFilePriorities (Some ''t'') arr [1] (JInt 0)) sample_tab" "length arr = 2"
    "\<forall>m \<in> set (all_live sample_tab). \<forall>k. node_index m = Some k \<longrightarrow>
        arr_at k arr = (if m \<in> set (concat (List.map selected_part [?a])) then JInt 0 else oget (node_attrs m) ''priority'')"
    using chosen_priority_sent[OF ok _, of "''skip''" "JInt 0"] sel live(1) ix(3) sample_tab_nodes(4) by auto
  have "arr_at 0 arr = JInt 0" "arr_at 1 arr = JInt 4"
    using arr(3)[rule_format, OF live(1) ix(1)] arr(3)[rule_format, OF live(2) ix(2)] ix(4,5)
    by (simp_all add: selected_part_def)
  then show ?thesis using arr(1,2) by blast
qed

lemma shift_click_selects_range_witness:
  "set (ft_sel (ft_on_node_click False True 1 (ft_on_node_click False False 2 sample_tab))) = {1, 2}"
proof -
  have g: "group_of 1 sample_tab = Some (Some 0, [1, 2])" "group_of 2 sample_tab = Some (Some 0, [1, 2])"
    by (simp_all add: group_of_def groups_def sample_tab_nodes sample_files_def node_id_def)
  have "{[1, 2 :: int] ! k | k. min 1 0 \<le> k \<and> k \<le> max 1 (0 :: nat)} = {1, 2}"
    by (auto simp: le_Suc_eq) (metis One_nat_def le_numeral_extra(4) nth_Cons_0 nth_Cons_Suc zero_le)+
  then show ?thesis using shift_click_selects_range[of "[1, 2]" 1 0 sample_tab "Some 0"] g by simp
qed

end
