(* ===== verification/DetailsTabs.thy ===== *)
theory DetailsTabs
  imports GridRender
begin

text \<open>
  The Status and Details tabs of the details panel (details/StatusTab.js,
  details/DetailsTab.js): the texts made of a torrent's status, the fields they are
  written to, and the cache by which the second tab avoids writing a text again. A
  field of the page is its text; requests are the trace. The translation of texts and
  the offset of local time are arguments.
\<close>

section \<open>The status tab\<close>

datatype tab_effect = ReqStatus string "string list" | ShowProgress jsval string | TabThrow js_error

text \<open>The fields are known when the page with them was loaded.\<close>

record status_tab =
  st_fields :: "(string \<times> jsval) list option"
  st_trace :: "tab_effect list"

definition st_emit :: "tab_effect \<Rightarrow> status_tab \<Rightarrow> status_tab" where
  "st_emit e s = s\<lparr> st_trace := st_trace s @ [e] \<rparr>"

definition st_clear :: "status_tab \<Rightarrow> status_tab" where
  "st_clear s = st_emit (ShowProgress (JInt 0) '' '') (s\<lparr> st_fields := map_option (List.map (\<lambda>(k, v). (k, Str []))) (st_fields s) \<rparr>)"

text \<open>Without fields \<open>update\<close> calls \<open>getFields\<close>, which does not exist.\<close>

definition st_update :: "string \<Rightarrow> status_tab \<Rightarrow> status_tab" where
  "st_update t s = (case st_fields s of None \<Rightarrow> st_emit (TabThrow TypeError) s
     | Some fs \<Rightarrow> st_emit (ReqStatus t keys_status) s)"

definition st_on_panel_update :: "string list \<Rightarrow> status_tab \<Rightarrow> status_tab" where
  "st_on_panel_update classes s = s\<lparr> st_fields := Some (each_do (\<lambda>c fs. put c (Str []) fs) classes []) \<rparr>"

text \<open>\<open>toFixed\<close> and \<open>ftime\<close> of a value that is not a number fail, null counts as 0 in the comparison.\<close>

definition fixed_of :: "nat \<Rightarrow> jsval \<Rightarrow> string result" where
  "fixed_of k v = (case v of Num n \<Rightarrow> Inr (num_to_fixed k n) | _ \<Rightarrow> Inl TypeError)"

definition time_of :: "jsval \<Rightarrow> string result" where
  "time_of v = (case v of Num n \<Rightarrow> Inr (fmt_time n)
     | _ \<Rightarrow> if num_le (to_num v) (Fin 0) then Inr ''&infin;'' else Inl TypeError)"

definition share_text :: "jsval \<Rightarrow> string result" where
  "share_text r = (if loose_eq r (JInt (-1)) then Inr ''&infin;'' else fixed_of 3 r)"

definition eta_text :: "jsval \<Rightarrow> string result" where
  "eta_text v = (if js_lt v (JInt 0) then Inr ''&infin;'' else time_of v)"

definition rate_text :: "jsval \<Rightarrow> string" where
  "rate_text v = (if truthy v then fmt_speed v False else ''0.0 KiB/s'')"

definition payload_text :: "jsval \<Rightarrow> string" where
  "payload_text v = '' ('' @ (if truthy v then fmt_size v False else ''0.0 KiB'') @ '')''"

text \<open>Replacing the first occurrence of a text, \<open>None\<close> when there is none.\<close>

fun replace_sub :: "string \<Rightarrow> string \<Rightarrow> string \<Rightarrow> string option" where
  "replace_sub p r [] = (if p = [] then Some r else None)"
| "replace_sub p r (c # cs) = (if take (length p) (c # cs) = p then Some (r @ drop (length p) (c # cs))
     else map_option ((#) c) (replace_sub p r cs))"

fun translate_first :: "(string \<Rightarrow> string) \<Rightarrow> string list \<Rightarrow> string \<Rightarrow> string" where
  "translate_first tr [] s = s"
| "translate_first tr (k # ks) s = (case replace_sub k (tr k) s of Some t \<Rightarrow> t | None \<Rightarrow> translate_first tr ks s)"

text \<open>The encoded text must be a string: null and undefined have no \<open>indexOf\<close>.\<close>

definition tracker_text :: "(string \<Rightarrow> string) \<Rightarrow> jsval \<Rightarrow> string result" where
  "tracker_text tr v = (case html_encode v of
     Str s \<Rightarrow> Inr (translate_first tr [''Error'', ''Warning'', ''Announce OK'', ''Announce Sent''] s)
   | _ \<Rightarrow> Inl TypeError)"

definition status_texts :: "(string \<Rightarrow> string) \<Rightarrow> (int \<Rightarrow> int) \<Rightarrow> jsval obj \<Rightarrow> jsval obj result" where
  "status_texts tr tz st = (let g = oget st in
     bind_result (share_text (g ''ratio'')) (\<lambda>share.
     bind_result (time_of (g ''next_announce'')) (\<lambda>announce.
     bind_result (eta_text (g ''eta'')) (\<lambda>eta.
     bind_result (fixed_of 3 (g ''distributed_copies'')) (\<lambda>avail.
     bind_result (time_of (g ''active_time'')) (\<lambda>active_time.
     bind_result (time_of (g ''seeding_time'')) (\<lambda>seeding_time.
     bind_result (time_of (g ''time_since_transfer'')) (\<lambda>since.
     bind_result (tracker_text tr (g ''tracker_status'')) (\<lambda>tracker.
       Inr [(''downloaded'', Str (fmt_size (g ''total_done'') True @ payload_text (g ''total_payload_download''))),
            (''uploaded'', Str (fmt_size (g ''total_uploaded'') True @ payload_text (g ''total_payload_upload''))),
            (''share'', Str share),
            (''announce'', Str announce),
            (''tracker_status'', Str tracker),
            (''downspeed'', Str (rate_text (g ''download_payload_rate''))),
            (''upspeed'', Str (rate_text (g ''upload_payload_rate''))),
            (''eta'', Str eta),
            (''pieces'', Str (to_str (g ''num_pieces'') @ '' ('' @ fmt_size (g ''piece_length'') False @ '')'')),
            (''seeds'', of_total ''total_seeds'' (g ''num_seeds'') st),
            (''peers'', of_total ''total_peers'' (g ''num_peers'') st),
            (''avail'', Str avail),
            (''active_time'', Str active_time),
            (''seeding_time'', Str seeding_time),
            (''seed_rank'', g ''seed_rank''),
            (''time_added'', Str (fmt_date tz (g ''time_added''))),
            (''last_seen_complete'', Str (if js_lt (JInt 0) (g ''last_seen_complete'') then fmt_date tz (g ''last_seen_complete'') else ''Never'')),
            (''completed_time'', Str (if js_lt (JInt 0) (g ''completed_time'') then fmt_date tz (g ''completed_time'') else [])),
            (''time_since_transfer'', Str since),
            (''auto_managed'', Str (tr (if truthy (g ''is_auto_managed'') then ''True'' else ''False'')))])))))))))"

text \<open>The fields are written before the progress, which must be a number.\<close>

definition st_on_request_complete :: "(string \<Rightarrow> string) \<Rightarrow> (int \<Rightarrow> int) \<Rightarrow> jsval obj \<Rightarrow> status_tab \<Rightarrow> status_tab" where
  "st_on_request_complete tr tz st s = (case status_texts tr tz st of Inl e \<Rightarrow> st_emit (TabThrow e) s
     | Inr data \<Rightarrow>
       let s = s\<lparr> st_fields := map_option (List.map (\<lambda>(k, v). (k, oget data k))) (st_fields s) \<rparr>;
           p = oget st ''progress''
       in (case fixed_of 2 p of Inl e \<Rightarrow> st_emit (TabThrow e) s
           | Inr f \<Rightarrow> st_emit (ShowProgress (Num (num_div (to_num p) (Fin 100))) (to_str (oget st ''state'') @ '' '' @ f @ ''%'')) s))"

section \<open>The details tab\<close>

record details_tab =
  dt_queued :: "(string \<times> string) list"
  dt_rendered :: bool
  dt_items :: "(string \<times> string) list"
  dt_fields :: "(string \<times> jsval) list"
  dt_old :: "jsval obj"
  dt_trace :: "tab_effect list"

definition dt_do_add_item :: "string \<Rightarrow> string \<Rightarrow> details_tab \<Rightarrow> details_tab" where
  "dt_do_add_item i label s = s\<lparr> dt_items := dt_items s @ [(i, label)], dt_fields := put i (Str []) (dt_fields s) \<rparr>"

definition dt_add_item :: "string \<Rightarrow> string \<Rightarrow> details_tab \<Rightarrow> details_tab" where
  "dt_add_item i label s = (if \<not> dt_rendered s then s\<lparr> dt_queued := put i label (dt_queued s) \<rparr> else dt_do_add_item i label s)"

definition details_items :: "(string \<times> string) list" where
  "details_items = [(''torrent_name'', ''Name:''), (''hash'', ''Hash:''), (''path'', ''Download Folder:''),
     (''size'', ''Total Size:''), (''files'', ''Total Files:''), (''comment'', ''Comment:''), (''status'', ''Status:''),
     (''tracker'', ''Tracker:''), (''creator'', ''Created By:'')]"

definition dt_new :: "(string \<Rightarrow> string) \<Rightarrow> details_tab" where
  "dt_new tr = each_do (\<lambda>(i, l). dt_add_item i (tr l)) details_items
     \<lparr> dt_queued = [], dt_rendered = False, dt_items = [], dt_fields = [], dt_old = [], dt_trace = [] \<rparr>"

definition dt_on_render :: "details_tab \<Rightarrow> details_tab" where
  "dt_on_render s = for_in dt_do_add_item (dt_queued s) (s\<lparr> dt_rendered := True \<rparr>)"

definition dt_clear :: "details_tab \<Rightarrow> details_tab" where
  "dt_clear s = s\<lparr> dt_fields := List.map (\<lambda>(k, v). (k, Str [])) (dt_fields s), dt_old := [] \<rparr>"

definition dt_update :: "string \<Rightarrow> details_tab \<Rightarrow> details_tab" where
  "dt_update t s = s\<lparr> dt_trace := dt_trace s @ [ReqStatus t keys_details] \<rparr>"

definition details_data :: "string \<Rightarrow> jsval obj \<Rightarrow> jsval obj" where
  "details_data t torrent = [(''torrent_name'', oget torrent ''name''), (''hash'', Str t),
     (''path'', oget torrent ''download_location''), (''size'', Str (fmt_size (oget torrent ''total_size'') False)),
     (''files'', oget torrent ''num_files''), (''status'', oget torrent ''message''),
     (''tracker'', oget torrent ''tracker_host''), (''comment'', oget torrent ''comment''), (''creator'', oget torrent ''creator'')]"

definition write_field :: "jsval obj \<Rightarrow> jsval obj \<Rightarrow> string \<times> jsval \<Rightarrow> string \<times> jsval" where
  "write_field data old x = (case x of (k, shown) \<Rightarrow>
     (k, if oget data k = Undef \<or> loose_eq (oget data k) (oget old k) then shown else html_encode (oget data k)))"

definition dt_on_request_complete :: "string \<Rightarrow> jsval obj \<Rightarrow> details_tab \<Rightarrow> details_tab" where
  "dt_on_request_complete t torrent s = (let data = details_data t torrent
     in s\<lparr> dt_fields := List.map (write_field data (dt_old s)) (dt_fields s), dt_old := data \<rparr>)"

section \<open>What the status tab shows\<close>

definition number_keys :: "string list" where
  "number_keys = [''ratio'', ''next_announce'', ''eta'', ''distributed_copies'', ''active_time'', ''seeding_time'',
     ''time_since_transfer'', ''progress'']"

lemma fixed_of_num: "fixed_of k (Num n) = Inr (num_to_fixed k n)"
  by (simp add: fixed_of_def)

lemma time_of_num: "time_of (Num n) = Inr (fmt_time n)"
  by (simp add: time_of_def)

lemma tracker_text_str: "\<exists>t. tracker_text tr (Str s) = Inr t"
  by (simp add: tracker_text_def html_encode_def)

lemma status_texts_parts:
  assumes "\<forall>k \<in> set number_keys. \<exists>n. oget st k = Num n" and "\<exists>s. oget st ''tracker_status'' = Str s"
  shows "\<exists>data. status_texts tr tz st = Inr data
    \<and> oget data ''downloaded'' = Str (fmt_size (oget st ''total_done'') True @ payload_text (oget st ''total_payload_download''))
    \<and> oget data ''seeds'' = of_total ''total_seeds'' (oget st ''num_seeds'') st
    \<and> (loose_eq (oget st ''ratio'') (JInt (-1)) \<longrightarrow> oget data ''share'' = Str ''&infin;'')
    \<and> (js_lt (oget st ''eta'') (JInt 0) \<longrightarrow> oget data ''eta'' = Str ''&infin;'')"
proof -
  let ?g = "oget st"
  have n: "\<exists>n. ?g k = Num n" if "k \<in> set number_keys" for k using that assms(1) by blast
  have fixed: "\<exists>t. fixed_of 3 (?g k) = Inr t" if "k \<in> set number_keys" for k
    using n[OF that] by (auto simp: fixed_of_num)
  have time: "\<exists>t. time_of (?g k) = Inr t" if "k \<in> set number_keys" for k
    using n[OF that] by (auto simp: time_of_num)
  obtain share where sh: "share_text (?g ''ratio'') = Inr share"
    using fixed[of "''ratio''"] by (cases "loose_eq (?g ''ratio'') (JInt (-1))") (auto simp: share_text_def number_keys_def)
  obtain eta where et: "eta_text (?g ''eta'') = Inr eta"
    using time[of "''eta''"] by (cases "js_lt (?g ''eta'') (JInt 0)") (auto simp: eta_text_def number_keys_def)
  obtain tracker where tk: "tracker_text tr (?g ''tracker_status'') = Inr tracker"
    using assms(2) tracker_text_str[of tr] by metis
  obtain announce avail at' se si where t: "time_of (?g ''next_announce'') = Inr announce"
    "fixed_of 3 (?g ''distributed_copies'') = Inr avail" "time_of (?g ''active_time'') = Inr at'"
    "time_of (?g ''seeding_time'') = Inr se" "time_of (?g ''time_since_transfer'') = Inr si"
    using time[of "''next_announce''"] fixed[of "''distributed_copies''"] time[of "''active_time''"]
      time[of "''seeding_time''"] time[of "''time_since_transfer''"] by (auto simp: number_keys_def)
  have "loose_eq (?g ''ratio'') (JInt (-1)) \<Longrightarrow> share = ''&infin;''" using sh by (simp add: share_text_def)
  moreover have "js_lt (?g ''eta'') (JInt 0) \<Longrightarrow> eta = ''&infin;''" using et by (simp add: eta_text_def)
  ultimately show ?thesis
    by (auto simp: status_texts_def Let_def sh et tk t oget_def[of "_ # _"])
qed

text \<open>With the numbers of a torrent's status the reply never fails: every field of the page shows its
  text, the amounts with what was transferred as payload, an unknown ratio and a negative remaining
  time as infinite, and the progress bar the state with two digits.\<close>

theorem status_reply_shows:
  assumes "\<forall>k \<in> set number_keys. \<exists>n. oget st k = Num n" and "\<exists>s. oget st ''tracker_status'' = Str s"
    and "st_fields s = Some fs" and "oget st ''progress'' = Num p"
  shows "\<exists>data. st_fields (st_on_request_complete tr tz st s) = Some (List.map (\<lambda>(k, v). (k, oget data k)) fs)
    \<and> st_trace (st_on_request_complete tr tz st s) = st_trace s
        @ [ShowProgress (Num (num_div p (Fin 100))) (to_str (oget st ''state'') @ '' '' @ num_to_fixed 2 p @ ''%'')]
    \<and> oget data ''downloaded'' = Str (fmt_size (oget st ''total_done'') True @ payload_text (oget st ''total_payload_download''))
    \<and> oget data ''seeds'' = seeds_renderer (oget st ''num_seeds'') st
    \<and> (loose_eq (oget st ''ratio'') (JInt (-1)) \<longrightarrow> oget data ''share'' = Str ''&infin;'')
    \<and> (js_lt (oget st ''eta'') (JInt 0) \<longrightarrow> oget data ''eta'' = Str ''&infin;'')"
proof -
  obtain data where d: "status_texts tr tz st = Inr data"
    "oget data ''downloaded'' = Str (fmt_size (oget st ''total_done'') True @ payload_text (oget st ''total_payload_download''))"
    "oget data ''seeds'' = of_total ''total_seeds'' (oget st ''num_seeds'') st"
    "loose_eq (oget st ''ratio'') (JInt (-1)) \<longrightarrow> oget data ''share'' = Str ''&infin;''"
    "js_lt (oget st ''eta'') (JInt 0) \<longrightarrow> oget data ''eta'' = Str ''&infin;''"
    using status_texts_parts[OF assms(1,2)] by blast
  have "to_num (Num p) = p" by (simp add: to_num_def)
  then show ?thesis
    by (intro exI[of _ data])
      (simp add: st_on_request_complete_def d(1-3) assms(3,4) st_emit_def fixed_of_num seeds_renderer_def Let_def d(4,5))
qed

definition sample_status :: "jsval obj" where
  "sample_status = [(''ratio'', JInt (-1)), (''next_announce'', JInt 5), (''eta'', JInt (-1)), (''distributed_copies'', JInt 1),
     (''active_time'', JInt 10), (''seeding_time'', JInt 0), (''time_since_transfer'', JInt 3), (''progress'', JInt 50),
     (''tracker_status'', Str ''Announce OK''), (''num_seeds'', JInt 3), (''total_seeds'', JInt 12), (''state'', Str ''Downloading'')]"

lemma status_reply_shows_witness:
  "\<exists>v. st_fields (st_on_request_complete id id sample_status (st_on_panel_update [''seeds'', ''eta'']
      \<lparr> st_fields = None, st_trace = [] \<rparr>)) = Some [(''seeds'', v), (''eta'', Str ''&infin;'')]"
proof -
  let ?s = "st_on_panel_update [''seeds'', ''eta''] \<lparr> st_fields = None, st_trace = [] \<rparr>"
  have "\<forall>k \<in> set number_keys. \<exists>n. oget sample_status k = Num n" "\<exists>s. oget sample_status ''tracker_status'' = Str s"
    "oget sample_status ''progress'' = Num (num_of_int 50)" "js_lt (oget sample_status ''eta'') (JInt 0)"
    by (simp_all add: number_keys_def sample_status_def oget_def js_lt_def num_of_int_def)
  moreover have "st_fields ?s = Some [(''seeds'', Str []), (''eta'', Str [])]" by (simp add: st_on_panel_update_def)
  ultimately show ?thesis using status_reply_shows[of sample_status ?s _ "num_of_int 50" id id] by auto
qed

section \<open>What the details tab shows\<close>

text \<open>The tab without its cache: every field whose value is defined is written.\<close>

definition plain_render :: "jsval obj \<Rightarrow> (string \<times> jsval) list \<Rightarrow> (string \<times> jsval) list" where
  "plain_render data fs = List.map (\<lambda>(k, shown). (k, if oget data k = Undef then shown else html_encode (oget data k))) fs"

text \<open>The type of each text: \<open>files\<close> is a number, the others are strings. A field of another component has no value.\<close>

definition typed_data :: "jsval obj \<Rightarrow> bool" where
  "typed_data data = (\<forall>k. oget data k = Undef
     \<or> scalar (oget data k) \<and> ext_type (oget data k) = Some (if k = ''files'' then ''number'' else ''string''))"

definition dt_ok :: "details_tab \<Rightarrow> bool" where
  "dt_ok s = (typed_data (dt_old s)
     \<and> (\<forall>(k, shown) \<in> set (dt_fields s). oget (dt_old s) k \<noteq> Undef \<longrightarrow> shown = html_encode (oget (dt_old s) k)))"

lemma write_field_plain:
  assumes "typed_data old" and "typed_data data" and "oget old k \<noteq> Undef \<longrightarrow> shown = html_encode (oget old k)"
  shows "write_field data old (k, shown) = (k, if oget data k = Undef then shown else html_encode (oget data k))"
proof (cases "oget data k = Undef \<or> \<not> loose_eq (oget data k) (oget old k)")
  case False
  have t: "scalar (oget data k)" "ext_type (oget data k) = Some (if k = ''files'' then ''number'' else ''string'')"
    using assms(2) False by (auto simp: typed_data_def)
  have "\<not> loose_eq v Undef" if "scalar v" for v
    using that by (cases v) (auto simp: loose_eq_def)
  with False t(1) have "oget old k \<noteq> Undef" by metis
  then have "oget data k = oget old k"
    using assms(1) t False loose_eq_scalar[of "oget data k" "oget old k"] by (auto simp: typed_data_def)
  then show ?thesis using False assms(3) \<open>oget old k \<noteq> Undef\<close> by (simp add: write_field_def)
qed (auto simp: write_field_def)

lemma dt_step:
  assumes "dt_ok s" and "typed_data (details_data t torrent)"
  shows "dt_fields (dt_on_request_complete t torrent s) = plain_render (details_data t torrent) (dt_fields s)"
    and "dt_ok (dt_on_request_complete t torrent s)"
proof -
  show e: "dt_fields (dt_on_request_complete t torrent s) = plain_render (details_data t torrent) (dt_fields s)"
    using assms write_field_plain
    by (fastforce simp: dt_on_request_complete_def plain_render_def dt_ok_def Let_def intro!: map_cong)
  show "dt_ok (dt_on_request_complete t torrent s)"
    unfolding dt_ok_def e using assms(2) by (auto simp: plain_render_def dt_on_request_complete_def Let_def)
qed

text \<open>C22: The cache of the details tab cannot be seen: over any sequence of replies, for any torrents and
  with a clear in between, the page shows what a tab would show that writes every field each time.\<close>

theorem details_cache_transparent:
  assumes "dt_ok s" and "\<forall>(t, torrent) \<in> set rs. typed_data (details_data t torrent)"
  shows "dt_fields (each_do (\<lambda>(t, torrent). dt_on_request_complete t torrent) rs (dt_clear s))
    = each_do (\<lambda>(t, torrent). plain_render (details_data t torrent)) rs (dt_fields (dt_clear s))"
proof -
  have "dt_fields (each_do (\<lambda>(t, torrent). dt_on_request_complete t torrent) rs u)
    = each_do (\<lambda>(t, torrent). plain_render (details_data t torrent)) rs (dt_fields u)" if "dt_ok u" for u
    using that assms(2)
  proof (induction rs arbitrary: u)
    case (Cons x rs)
    then show ?case using dt_step[of u "fst x" "snd x"] by (cases x) auto
  qed simp
  moreover have "dt_ok (dt_clear s)" by (simp add: dt_ok_def dt_clear_def typed_data_def)
  ultimately show ?thesis by blast
qed

definition sample_torrent :: "string \<Rightarrow> jsval obj" where
  "sample_torrent n = [(''name'', Str n), (''download_location'', Str ''/d''), (''total_size'', JInt 0), (''num_files'', JInt 2),
     (''message'', Str ''OK''), (''tracker_host'', Str ''h''), (''comment'', Str ''a&b''), (''creator'', Str [])]"

lemma details_cache_transparent_witness:
  "map_of (dt_fields (each_do (\<lambda>(t, torrent). dt_on_request_complete t torrent)
      [(''1'', sample_torrent ''x''), (''2'', sample_torrent ''y'')] (dt_clear (dt_on_render (dt_new id))))) ''comment''
    = Some (Str ''a&amp;b'')"
proof -
  let ?s = "dt_on_render (dt_new id)"
  have "dt_old ?s = []" "dt_fields ?s = List.map (\<lambda>(k, l). (k, Str [])) details_items"
    by (simp_all add: dt_on_render_def dt_new_def details_items_def dt_add_item_def dt_do_add_item_def)
  then have "dt_ok ?s" by (simp add: dt_ok_def typed_data_def)
  moreover have "typed_data (details_data t (sample_torrent n))" for t n
    by (auto simp: typed_data_def details_data_def sample_torrent_def oget_def)
  ultimately show ?thesis
    using details_cache_transparent[of ?s "[(''1'', sample_torrent ''x''), (''2'', sample_torrent ''y'')]"]
      \<open>dt_fields ?s = _\<close>
    by (simp add: dt_clear_def details_items_def plain_render_def details_data_def sample_torrent_def oget_def
        html_encode_def encode_str_def encode_char_def char_to_entity_def)
qed

end
