(* ===== verification/DetailsOptions.thy ===== *)
theory DetailsOptions
  imports MultiOptions GridRender
begin

text \<open>
  The options tab of the details panel (details/OptionsTab.js): the form with its fields,
  the options of the selected torrent in a manager by id, and the replies that bring
  them; and the panel of the tabs itself (details/DetailsPanel.js), which forwards the
  selection to the tab in front. Requests and calls of widgets are the trace; the check
  events of the two boxes with a handler are inputs.
\<close>

section \<open>The form\<close>

record opt_field =
  of_id :: string
  of_kind :: string
  of_label :: string
  of_value :: jsval
  of_disabled :: bool
  of_range :: "(int \<times> int \<times> nat) option"

definition spinner :: "string \<Rightarrow> string \<Rightarrow> jsval \<Rightarrow> int \<Rightarrow> nat \<Rightarrow> opt_field" where
  "spinner i label v hi digits = \<lparr> of_id = i, of_kind = ''spinnerfield'', of_label = label, of_value = v,
     of_disabled = False, of_range = Some (-1, hi, digits) \<rparr>"

definition checkbox :: "string \<Rightarrow> string \<Rightarrow> bool \<Rightarrow> opt_field" where
  "checkbox i label dis = \<lparr> of_id = i, of_kind = ''checkbox'', of_label = label, of_value = Undef,
     of_disabled = dis, of_range = None \<rparr>"

definition bandwidth_fields :: "opt_field list" where
  "bandwidth_fields =
    [spinner ''max_download_speed'' ''Max Download Speed:'' Undef 9999999 1,
     spinner ''max_upload_speed'' ''Max Upload Speed:'' (JInt (-1)) 9999999 1,
     spinner ''max_connections'' ''Max Connections:'' (JInt (-1)) 99999 0,
     spinner ''max_upload_slots'' ''Max Upload Slots:'' (JInt (-1)) 99999 0]"

definition queue_fields :: "opt_field list" where
  "queue_fields =
    [checkbox ''auto_managed'' ''Auto Managed'' False,
     checkbox ''stop_at_ratio'' ''Stop seed at ratio:'' False,
     (spinner ''stop_ratio'' [] (JInt 2) 99999 1)\<lparr> of_disabled := True \<rparr>,
     checkbox ''remove_at_ratio'' ''Remove at ratio'' True,
     checkbox ''move_completed'' ''Move Completed:'' False,
     \<lparr> of_id = ''move_completed_path'', of_kind = ''textfield'', of_label = [], of_value = Undef,
        of_disabled = True, of_range = None \<rparr>]"

definition general_fields :: "opt_field list" where
  "general_fields =
    [checkbox ''private'' ''Private'' True,
     checkbox ''prioritize_first_last'' ''Prioritize First/Last'' False,
     checkbox ''super_seeding'' ''Super Seeding'' False]"

definition options_fields :: "opt_field list" where
  "options_fields = bandwidth_fields @ queue_fields @ general_fields"

definition default_options :: "jsval obj" where
  "default_options =
    [(''max_download_speed'', JInt (-1)), (''max_upload_speed'', JInt (-1)), (''max_connections'', JInt (-1)),
     (''max_upload_slots'', JInt (-1)), (''auto_managed'', Bool False), (''stop_at_ratio'', Bool False),
     (''stop_ratio'', JInt 2), (''remove_at_ratio'', Bool False), (''move_completed'', Bool False),
     (''move_completed_path'', Str []), (''private'', Bool False), (''prioritize_first_last'', Bool False),
     (''super_seeding'', Bool False)]"

section \<open>The tab\<close>

datatype opt_effect =
    ReqOptions string "string list"
  | ReqSetOptions "string option" "jsval obj"
  | SetField string jsval
  | FocusField string
  | ShowEditTrackers

record options_tab =
  ot_torrent :: "string option"
  ot_manager :: mo
  ot_disabled :: "(string \<times> bool) list"
  ot_trace :: "opt_effect list"

text \<open>The fields are bound under their ids, numbered in the order of the form.\<close>

fun bind_all :: "nat \<Rightarrow> opt_field list \<Rightarrow> mo \<Rightarrow> mo" where
  "bind_all n [] m = m"
| "bind_all n (f # fs) m = bind_all (n + 1) fs (om_bind (of_id f) n m)"

definition ot_new :: options_tab where
  "ot_new = \<lparr> ot_torrent = None, ot_manager = bind_all 0 options_fields (mo_new default_options),
     ot_disabled = List.map (\<lambda>f. (of_id f, of_disabled f)) options_fields, ot_trace = [] \<rparr>"

definition ot_emit :: "opt_effect \<Rightarrow> options_tab \<Rightarrow> options_tab" where
  "ot_emit e s = s\<lparr> ot_trace := ot_trace s @ [e] \<rparr>"

definition set_disabled :: "string \<Rightarrow> bool \<Rightarrow> options_tab \<Rightarrow> options_tab" where
  "set_disabled f b s = s\<lparr> ot_disabled := put f b (ot_disabled s) \<rparr>"

definition ot_clear :: "options_tab \<Rightarrow> options_tab" where
  "ot_clear s = (if ot_torrent s = None then s
     else s\<lparr> ot_torrent := None, ot_manager := snd (mo_change_id None False (ot_manager s)) \<rparr>)"

definition ot_reset :: "options_tab \<Rightarrow> options_tab" where
  "ot_reset s = (if ot_torrent s \<noteq> None then s\<lparr> ot_manager := mo_reset (ot_manager s) \<rparr> else s)"

text \<open>The id of the selected torrent; null clears the tab.\<close>

definition ot_update :: "string option \<Rightarrow> options_tab \<Rightarrow> options_tab" where
  "ot_update x s = (case x of None \<Rightarrow> (if ot_torrent s \<noteq> None then ot_clear s else s)
     | Some t \<Rightarrow>
       let s = (if ot_torrent s \<noteq> Some t
                then s\<lparr> ot_torrent := Some t, ot_manager := snd (mo_change_id (Some t) False (ot_manager s)) \<rparr> else s)
       in ot_emit (ReqOptions t keys_options) s)"

definition ot_on_apply :: "options_tab \<Rightarrow> options_tab" where
  "ot_on_apply s = ot_emit (ReqSetOptions (ot_torrent s) (mo_get_dirty (ot_manager s))) s"

definition ot_on_applied :: "options_tab \<Rightarrow> options_tab" where
  "ot_on_applied s = s\<lparr> ot_manager := mo_commit (ot_manager s) \<rparr>"

definition ot_on_edit_trackers :: "options_tab \<Rightarrow> options_tab" where
  "ot_on_edit_trackers s = ot_emit ShowEditTrackers s"

definition ot_on_move_completed_checked :: "bool \<Rightarrow> options_tab \<Rightarrow> options_tab" where
  "ot_on_move_completed_checked checked s = (let s = set_disabled ''move_completed_path'' (\<not> checked) s
     in if \<not> checked then s else ot_emit (FocusField ''move_completed_path'') s)"

definition ot_on_stop_ratio_checked :: "bool \<Rightarrow> options_tab \<Rightarrow> options_tab" where
  "ot_on_stop_ratio_checked checked s =
     set_disabled ''stop_ratio'' (\<not> checked) (set_disabled ''remove_at_ratio'' (\<not> checked) s)"

definition reply_options :: "jsval obj \<Rightarrow> jsval obj" where
  "reply_options torrent = (let t = put ''auto_managed'' (oget torrent ''is_auto_managed'') (del ''private'' torrent)
     in put ''prioritize_first_last_pieces'' (oget t ''prioritize_first_last'') t)"

definition ot_on_request_complete :: "jsval obj \<Rightarrow> options_tab \<Rightarrow> options_tab" where
  "ot_on_request_complete torrent s =
     (let s = set_disabled ''private'' True (ot_emit (SetField ''private'' (oget torrent ''private'')) s);
          m = mo_set_default (Obj 0 (reply_options torrent)) Undef (ot_manager s);
          s = s\<lparr> ot_manager := m \<rparr>;
          stop = mo_get m ''stop_at_ratio'';
          s = set_disabled ''stop_ratio'' (\<not> truthy stop) (set_disabled ''remove_at_ratio'' (\<not> truthy stop) s)
      in set_disabled ''move_completed_path'' (\<not> truthy (mo_get m ''move_completed'')) s)"

section \<open>Options of a reply\<close>

lemma set_default_one_other:
  assumes "j \<noteq> k"
  shows "mo_get_default (mo_set_default_one k v s) j = mo_get_default s j"
proof -
  define t where "t w = s\<lparr> mo_stored := put (mo_key s)
      (Some (put k w (case mo_cur_stored s of None \<Rightarrow> [] | Some ob \<Rightarrow> ob))) (mo_stored s) \<rparr>" for w
  have "mo_get_default (t w) j = mo_get_default s j" for w
    using assms by (auto simp: t_def mo_get_default_def mo_has_def mo_cur_stored_def lookup_put mo_key_def split: option.splits)
  then show ?thesis by (simp add: mo_set_default_one_def Let_def om_fire_eq flip: t_def)
qed

lemma set_default_one_changed [simp]:
  "mo_changed (mo_set_default_one k v s) = mo_changed s" "mo_current (mo_set_default_one k v s) = mo_current s"
  by (simp_all add: mo_set_default_one_def Let_def om_fire_eq)

lemma set_default_one_get:
  assumes "plain_update (mo_get_default s k) v" and "v \<noteq> Undef"
  shows "mo_get_default (mo_set_default_one k v s) k = convert_value_type (mo_get_default s k) v"
  using mo_set_default_get[OF assms] assms(2) by (simp add: mo_set_default_def)

lemma set_default_object:
  assumes "wf_obj ps" and "\<forall>(k, v) \<in> set ps. v \<noteq> Undef"
  shows "mo_changed (mo_set_default (Obj r ps) Undef s) = mo_changed s"
    and "mo_current (mo_set_default (Obj r ps) Undef s) = mo_current s"
    and "has_key ps k \<Longrightarrow> plain_update (mo_get_default s k) (oget ps k) \<Longrightarrow>
      mo_get_default (mo_set_default (Obj r ps) Undef s) k = convert_value_type (mo_get_default s k) (oget ps k)"
    and "\<not> has_key ps k \<Longrightarrow> mo_get_default (mo_set_default (Obj r ps) Undef s) k = mo_get_default s k"
proof -
  let ?f = "\<lambda>k w. if w = Undef then for_in mo_set_default_one (props_of (Str k)) else mo_set_default_one k w"
  have eq: "mo_set_default (Obj r ps) Undef s = for_in ?f ps s" by (simp add: mo_set_default_def)
  have skip: "mo_get_default (for_in ?f xs t) k = mo_get_default t k"
    if "k \<notin> fst ` set xs" "\<forall>(k, v) \<in> set xs. v \<noteq> Undef" for xs t k
    using that by (induction xs arbitrary: t) (auto simp: set_default_one_other)
  have "mo_changed (for_in ?f xs t) = mo_changed t \<and> mo_current (for_in ?f xs t) = mo_current t"
    if "\<forall>(k, v) \<in> set xs. v \<noteq> Undef" for xs t
    using that by (induction xs arbitrary: t) auto
  then show "mo_changed (mo_set_default (Obj r ps) Undef s) = mo_changed s"
    "mo_current (mo_set_default (Obj r ps) Undef s) = mo_current s"
    unfolding eq using assms(2) by auto
  show "\<not> has_key ps k \<Longrightarrow> mo_get_default (mo_set_default (Obj r ps) Undef s) k = mo_get_default s k"
    unfolding eq using skip[of k ps s] assms(2) by (auto simp: has_key_def map_of_eq_None_iff)
  assume k: "has_key ps k" "plain_update (mo_get_default s k) (oget ps k)"
  have "mo_get_default (for_in ?f xs t) k = convert_value_type (mo_get_default t k) (oget xs k)"
    if "distinct (List.map fst xs)" "k \<in> fst ` set xs" "\<forall>(k, v) \<in> set xs. v \<noteq> Undef"
      "plain_update (mo_get_default t k) (oget xs k)" for xs t
    using that
  proof (induction xs arbitrary: t)
    case (Cons x xs)
    obtain j w where x: "x = (j, w)" by fastforce
    have w: "w \<noteq> Undef" using Cons.prems(3) x by auto
    show ?case
    proof (cases "j = k")
      case True
      then have "oget (x # xs) k = w" by (simp add: oget_def x)
      then show ?thesis
        using True w x Cons.prems skip[of k xs "mo_set_default_one k w t"] set_default_one_get[of t k w] by auto
    next
      case False
      then have o: "oget (x # xs) k = oget xs k" by (simp add: oget_def x)
      have d: "mo_get_default (mo_set_default_one j w t) k = mo_get_default t k" using False by (intro set_default_one_other) auto
      then show ?thesis using False w x o Cons.IH[of "mo_set_default_one j w t"] Cons.prems by auto
    qed
  qed simp
  then show "mo_get_default (mo_set_default (Obj r ps) Undef s) k = convert_value_type (mo_get_default s k) (oget ps k)"
    unfolding eq using k assms by (auto simp: wf_obj_def has_key_def map_of_eq_None_iff)
qed

lemma oget_reply_options: "oget (reply_options torrent) k =
   (if k = ''prioritize_first_last_pieces'' then oget torrent ''prioritize_first_last''
    else if k = ''auto_managed'' then oget torrent ''is_auto_managed''
    else if k = ''private'' then Undef else oget torrent k)"
  by (auto simp: reply_options_def oget_def Let_def lookup_put lookup_del)

lemma reply_options_wf:
  assumes "wf_obj torrent" and "\<forall>(k, v) \<in> set torrent. v \<noteq> Undef"
    and "has_key torrent ''is_auto_managed''" and "has_key torrent ''prioritize_first_last''"
  shows "wf_obj (reply_options torrent)" and "\<forall>(k, v) \<in> set (reply_options torrent). v \<noteq> Undef"
proof -
  show wf: "wf_obj (reply_options torrent)"
    using assms(1) by (simp add: reply_options_def Let_def wf_obj_put wf_obj_del)
  have some: "oget torrent k \<noteq> Undef" if "has_key torrent k" for k
  proof -
    obtain v where "map_of torrent k = Some v" using \<open>has_key torrent k\<close> by (auto simp: has_key_def)
    then show ?thesis using assms(2) map_of_SomeD[of torrent k v] by (auto simp: oget_def)
  qed
  show "\<forall>(k, v) \<in> set (reply_options torrent). v \<noteq> Undef"
    using assms(2) some[OF assms(3)] some[OF assms(4)]
    by (auto simp: reply_options_def Let_def oget_def lookup_put lookup_del dest!: in_put in_del)
qed

lemma request_complete_manager:
  "ot_manager (ot_on_request_complete torrent s) = mo_set_default (Obj 0 (reply_options torrent)) Undef (ot_manager s)"
  "map_of (ot_disabled (ot_on_request_complete torrent s)) ''stop_ratio''
     = Some (\<not> truthy (mo_get (ot_manager (ot_on_request_complete torrent s)) ''stop_at_ratio''))"
  "map_of (ot_disabled (ot_on_request_complete torrent s)) ''move_completed_path''
     = Some (\<not> truthy (mo_get (ot_manager (ot_on_request_complete torrent s)) ''move_completed''))"
  by (simp_all add: ot_on_request_complete_def Let_def set_disabled_def ot_emit_def lookup_put)

text \<open>A reply brings the options of the torrent into the form: every option without a change of the
  user reads as the value of the reply (in the type of its default), the option \<open>auto_managed\<close> as the
  value the daemon calls \<open>is_auto_managed\<close>, and the fields for the ratio and the folder can be edited
  exactly when their boxes are checked.\<close>

theorem options_reply_shows:
  assumes "wf_obj torrent" and "\<forall>(k, v) \<in> set torrent. v \<noteq> Undef"
    and "has_key torrent ''is_auto_managed''" and "has_key torrent ''prioritize_first_last''"
    and "mo_cur_changed (ot_manager s) = None"
  shows "let s' = ot_on_request_complete torrent s; m = ot_manager s; m' = ot_manager s' in
    (\<forall>k. k \<noteq> ''auto_managed'' \<longrightarrow> k \<noteq> ''private'' \<longrightarrow> k \<noteq> ''prioritize_first_last_pieces'' \<longrightarrow> has_key torrent k
       \<longrightarrow> plain_update (mo_get_default m k) (oget torrent k)
       \<longrightarrow> mo_get m' k = convert_value_type (mo_get_default m k) (oget torrent k))
    \<and> (plain_update (mo_get_default m ''auto_managed'') (oget torrent ''is_auto_managed'')
       \<longrightarrow> mo_get m' ''auto_managed'' = convert_value_type (mo_get_default m ''auto_managed'') (oget torrent ''is_auto_managed''))
    \<and> map_of (ot_disabled s') ''stop_ratio'' = Some (\<not> truthy (mo_get m' ''stop_at_ratio''))
    \<and> map_of (ot_disabled s') ''move_completed_path'' = Some (\<not> truthy (mo_get m' ''move_completed''))"
proof -
  define s' where "s' = ot_on_request_complete torrent s"
  let ?ps = "reply_options torrent"
  note wf = reply_options_wf[OF assms(1-4)]
  note set = set_default_object[OF wf, where r = 0 and s = "ot_manager s", folded request_complete_manager(1), folded s'_def]
  have "mo_cur_changed (ot_manager s') = None"
    using assms(5) set(1,2) by (simp add: mo_cur_changed_def mo_key_def)
  then have clean: "mo_get (ot_manager s') k = mo_get_default (ot_manager s') k" for k
    by (simp add: mo_get_def mo_is_dirty_def)
  have key: "has_key ?ps k \<longleftrightarrow> k = ''prioritize_first_last_pieces'' \<or> k = ''auto_managed'' \<or> k \<noteq> ''private'' \<and> has_key torrent k" for k
    by (auto simp: reply_options_def Let_def has_key_put has_key_del)
  have "mo_get (ot_manager s') k = convert_value_type (mo_get_default (ot_manager s) k) (oget torrent k)"
    if "k \<noteq> ''auto_managed''" "k \<noteq> ''private''" "k \<noteq> ''prioritize_first_last_pieces''" "has_key torrent k"
      "plain_update (mo_get_default (ot_manager s) k) (oget torrent k)" for k
    using set(3)[of k] that by (simp add: clean key oget_reply_options)
  moreover have "mo_get (ot_manager s') ''auto_managed''
      = convert_value_type (mo_get_default (ot_manager s) ''auto_managed'') (oget torrent ''is_auto_managed'')"
    if "plain_update (mo_get_default (ot_manager s) ''auto_managed'') (oget torrent ''is_auto_managed'')"
    using set(3)[of "''auto_managed''"] that by (simp add: clean key oget_reply_options)
  ultimately show ?thesis
    using request_complete_manager(2,3)[of torrent s] unfolding s'_def Let_def by blast
qed

lemma set_default_one_stored:
  assumes "i \<noteq> mo_key s"
  shows "map_of (mo_stored (mo_set_default_one k v s)) i = map_of (mo_stored s) i"
    and "om_options (mo_set_default_one k v s) = om_options s"
  using assms by (simp_all add: mo_set_default_one_def Let_def om_fire_eq lookup_put)

lemma set_default_object_stored:
  assumes "i \<noteq> mo_key s"
  shows "map_of (mo_stored (mo_set_default (Obj r ps) Undef s)) i = map_of (mo_stored s) i
    \<and> om_options (mo_set_default (Obj r ps) Undef s) = om_options s"
proof -
  define P where "P t \<longleftrightarrow> map_of (mo_stored t) i = map_of (mo_stored s) i \<and> om_options t = om_options s \<and> mo_key t = mo_key s" for t :: mo
  have one: "P (mo_set_default_one k w t)" if "P t" for k w t
    using that assms set_default_one_stored[of i t k w] by (simp add: P_def mo_key_def)
  have "P (mo_set_default (Obj r ps) Undef s)"
    unfolding mo_set_default_def
    by (auto simp: one intro!: for_in_invariant[where P = P]) (simp_all add: P_def)
  then show ?thesis by (simp add: P_def)
qed

text \<open>A reply does not say which torrent it is about, and the tab does not ask: when another torrent is
  selected before the reply comes, its options are stored and shown as those of the torrent selected
  now, and the torrent they belong to keeps the defaults of the form.\<close>

theorem late_options_stored_for_other:
  assumes "wf_obj torrent" and "\<forall>(k, v) \<in> set torrent. v \<noteq> Undef"
    and "has_key torrent ''is_auto_managed''" and "has_key torrent ''prioritize_first_last''"
    and "t \<noteq> u" and "k \<noteq> ''auto_managed''" and "k \<noteq> ''private''" and "k \<noteq> ''prioritize_first_last_pieces''"
    and "has_key torrent k" and "plain_update (oget default_options k) (oget torrent k)"
  shows "let m = ot_manager (ot_on_request_complete torrent (ot_update (Some u) (ot_update (Some t) ot_new))) in
    mo_get (mo_at u m) k = convert_value_type (oget default_options k) (oget torrent k)
    \<and> mo_get (mo_at t m) k = oget default_options k"
proof -
  define m where "m = ot_manager (ot_update (Some u) (ot_update (Some t) ot_new))"
  define m' where "m' = mo_set_default (Obj 0 (reply_options torrent)) Undef m"
  have base: "mo_changed (bind_all n fs x) = mo_changed x" "mo_stored (bind_all n fs x) = mo_stored x"
    "om_options (bind_all n fs x) = om_options x" for n fs and x :: mo
    by (induction n fs x rule: bind_all.induct) (simp_all add: om_bind_def)
  have id: "mo_changed (snd (mo_change_id i b x)) = mo_changed x \<and> mo_stored (snd (mo_change_id i b x)) = mo_stored x
    \<and> mo_current (snd (mo_change_id i b x)) = i \<and> om_options (snd (mo_change_id i b x)) = om_options x" for i b x
  proof -
    define P where "P y \<longleftrightarrow> mo_changed y = mo_changed x \<and> mo_stored y = mo_stored x \<and> mo_current y = i
      \<and> om_options y = om_options x" for y :: mo
    have "P (for_in (\<lambda>opt v t. each_do (\<lambda>f t. t\<lparr> om_trace := om_trace t @ [SetValue f (mo_get t opt)] \<rparr>)
        (binds_of (om_binds t) opt) t) ob y)" if "P y" for ob :: "jsval obj" and y
      by (rule for_in_invariant, rule that, rule each_do_invariant, assumption, simp add: P_def)
    moreover have "P (x\<lparr> mo_current := i \<rparr>)" by (simp add: P_def)
    ultimately show ?thesis by (simp add: P_def mo_change_id_def Let_def)
  qed
  have m: "mo_changed m = []" "mo_stored m = []" "mo_current m = Some u" "om_options m = default_options"
    using assms(5) by (simp_all add: m_def ot_update_def ot_emit_def ot_new_def base id Let_def mo_new_def)
  have key: "mo_key m = u" using m(3) by (simp add: mo_key_def)
  note wf = reply_options_wf[OF assms(1-4)]
  note set = set_default_object[OF wf, where r = 0 and s = m, folded m'_def]
  have st: "map_of (mo_stored m') t = None" "om_options m' = default_options"
    using set_default_object_stored[where i = t and s = m and r = 0 and ps = "reply_options torrent", folded m'_def] m assms(5) key by auto
  have at: "mo_get (mo_at i m') j = mo_get_default (m'\<lparr> mo_current := Some i \<rparr>) j" for i j
    using set(1) m(1) by (simp add: mo_at_def mo_change_id_def mo_get_def mo_is_dirty_def mo_cur_changed_def)
  have dm: "mo_get_default m j = oget default_options j" for j
    using m by (simp add: mo_get_default_def mo_has_def mo_cur_stored_def)
  have "mo_current m' = Some u" using set(2) m(3) by simp
  then have "mo_get (mo_at u m') k = mo_get_default m' k" by (simp add: at flip: \<open>mo_current m' = Some u\<close>)
  also have "\<dots> = convert_value_type (oget default_options k) (oget torrent k)"
    using set(3)[of k] assms(6-10)
    by (simp add: dm oget_reply_options reply_options_def Let_def has_key_put has_key_del)
  finally have 1: "mo_get (mo_at u m') k = convert_value_type (oget default_options k) (oget torrent k)" .
  have "mo_get (mo_at t m') k = oget default_options k"
    unfolding at using st by (simp add: mo_get_default_def mo_has_def mo_cur_stored_def mo_key_def)
  with 1 show ?thesis by (simp add: Let_def request_complete_manager(1) m'_def m_def)
qed

text \<open>After an Apply that succeeded the options read as the shared options of the form, not as the values that
  were sent, until the next reply.\<close>

lemma applied_options_forgotten: "mo_get (ot_manager (ot_on_applied s)) k = oget (om_options (ot_manager s)) k"
  by (simp add: ot_on_applied_def mo_commit_get)

definition sample_options :: "jsval obj" where
  "sample_options = [(''max_download_speed'', JInt 20), (''is_auto_managed'', Bool True), (''prioritize_first_last'', Bool False),
     (''private'', Bool False), (''stop_at_ratio'', Bool True), (''move_completed'', Bool False)]"

lemma sample_options_ok: "wf_obj sample_options" "\<forall>(k, v) \<in> set sample_options. v \<noteq> Undef"
  "has_key sample_options ''is_auto_managed''" "has_key sample_options ''prioritize_first_last''"
  "has_key sample_options ''max_download_speed''" "oget sample_options ''max_download_speed'' = JInt 20"
  "oget sample_options ''is_auto_managed'' = Bool True"
  by (simp_all add: sample_options_def wf_obj_def has_key_def oget_def)

lemma options_reply_shows_witness:
  "let m' = ot_manager (ot_on_request_complete sample_options (ot_new\<lparr> ot_manager := mo_new default_options \<rparr>)) in
    mo_get m' ''max_download_speed'' = JInt 20 \<and> mo_get m' ''auto_managed'' = Bool True"
proof -
  let ?s = "ot_new\<lparr> ot_manager := mo_new default_options \<rparr>"
  have c: "mo_cur_changed (ot_manager ?s) = None" by (simp add: mo_new_def mo_cur_changed_def)
  have d: "mo_get_default (ot_manager ?s) k = oget default_options k" for k
    by (simp add: mo_new_def mo_get_default_def mo_has_def mo_cur_stored_def)
  have "oget default_options ''max_download_speed'' = JInt (-1)" "oget default_options ''auto_managed'' = Bool False"
    by (simp_all add: default_options_def oget_def)
  then have d: "mo_get_default (ot_manager ?s) ''max_download_speed'' = JInt (-1)"
    "mo_get_default (ot_manager ?s) ''auto_managed'' = Bool False"
    by (simp_all only: d)
  note sh = options_reply_shows[OF sample_options_ok(1-4) c, unfolded Let_def]
  have "plain_update (JInt (-1)) (JInt 20)" "plain_update (Bool False) (Bool True)"
    "convert_value_type (JInt (-1)) (JInt 20) = JInt 20" "convert_value_type (Bool False) (Bool True) = Bool True"
    by (simp_all add: plain_update_def convert_value_type_def)
  then show ?thesis
    using sh[THEN conjunct1, rule_format, of "''max_download_speed''"]
      sh[THEN conjunct2, THEN conjunct1] sample_options_ok(5-7)
    unfolding d sample_options_ok(6,7) Let_def by simp
qed

lemma late_options_stored_for_other_witness:
  "let m = ot_manager (ot_on_request_complete sample_options (ot_update (Some ''u'') (ot_update (Some ''t'') ot_new))) in
    mo_get (mo_at ''u'' m) ''max_download_speed'' = JInt 20 \<and> mo_get (mo_at ''t'' m) ''max_download_speed'' = JInt (-1)"
proof -
  have "oget default_options ''max_download_speed'' = JInt (-1)" by (simp add: default_options_def oget_def)
  then show ?thesis
    using late_options_stored_for_other[OF sample_options_ok(1-4), of "''t''" "''u''" "''max_download_speed''"] sample_options_ok(5,6)
    by (simp add: plain_update_def convert_value_type_def)
qed

section \<open>The panel\<close>

text \<open>The five tabs by name; each has \<open>clear\<close> and \<open>update\<close>. A clear runs 100 milliseconds later.\<close>

datatype panel_call = ClearTab string | UpdateTab string string

record details_panel =
  dp_active :: string
  dp_disabled :: "string list"
  dp_pending :: "string list"
  dp_trace :: "panel_call list"

definition details_tabs :: "string list" where
  "details_tabs = [''Status'', ''Details'', ''Files'', ''Peers'', ''Options'']"

definition dp_new :: details_panel where
  "dp_new = \<lparr> dp_active = hd details_tabs, dp_disabled = [], dp_pending = [], dp_trace = [] \<rparr>"

definition dp_clear :: "details_panel \<Rightarrow> details_panel" where
  "dp_clear s = each_do (\<lambda>t s. s\<lparr> dp_pending := dp_pending s @ [t],
     dp_disabled := (if t \<in> set (dp_disabled s) then dp_disabled s else dp_disabled s @ [t]) \<rparr>) details_tabs s"

text \<open>The deferred calls run.\<close>

definition dp_tick :: "details_panel \<Rightarrow> details_panel" where
  "dp_tick s = s\<lparr> dp_pending := [], dp_trace := dp_trace s @ List.map ClearTab (dp_pending s) \<rparr>"

definition dp_update :: "string option \<Rightarrow> string option \<Rightarrow> details_panel \<Rightarrow> details_panel" where
  "dp_update tab selected s = (case selected of None \<Rightarrow> dp_clear s
     | Some torrent \<Rightarrow>
       let s = s\<lparr> dp_disabled := List.filter (\<lambda>t. t \<notin> set details_tabs) (dp_disabled s) \<rparr>
       in s\<lparr> dp_trace := dp_trace s @ [UpdateTab (case tab of None \<Rightarrow> dp_active s | Some t \<Rightarrow> t) torrent] \<rparr>)"

definition dp_on_selection_change :: "bool \<Rightarrow> details_panel \<Rightarrow> details_panel" where
  "dp_on_selection_change has_selection s = (if \<not> has_selection then dp_clear s else s)"

definition dp_on_tab_change :: "string \<Rightarrow> string option \<Rightarrow> details_panel \<Rightarrow> details_panel" where
  "dp_on_tab_change tab selected s = dp_update (Some tab) selected (s\<lparr> dp_active := tab \<rparr>)"

definition dp_on_torrents_click :: "string option \<Rightarrow> details_panel \<Rightarrow> details_panel" where
  "dp_on_torrents_click selected s = dp_update None selected s"

text \<open>A torrent selected within that time is asked for first and its tabs are cleared afterwards.\<close>

lemma clear_after_update:
  assumes "dp_pending s = []"
  shows "dp_trace (dp_tick (dp_on_torrents_click (Some t) (dp_clear s)))
    = dp_trace s @ [UpdateTab (dp_active s) t] @ List.map ClearTab details_tabs"
  using assms by (simp add: dp_on_torrents_click_def dp_update_def dp_clear_def dp_tick_def details_tabs_def Let_def)

end
