(* ===== verification/Preferences.thy ===== *)
theory Preferences
  imports Options GridRender
begin

text \<open>
  The preferences window (preferences/PreferencesWindow.js) and its pages: the list of
  pages and the cards it shows, the options manager the pages share, OK and Apply; and
  the forms of the pages (DownloadsPage.js to CachePage.js) with their fields. Requests
  and messages are the trace, clicks and replies are operations.
\<close>

section \<open>The forms\<close>

record pref_field =
  pf_option :: string
  pf_kind :: string
  pf_label :: string
  pf_value :: jsval
  pf_disabled :: bool
  pf_range :: "(int \<times> int \<times> nat) option"
  pf_choices :: "(jsval \<times> string) list"

definition pf_check :: "string \<Rightarrow> string \<Rightarrow> pref_field" where
  "pf_check opt label = \<lparr> pf_option = opt, pf_kind = ''checkbox'', pf_label = label, pf_value = Undef,
     pf_disabled = False, pf_range = None, pf_choices = [] \<rparr>"

definition pf_text :: "string \<Rightarrow> string \<Rightarrow> pref_field" where
  "pf_text opt label = (pf_check opt label)\<lparr> pf_kind := ''textfield'' \<rparr>"

definition pf_spin :: "string \<Rightarrow> string \<Rightarrow> jsval \<Rightarrow> int \<Rightarrow> int \<Rightarrow> nat \<Rightarrow> pref_field" where
  "pf_spin opt label v lo hi digits = (pf_check opt label)\<lparr> pf_kind := ''spinnerfield'', pf_value := v,
     pf_range := Some (lo, hi, digits) \<rparr>"

definition pf_combo :: "string \<Rightarrow> string \<Rightarrow> (jsval \<times> string) list \<Rightarrow> pref_field" where
  "pf_combo opt label choices = (pf_check opt label)\<lparr> pf_kind := ''combo'', pf_choices := choices \<rparr>"

text \<open>A toggle field is a box and a text that are bound to two options.\<close>

definition pf_toggle :: "string \<Rightarrow> string \<Rightarrow> string \<Rightarrow> pref_field list" where
  "pf_toggle box opt label = [(pf_check box label)\<lparr> pf_kind := ''toggle'' \<rparr>, (pf_text opt [])\<lparr> pf_kind := ''input'' \<rparr>]"

definition downloads_form :: "pref_field list" where
  "downloads_form =
    [pf_text ''download_location'' ''Download to:'']
    @ pf_toggle ''move_completed'' ''move_completed_path'' ''Move completed to:''
    @ pf_toggle ''copy_torrent_file'' ''torrentfiles_location'' ''Copy of .torrent files to:''
    @ [pf_check ''prioritize_first_last_pieces'' ''Prioritize first and last pieces of torrent'',
       pf_check ''sequential_download'' ''Sequential download'',
       pf_check ''add_paused'' ''Add torrents in Paused state'',
       pf_check ''pre_allocate_storage'' ''Pre-allocate disk space'']"

definition network_form :: "pref_field list" where
  "network_form =
    [pf_text ''listen_interface'' [],
     pf_check ''random_port'' ''Use Random Port'',
     pf_spin ''listen_ports'' [] Undef 0 65535 0,
     pf_text ''outgoing_interface'' [],
     pf_check ''random_outgoing_ports'' ''Use Random Ports'',
     (pf_spin ''outgoing_ports'' [] Undef 0 65535 0)\<lparr> pf_kind := ''spinnergroup'',
       pf_choices := [(JInt 0, ''From:''), (JInt 1, ''To:'')] \<rparr>,
     pf_check ''upnp'' ''UPnP'',
     pf_check ''natpmp'' ''NAT-PMP'',
     pf_check ''utpex'' ''Peer Exchange'',
     pf_check ''lsd'' ''LSD'',
     pf_check ''dht'' ''DHT'',
     pf_text ''peer_tos'' ''Peer TOS Byte:'']"

definition policy_choices :: "(jsval \<times> string) list" where
  "policy_choices = [(JInt 0, ''Forced''), (JInt 1, ''Enabled''), (JInt 2, ''Disabled'')]"

definition encryption_form :: "pref_field list" where
  "encryption_form =
    [pf_combo ''enc_in_policy'' ''Incoming:'' policy_choices,
     pf_combo ''enc_out_policy'' ''Outgoing:'' policy_choices,
     pf_combo ''enc_level'' ''Level:'' [(JInt 0, ''Handshake''), (JInt 1, ''Full Stream''), (JInt 2, ''Either'')]]"

definition bandwidth_form :: "pref_field list" where
  "bandwidth_form =
    [pf_spin ''max_connections_global'' ''Maximum Connections:'' (JInt (-1)) (-1) 9999999 0,
     pf_spin ''max_upload_slots_global'' ''Maximum Upload Slots'' (JInt (-1)) (-1) 9999999 0,
     pf_spin ''max_download_speed'' ''Maximum Download Speed (KiB/s):'' (JInt (-1)) (-1) 9999999 1,
     pf_spin ''max_upload_speed'' ''Maximum Upload Speed (KiB/s):'' (JInt (-1)) (-1) 9999999 1,
     pf_spin ''max_half_open_connections'' ''Maximum Half-Open Connections:'' (JInt (-1)) (-1) 9999999 0,
     pf_spin ''max_connections_per_second'' ''Maximum Connection Attempts per Second:'' (JInt (-1)) (-1) 9999999 0,
     pf_check ''ignore_limits_on_local_network'' ''Ignore limits on local network'',
     pf_check ''rate_limit_ip_overhead'' ''Rate limit IP overhead'',
     pf_spin ''max_connections_per_torrent'' ''Maximum Connections:'' (JInt (-1)) (-1) 99999 0,
     pf_spin ''max_upload_slots_per_torrent'' ''Maximum Upload Slots:'' (JInt (-1)) (-1) 99999 0,
     pf_spin ''max_download_speed_per_torrent'' ''Maximum Download Speed (KiB/s):'' (JInt (-1)) (-1) 99999 0,
     pf_spin ''max_upload_speed_per_torrent'' ''Maximum Upload Speed (KiB/s):'' (JInt (-1)) (-1) 99999 0]"

definition other_form :: "pref_field list" where
  "other_form =
    [pf_check ''new_release_check'' ''Be alerted about new releases'',
     pf_check ''send_info'' ''Yes, please send anonymous statistics'',
     pf_text ''geoip_db_location'' ''Path:'']"

definition daemon_form :: "pref_field list" where
  "daemon_form =
    [pf_spin ''daemon_port'' ''Daemon port:'' (JInt 58846) (-1) 65535 0,
     pf_check ''allow_remote'' ''Allow Remote Connections'',
     pf_check ''new_release_check'' ''Periodically check the website for new releases'']"

definition queue_form :: "pref_field list" where
  "queue_form =
    [pf_check ''queue_new_to_top'' ''Queue to top'',
     pf_spin ''max_active_limit'' ''Total:'' (JInt 8) (-1) 99999 0,
     pf_spin ''max_active_downloading'' ''Downloading:'' (JInt 3) (-1) 99999 0,
     pf_spin ''max_active_seeding'' ''Seeding:'' (JInt 5) (-1) 99999 0,
     pf_check ''dont_count_slow_torrents'' ''Ignore slow torrents'',
     pf_check ''announce_to_all_tiers'' ''Announce to trackers in all tiers (one per tier)'',
     pf_check ''auto_manage_prefer_seeds'' ''Prefer seeding torrents'',
     pf_spin ''share_ratio_limit'' ''Share Ratio:'' (JInt 8) (-1) 99999 2,
     pf_spin ''seed_time_ratio_limit'' ''Time Ratio:'' (JInt 3) (-1) 99999 2,
     pf_spin ''seed_time_limit'' ''Time (m):'' (JInt 5) (-1) 99999 0,
     pf_check ''stop_seed_at_ratio'' ''Share Ratio:'',
     (pf_spin ''stop_seed_ratio'' [] (Str ''2.0'') (-1) 99999 2)\<lparr> pf_disabled := True \<rparr>,
     (pf_combo ''remove_seed_at_ratio'' [] [(Bool False, ''Pause torrent''), (Bool True, ''Remove torrent'')])\<lparr>
       pf_kind := ''radiogroup'', pf_disabled := True \<rparr>]"

definition cache_form :: "pref_field list" where
  "cache_form =
    [pf_spin ''cache_size'' ''Cache Size (16 KiB Blocks):'' (JInt 512) (-1) 999999 0,
     pf_spin ''cache_expiry'' ''Cache Expiry (seconds):'' (JInt 60) (-1) 999999 0]"

definition interface_general_form :: "pref_field list" where
  "interface_general_form =
    [pf_check ''show_session_speed'' ''Show session speed in titlebar'',
     pf_check ''sidebar_show_zero'' ''Show filters with zero torrents'',
     pf_check ''sidebar_multiple_filters'' ''Allow the use of multiple filters at once'',
     pf_combo ''language'' [] [],
     pf_combo ''theme'' [] []]"

definition interface_server_form :: "pref_field list" where
  "interface_server_form =
    [pf_spin ''session_timeout'' ''Session Timeout:'' Undef (-1) (2 ^ 53 - 1) 0,
     pf_spin ''port'' ''Port:'' Undef 1 65535 0,
     pf_check ''https'' ''Enable SSL (paths relative to Deluge config folder)'',
     (pf_text ''pkey'' ''Private Key:'')\<lparr> pf_disabled := True \<rparr>,
     (pf_text ''cert'' ''Certificate:'')\<lparr> pf_disabled := True \<rparr>]"

definition interface_form :: "pref_field list" where
  "interface_form = interface_general_form @ interface_server_form"

text \<open>The fields of a form are bound in its order, numbered from the given number on.\<close>

fun bind_form :: "nat \<Rightarrow> pref_field list \<Rightarrow> om \<Rightarrow> om" where
  "bind_form n [] s = s"
| "bind_form n (f # fs) s = bind_form (n + 1) fs (om_bind (pf_option f) n s)"

text \<open>The boxes that enable other fields: what is disabled when the box is checked or not.\<close>

definition on_random_port :: "bool \<Rightarrow> (string \<times> bool) list" where
  "on_random_port checked = [(''listen_ports'', checked)]"

definition on_random_outgoing :: "bool \<Rightarrow> (string \<times> bool) list" where
  "on_random_outgoing checked = [(''outgoing_ports'', checked)]"

definition on_stop_ratio_check :: "bool \<Rightarrow> (string \<times> bool) list" where
  "on_stop_ratio_check checked = [(''stop_seed_ratio'', \<not> checked), (''remove_seed_at_ratio'', \<not> checked)]"

definition on_ssl_check :: "bool \<Rightarrow> (string \<times> bool) list" where
  "on_ssl_check checked = [(''pkey'', \<not> checked), (''cert'', \<not> checked)]"

section \<open>The window\<close>

datatype pref_effect =
    ReqSetConfig "jsval obj"
  | ReqGetConfig
  | PageApply string
  | PageOk string
  | PrefThrow js_error

text \<open>A page: the position of its card once it was looked up, and whether it listens to Apply and OK.\<close>

record pref_page =
  pg_index :: int
  pg_on_apply :: bool
  pg_on_ok :: bool

record pref_window =
  pw_pages :: "(string \<times> pref_page) list"
  pw_rows :: "string list"
  pw_cards :: "string list"
  pw_selected :: "nat option"
  pw_current :: "string option"
  pw_shown :: "string option"
  pw_om :: om
  pw_visible :: bool
  pw_trace :: "pref_effect list"

definition pw_emit :: "pref_effect \<Rightarrow> 'a pref_window_scheme \<Rightarrow> 'a pref_window_scheme" where
  "pw_emit e w = w\<lparr> pw_trace := pw_trace w @ [e] \<rparr>"

definition pw_add_page :: "string \<Rightarrow> bool \<Rightarrow> bool \<Rightarrow> pref_window \<Rightarrow> pref_window" where
  "pw_add_page name on_apply on_ok w = w\<lparr> pw_rows := pw_rows w @ [name], pw_cards := pw_cards w @ [name],
     pw_pages := put name \<lparr> pg_index = -1, pg_on_apply = on_apply, pg_on_ok = on_ok \<rparr> (pw_pages w) \<rparr>"

definition page_order :: "(string \<times> bool) list" where
  "page_order = [(''Downloads'', False), (''Network'', False), (''Encryption'', False), (''Bandwidth'', False),
     (''Interface'', True), (''Other'', False), (''Daemon'', False), (''Queue'', False), (''Proxy'', False),
     (''Cache'', False), (''Plugins'', False)]"

definition shared_form :: "pref_field list" where
  "shared_form = downloads_form @ network_form @ encryption_form @ bandwidth_form @ other_form @ daemon_form
     @ queue_form @ [(pf_check ''proxy'' ''Proxy'')\<lparr> pf_kind := ''proxyfield'' \<rparr>] @ cache_form"

definition pw_new :: pref_window where
  "pw_new = each_do (\<lambda>(n, hooks). pw_add_page n hooks hooks) page_order
     \<lparr> pw_pages = [], pw_rows = [], pw_cards = [], pw_selected = None, pw_current = None, pw_shown = None,
       pw_om = bind_form 0 shared_form (om_new []), pw_visible = False, pw_trace = [] \<rparr>"

text \<open>\<open>setActiveItem\<close>: a position without a card changes nothing.\<close>

definition pw_set_active :: "int \<Rightarrow> pref_window \<Rightarrow> pref_window" where
  "pw_set_active i w = (if 0 \<le> i \<and> nat i < length (pw_cards w) then w\<lparr> pw_shown := Some (pw_cards w ! nat i) \<rparr> else w)"

definition pw_find_index :: "string \<Rightarrow> pref_window \<Rightarrow> pref_window" where
  "pw_find_index name w = (case map_of (pw_pages w) name of None \<Rightarrow> w
     | Some p \<Rightarrow> if pg_index p < 0
         then w\<lparr> pw_pages := put name (p\<lparr> pg_index := index_of name (pw_cards w) \<rparr>) (pw_pages w) \<rparr> else w)"

definition pw_do_select_page :: "string \<Rightarrow> pref_window \<Rightarrow> pref_window" where
  "pw_do_select_page name w = (case map_of (pw_pages w) name of None \<Rightarrow> pw_emit (PrefThrow TypeError) w
     | Some p0 \<Rightarrow> let w = pw_find_index name w in
       (case map_of (pw_pages w) name of None \<Rightarrow> w
        | Some p \<Rightarrow> (pw_set_active (pg_index p) w)\<lparr> pw_current := Some name \<rparr>))"

text \<open>The selection of the list; taking it away fails, as there is no record to read.\<close>

definition pw_on_page_select :: "nat option \<Rightarrow> pref_window \<Rightarrow> pref_window" where
  "pw_on_page_select x w = (case x of None \<Rightarrow> pw_emit (PrefThrow TypeError) w
     | Some i \<Rightarrow> (if i < length (pw_rows w) then pw_do_select_page (pw_rows w ! i) w else pw_emit (PrefThrow TypeError) w))"

definition pw_list_select :: "nat \<Rightarrow> pref_window \<Rightarrow> pref_window" where
  "pw_list_select i w = (if i < length (pw_rows w) \<and> pw_selected w \<noteq> Some i
     then pw_on_page_select (Some i) (w\<lparr> pw_selected := Some i \<rparr>) else w)"

definition pw_select_page :: "string \<Rightarrow> pref_window \<Rightarrow> pref_window" where
  "pw_select_page name w = (case map_of (pw_pages w) name of None \<Rightarrow> pw_emit (PrefThrow TypeError) w
     | Some p0 \<Rightarrow> let w = pw_find_index name w in
       (case map_of (pw_pages w) name of None \<Rightarrow> w | Some p \<Rightarrow> (if 0 \<le> pg_index p then pw_list_select (nat (pg_index p)) w else w)))"

text \<open>\<open>Store.find\<close> compares the beginnings of the values, without case.\<close>

fun find_prefix :: "string \<Rightarrow> string list \<Rightarrow> nat option" where
  "find_prefix p [] = None"
| "find_prefix p (x # xs) = (if take (length p) (lower x) = lower p then Some 0 else map_option Suc (find_prefix p xs))"

text \<open>Removing the selected row takes the selection away, whose listener fails before the card is removed.\<close>

definition pw_remove_page :: "string \<Rightarrow> pref_window \<Rightarrow> pref_window" where
  "pw_remove_page name w = (case find_prefix name (pw_rows w) of
     None \<Rightarrow> w\<lparr> pw_cards := remove1 name (pw_cards w), pw_pages := del name (pw_pages w) \<rparr>
   | Some i \<Rightarrow>
       let w' = w\<lparr> pw_rows := take i (pw_rows w) @ drop (Suc i) (pw_rows w),
                  pw_selected := (case pw_selected w of None \<Rightarrow> None
                    | Some j \<Rightarrow> if j = i then None else if i < j then Some (j - 1) else Some j) \<rparr>
       in if pw_selected w = Some i then pw_on_page_select None w'
          else w'\<lparr> pw_cards := remove1 name (pw_cards w'), pw_pages := del name (pw_pages w') \<rparr>)"

definition pw_on_after_render :: "pref_window \<Rightarrow> pref_window" where
  "pw_on_after_render w = pw_set_active 0 (if pw_selected w = None then pw_list_select 0 w else w)"

definition pw_on_show :: "bool \<Rightarrow> pref_window \<Rightarrow> pref_window" where
  "pw_on_show has_core w = (if \<not> has_core then w else pw_emit ReqGetConfig w)"

definition pw_on_got_config :: "jsval obj \<Rightarrow> pref_window \<Rightarrow> pref_window" where
  "pw_on_got_config config w = w\<lparr> pw_om := om_set (Obj 0 config) Undef (pw_om w) \<rparr>"

definition pw_on_set_config :: "pref_window \<Rightarrow> pref_window" where
  "pw_on_set_config w = w\<lparr> pw_om := om_commit (pw_om w) \<rparr>"

text \<open>The object of changes is the manager's own, so the array written for the ports stays in it.\<close>

definition double_ports :: "jsval obj \<Rightarrow> jsval obj" where
  "double_ports changed = (if has_key changed ''listen_ports''
     then (let p = oget changed ''listen_ports'' in put ''listen_ports'' (Arr 0 [p, p]) changed) else changed)"

definition pw_on_apply :: "pref_window \<Rightarrow> pref_window" where
  "pw_on_apply w = (let changed = om_get_dirty (pw_om w);
       w = (if \<not> is_object_empty changed
            then pw_emit (ReqSetConfig (double_ports changed)) (w\<lparr> pw_om := (pw_om w)\<lparr> om_changed := double_ports changed \<rparr> \<rparr>) else w)
     in for_in (\<lambda>n p w. if pg_on_apply p then pw_emit (PageApply n) w else w) (pw_pages w) w)"

definition pw_on_close :: "pref_window \<Rightarrow> pref_window" where
  "pw_on_close w = w\<lparr> pw_visible := False \<rparr>"

definition pw_on_ok :: "pref_window \<Rightarrow> pref_window" where
  "pw_on_ok w = (let changed = om_get_dirty (pw_om w);
       w = (if \<not> is_object_empty changed then pw_emit (ReqSetConfig changed) w else w);
       w = for_in (\<lambda>n p w. if pg_on_ok p then pw_emit (PageOk n) w else w) (pw_pages w) w
     in w\<lparr> pw_visible := False \<rparr>)"

section \<open>Lemmas\<close>

lemma pw_emit_om [simp]: "pw_om (pw_emit e w) = pw_om w" "pw_trace (pw_emit e w) = pw_trace w @ [e]"
  by (simp_all add: pw_emit_def)

lemma pages_told:
  fixes f :: "string \<Rightarrow> pref_effect"
  shows "pw_om (for_in (\<lambda>n p w. if P p then pw_emit (f n) w else w) ps w) = pw_om w"
    and "pw_trace (for_in (\<lambda>n p w. if P p then pw_emit (f n) w else w) ps w)
      = pw_trace w @ List.map (\<lambda>(n, p). f n) (List.filter (\<lambda>(n, p). P p) ps)"
  by (induction ps arbitrary: w) auto

text \<open>The pages that listen to Apply and to OK.\<close>

definition apply_pages :: "pref_window \<Rightarrow> string list" where
  "apply_pages w = List.map fst (List.filter (\<lambda>(n, p). pg_on_apply p) (pw_pages w))"

definition ok_pages :: "pref_window \<Rightarrow> string list" where
  "ok_pages w = List.map fst (List.filter (\<lambda>(n, p). pg_on_ok p) (pw_pages w))"

lemma pw_on_apply_result:
  assumes "om_changed (pw_om w) \<noteq> []"
  shows "pw_trace (pw_on_apply w) = pw_trace w @ ReqSetConfig (double_ports (om_changed (pw_om w))) # List.map PageApply (apply_pages w)"
    and "pw_om (pw_on_apply w) = (pw_om w)\<lparr> om_changed := double_ports (om_changed (pw_om w)) \<rparr>"
  using assms
  by (simp_all add: pw_on_apply_def om_get_dirty_def is_object_empty_def pages_told apply_pages_def Let_def
      pw_emit_def case_prod_beta comp_def)

lemma pw_on_ok_trace:
  assumes "om_changed (pw_om w) \<noteq> []"
  shows "pw_trace (pw_on_ok w) = pw_trace w @ ReqSetConfig (om_changed (pw_om w)) # List.map PageOk (ok_pages w)"
  using assms
  by (simp add: pw_on_ok_def om_get_dirty_def is_object_empty_def pages_told ok_pages_def Let_def
      pw_emit_def case_prod_beta comp_def)

lemma double_ports_simps:
  "has_key (double_ports ch) k = has_key ch k"
  "wf_obj ch \<Longrightarrow> wf_obj (double_ports ch)"
  "oget (double_ports ch) k = (if k = ''listen_ports'' \<and> has_key ch k then Arr 0 [oget ch k, oget ch k] else oget ch k)"
  "ch \<noteq> [] \<Longrightarrow> double_ports ch \<noteq> []"
  by (auto simp: double_ports_def Let_def has_key_put wf_obj_put oget_def lookup_put)

text \<open>C23: Apply sends the changed options, the port for listening as a pair, once, and tells the pages
  that listen. When the daemon has answered, every changed option has the value that was sent as its
  default, the others keep theirs, and nothing is changed any more.\<close>

theorem apply_commits_changes:
  assumes "wf_obj (om_changed (pw_om w))" and "om_changed (pw_om w) \<noteq> []"
  shows "pw_trace (pw_on_apply w) = pw_trace w @ ReqSetConfig (double_ports (om_changed (pw_om w))) # List.map PageApply (apply_pages w)
    \<and> (\<forall>k. om_get (pw_om (pw_on_set_config (pw_on_apply w))) k
        = (if has_key (om_changed (pw_om w)) k then oget (double_ports (om_changed (pw_om w))) k else om_get_default (pw_om w) k)
      \<and> \<not> om_is_dirty (pw_om (pw_on_set_config (pw_on_apply w))) k)"
proof -
  let ?m = "pw_om (pw_on_apply w)"
  have "wf_obj (om_changed ?m)" using assms by (simp add: pw_on_apply_result double_ports_simps)
  then have "om_get (om_commit ?m) k = (if has_key (om_changed ?m) k then oget (om_changed ?m) k else om_get_default ?m k)
      \<and> \<not> om_is_dirty (om_commit ?m) k" for k
    using om_commit_result[of ?m k] by blast
  then show ?thesis
    using assms by (simp add: pw_on_set_config_def pw_on_apply_result double_ports_simps om_get_default_def)
qed

text \<open>The port for listening is sent in three shapes: OK sends the number itself, where the daemon
  wants a pair; Apply sends the pair; and a second Apply before the daemon has answered sends a pair
  of pairs, because the pair was written into the manager's own changes.\<close>

theorem listen_port_shapes:
  assumes "oget (om_changed (pw_om w)) ''listen_ports'' = p" and "p \<noteq> Undef"
  shows "let sent = (\<lambda>v. \<exists>ch. v = ReqSetConfig ch) in
    (\<exists>ch. List.filter sent (drop (length (pw_trace w)) (pw_trace (pw_on_ok w))) = [ReqSetConfig ch]
      \<and> oget ch ''listen_ports'' = p)
    \<and> (\<exists>ch ch'. List.filter sent (drop (length (pw_trace w)) (pw_trace (pw_on_apply (pw_on_apply w)))) = [ReqSetConfig ch, ReqSetConfig ch']
      \<and> oget ch ''listen_ports'' = Arr 0 [p, p]
      \<and> oget ch' ''listen_ports'' = Arr 0 [Arr 0 [p, p], Arr 0 [p, p]])"
proof -
  let ?ch = "om_changed (pw_om w)"
  have k: "has_key ?ch ''listen_ports''" using assms by (auto simp: oget_def has_key_def split: option.splits)
  then have ne: "?ch \<noteq> []" by (auto simp: has_key_def)
  have skip: "List.filter (\<lambda>v. \<exists>ch. v = ReqSetConfig ch) (List.map PageApply ns) = []"
    "List.filter (\<lambda>v. \<exists>ch. v = ReqSetConfig ch) (List.map PageOk ns) = []" for ns
    by (induction ns) auto
  have ne2: "om_changed (pw_om (pw_on_apply w)) \<noteq> []" using ne by (simp add: pw_on_apply_result double_ports_simps)
  show ?thesis
    unfolding Let_def pw_on_ok_trace[OF ne] pw_on_apply_result(1)[OF ne2] pw_on_apply_result[OF ne]
    using assms k by (simp add: skip double_ports_simps)
qed

text \<open>A page keeps the position its card had when it was first shown. After an earlier page is removed
  (as when its plugin is disabled), choosing the page shows the card after it.\<close>

theorem removed_page_shifts_cards:
  assumes "pw_cards w = xs @ a # ys @ b # c # zs" and "distinct (pw_cards w)"
    and "map_of (pw_pages w) b = Some p" and "pg_index p = int (length (xs @ a # ys))"
    and "\<forall>i. find_prefix a (pw_rows w) = Some i \<longrightarrow> pw_selected w \<noteq> Some i"
  shows "pw_shown (pw_do_select_page b (pw_remove_page a w)) = Some c
    \<and> pw_current (pw_do_select_page b (pw_remove_page a w)) = Some b"
proof -
  define u where "u = pw_remove_page a w"
  have ne: "a \<noteq> b" and "a \<notin> set xs" using assms(1,2) by auto
  then have cards: "pw_cards u = xs @ ys @ b # c # zs"
    using assms(1,5) by (auto simp: u_def pw_remove_page_def Let_def remove1_append split: option.split)
  have page: "map_of (pw_pages u) b = Some p"
    using assms(3,5) ne by (auto simp: u_def pw_remove_page_def Let_def lookup_del split: option.split)
  have "pw_find_index b u = u" using page assms(4) by (simp add: pw_find_index_def)
  moreover have i: "nat (pg_index p) = length (xs @ ys @ [b])" using assms(4) by simp
  have "pw_cards u = (xs @ ys @ [b]) @ c # zs" by (simp add: cards)
  then have "nat (pg_index p) < length (pw_cards u)" "pw_cards u ! nat (pg_index p) = c"
    unfolding i by (simp_all only: nth_append_length) simp
  ultimately have "pw_do_select_page b u = u\<lparr> pw_shown := Some c, pw_current := Some b \<rparr>"
    using page assms(4) by (simp add: pw_do_select_page_def pw_set_active_def)
  then show ?thesis by (simp add: u_def)
qed

section \<open>Sample runs\<close>

definition changed_window :: pref_window where
  "changed_window = pw_new\<lparr> pw_om := (om_new [(''listen_ports'', Arr 0 [JInt 1, JInt 1]), (''dht'', Bool True)])\<lparr>
     om_changed := [(''dht'', Bool False), (''listen_ports'', JInt 6881)] \<rparr> \<rparr>"

lemma changed_window_changes: "om_changed (pw_om changed_window) = [(''dht'', Bool False), (''listen_ports'', JInt 6881)]"
  by (simp add: changed_window_def)

lemma apply_commits_changes_witness:
  "om_get (pw_om (pw_on_set_config (pw_on_apply changed_window))) ''dht'' = Bool False
    \<and> om_get (pw_om (pw_on_set_config (pw_on_apply changed_window))) ''listen_ports'' = Arr 0 [JInt 6881, JInt 6881]"
  using apply_commits_changes[of changed_window]
  by (simp add: changed_window_changes wf_obj_def has_key_def oget_def double_ports_def Let_def)

lemma listen_port_shapes_witness:
  "\<exists>ch. List.filter (\<lambda>v. \<exists>ch. v = ReqSetConfig ch) (drop (length (pw_trace changed_window)) (pw_trace (pw_on_ok changed_window)))
    = [ReqSetConfig ch] \<and> oget ch ''listen_ports'' = JInt 6881"
  using listen_port_shapes[of changed_window "JInt 6881", unfolded Let_def, THEN conjunct1]
  by (simp add: changed_window_changes oget_def)

text \<open>Three plugins add their pages; the second page was shown, then the first plugin is disabled.\<close>

definition plugin_window :: pref_window where
  "plugin_window = pw_do_select_page ''B'' (pw_add_page ''C'' True True (pw_add_page ''B'' True True (pw_add_page ''A'' True True pw_new)))"

lemma removed_page_shifts_cards_witness:
  "pw_shown (pw_do_select_page ''B'' (pw_remove_page ''A'' plugin_window)) = Some ''C''"
proof -
  let ?w = "pw_add_page ''C'' True True (pw_add_page ''B'' True True (pw_add_page ''A'' True True pw_new))"
  have w: "pw_cards ?w = List.map fst page_order @ ''A'' # [] @ ''B'' # ''C'' # []" "pw_selected ?w = None"
    "map_of (pw_pages ?w) ''B'' = Some \<lparr> pg_index = -1, pg_on_apply = True, pg_on_ok = True \<rparr>"
    by (simp_all add: pw_add_page_def pw_new_def page_order_def lookup_put)
  have "pw_cards plugin_window = pw_cards ?w \<and> pw_selected plugin_window = None
    \<and> map_of (pw_pages plugin_window) ''B'' = Some \<lparr> pg_index = 12, pg_on_apply = True, pg_on_ok = True \<rparr>"
    using w by (simp add: plugin_window_def pw_do_select_page_def pw_find_index_def Let_def lookup_put pw_set_active_def page_order_def)
  then show ?thesis
    using removed_page_shifts_cards[of plugin_window "List.map fst page_order" "''A''" "[]" "''B''" "''C''" "[]"
        "\<lparr> pg_index = 12, pg_on_apply = True, pg_on_ok = True \<rparr>"] w(1)
    by (simp add: page_order_def)
qed

end
