(* ===== verification/PrefPages.thy ===== *)
theory PrefPages
  imports Preferences RecordStore
begin

text \<open>
  The pages of the preferences that do more than show options: the interface page with
  the change of the password (InterfacePage.js), the proxy settings (ProxyField.js,
  ProxyPage.js), the list of plugins (PluginsPage.js, InstallPluginWindow.js), and what
  a plugin does to the torrent grid (Plugin.js). Texts of fields are widgets that hold
  the value they are given; a check box turns it into a boolean.
\<close>

section \<open>The interface page\<close>

datatype page_effect =
    ReqWebSetConfig "jsval obj"
  | ReqSetTheme jsval
  | ReqChangePassword string string
  | ReqInterfaceData
  | AskRefresh string
  | PageMessage string
  | ShowChoice string jsval

record iface =
  ip_om :: om
  ip_old :: string
  ip_new :: string
  ip_confirm :: string
  ip_config :: "jsval obj"
  ip_languages :: "(string \<times> string) list"
  ip_themes :: "(string \<times> string) list"
  ip_trace :: "page_effect list"

definition ip_init :: "jsval obj \<Rightarrow> iface" where
  "ip_init config = \<lparr> ip_om = bind_form 0 interface_form (om_new []), ip_old = [], ip_new = [], ip_confirm = [],
     ip_config = config, ip_languages = [], ip_themes = [], ip_trace = [] \<rparr>"

definition ip_emit :: "page_effect \<Rightarrow> iface \<Rightarrow> iface" where
  "ip_emit e s = s\<lparr> ip_trace := ip_trace s @ [e] \<rparr>"

definition ip_on_password_change :: "iface \<Rightarrow> iface" where
  "ip_on_password_change s = (if ip_new s \<noteq> ip_confirm s then ip_emit (PageMessage ''Invalid Password'') s
     else ip_emit (ReqChangePassword (ip_old s) (ip_new s)) s)"

definition ip_on_password_changed :: "bool \<Rightarrow> iface \<Rightarrow> iface" where
  "ip_on_password_changed ok s = (if \<not> ok then (ip_emit (PageMessage ''Password'') s)\<lparr> ip_old := [] \<rparr>
     else (ip_emit (PageMessage ''Change Successful'') s)\<lparr> ip_old := [], ip_new := [], ip_confirm := [] \<rparr>)"

text \<open>Every key of the configuration of the page takes the value of the manager.\<close>

definition ip_on_apply :: "iface \<Rightarrow> iface" where
  "ip_on_apply s =
     (let changed = om_get_dirty (ip_om s);
          s = (if is_object_empty changed then s
               else
                 let s = ip_emit (ReqWebSetConfig changed) s;
                     s = s\<lparr> ip_config := List.map (\<lambda>(k, v). (k, om_get (ip_om s) k)) (ip_config s) \<rparr>;
                     s = (if has_key changed ''language'' then ip_emit (AskRefresh ''WebUI Language Changed'') s else s)
                 in if has_key changed ''theme''
                    then ip_emit (AskRefresh ''WebUI Theme Changed'') (ip_emit (ReqSetTheme (oget changed ''theme'')) s) else s)
      in if ip_old s \<noteq> [] \<or> ip_new s \<noteq> [] then ip_on_password_change s else s)"

definition ip_on_ok :: "iface \<Rightarrow> iface" where
  "ip_on_ok s = ip_on_apply s"

definition ip_on_got_config :: "jsval obj \<Rightarrow> iface \<Rightarrow> iface" where
  "ip_on_got_config config s = s\<lparr> ip_om := om_set (Obj 0 config) Undef (ip_om s) \<rparr>"

definition ip_on_got_languages :: "(string \<times> string) list \<Rightarrow> iface \<Rightarrow> iface" where
  "ip_on_got_languages info s = ip_emit (ShowChoice ''language'' (om_get (ip_om s) ''language''))
     (s\<lparr> ip_languages := ([], ''System Default'') # info \<rparr>)"

definition ip_on_got_themes :: "(string \<times> string) list \<Rightarrow> iface \<Rightarrow> iface" where
  "ip_on_got_themes info s = ip_emit (ShowChoice ''theme'' (om_get (ip_om s) ''theme'')) (s\<lparr> ip_themes := info \<rparr>)"

definition ip_on_set_config :: "iface \<Rightarrow> iface" where
  "ip_on_set_config s = s\<lparr> ip_om := om_commit (ip_om s) \<rparr>"

definition ip_on_page_show :: "iface \<Rightarrow> iface" where
  "ip_on_page_show s = ip_emit ReqInterfaceData s"

section \<open>The proxy settings\<close>

definition proxy_types :: "(int \<times> string) list" where
  "proxy_types = [(0, ''None''), (1, ''Socks4''), (2, ''Socks5''), (3, ''Socks5 Auth''), (4, ''HTTP''), (5, ''HTTP Auth''), (6, ''I2P'')]"

text \<open>The widgets by name, with the key of the value each stands for.\<close>

definition proxy_widgets :: "(string \<times> string \<times> string) list" where
  "proxy_widgets =
    [(''proxytype'', ''type'', ''combo''), (''hostname'', ''hostname'', ''textfield''), (''port'', ''port'', ''spinnerfield''),
     (''username'', ''username'', ''textfield''), (''password'', ''password'', ''textfield''),
     (''proxy_host_resolve'', ''proxy_hostnames'', ''checkbox''), (''proxy_peer_conn'', ''proxy_peer_connections'', ''checkbox''),
     (''proxy_tracker_conn'', ''proxy_tracker_connections'', ''checkbox''), (''force_proxy'', ''force_proxy'', ''checkbox''),
     (''anonymous_mode'', ''anonymous_mode'', ''checkbox'')]"

record proxy_field =
  px_widgets :: "jsval obj"
  px_hidden :: "(string \<times> bool) list"
  px_setting :: bool
  px_trace :: "(jsval obj \<times> jsval obj) list"

definition px_new :: proxy_field where
  "px_new = \<lparr> px_widgets = [], px_hidden = [], px_setting = False, px_trace = [] \<rparr>"

definition px_value_of :: "string \<Rightarrow> jsval \<Rightarrow> jsval" where
  "px_value_of name v = (if name = ''port'' then Num (to_num v) else v)"

definition px_get_value :: "proxy_field \<Rightarrow> jsval obj" where
  "px_get_value s = List.map (\<lambda>(w, k, kind). (k, px_value_of w (oget (px_widgets s) w))) proxy_widgets"

definition check_value :: "jsval \<Rightarrow> jsval" where
  "check_value v = Bool (v = Bool True \<or> v = Str ''true'' \<or> loose_eq v (Str ''1'') \<or> lower (to_str v) = ''on'')"

definition widget_value :: "string \<Rightarrow> jsval \<Rightarrow> jsval" where
  "widget_value kind v = (if kind = ''checkbox'' then check_value v else v)"

definition px_show :: "string \<Rightarrow> bool \<Rightarrow> proxy_field \<Rightarrow> proxy_field" where
  "px_show w b s = s\<lparr> px_hidden := put w (\<not> b) (px_hidden s) \<rparr>"

definition px_on_type_select :: "int \<Rightarrow> proxy_field \<Rightarrow> proxy_field" where
  "px_on_type_select i s =
     (let on = (0 < i);
          s = px_show ''proxy_tracker_conn'' on (px_show ''proxy_peer_conn'' on (px_show ''port'' on (px_show ''hostname'' on s)));
          s = px_show ''proxy_host_resolve'' (1 < i \<and> i < 6) s;
          auth = (i = 3 \<or> i = 5)
      in px_show ''password'' auth (px_show ''username'' auth s))"

text \<open>The type is looked up by the beginning of its number; without a record the handler fails, before
  \<open>setting\<close> is reset.\<close>

definition find_type :: "jsval \<Rightarrow> int option" where
  "find_type v = (if is_empty v then None
     else map_option fst (List.find (\<lambda>(i, t). take (length (to_str v)) (int_str i) = to_str v) proxy_types))"

definition px_set_value :: "jsval obj \<Rightarrow> proxy_field \<Rightarrow> proxy_field \<times> bool" where
  "px_set_value value s =
     (let s = s\<lparr> px_setting := True,
            px_widgets := each_do (\<lambda>(w, k, kind). put w (widget_value kind (oget value k))) proxy_widgets (px_widgets s) \<rparr>
      in case find_type (oget value ''type'') of None \<Rightarrow> (s, False)
         | Some i \<Rightarrow> ((px_on_type_select i s)\<lparr> px_setting := False \<rparr>, True))"

text \<open>The user changes a widget.\<close>

definition px_on_field_change :: "string \<Rightarrow> jsval \<Rightarrow> proxy_field \<Rightarrow> proxy_field" where
  "px_on_field_change name old s = (if px_setting s then s
     else (let new = px_get_value s in s\<lparr> px_trace := px_trace s @ [(new, put name old new)] \<rparr>))"

definition px_edit :: "string \<Rightarrow> jsval \<Rightarrow> proxy_field \<Rightarrow> proxy_field" where
  "px_edit name v s = px_on_field_change name (oget (px_widgets s) name) (s\<lparr> px_widgets := put name v (px_widgets s) \<rparr>)"

definition proxy_page_value :: "proxy_field \<Rightarrow> jsval obj" where
  "proxy_page_value s = [(''proxy'', Obj 0 (px_get_value s))]"

definition on_proxy_change :: "jsval \<Rightarrow> proxy_field \<Rightarrow> jsval obj \<times> jsval obj" where
  "on_proxy_change old s = (let new = proxy_page_value s in (new, put ''proxy'' old new))"

section \<open>The list of plugins\<close>

datatype plugin_effect =
    ReqEnablePlugin string
  | ReqDisablePlugin string
  | ReqAvailablePlugins
  | ReqEnabledPlugins
  | ReqPluginInfo string
  | ShowInfo "jsval obj"
  | ReqUploadPlugin string "string option"
  | OpenUrl string
  | ShowInstallWindow

record plugins_page =
  pp_available :: "string list"
  pp_enabled :: "string list"
  pp_rows :: "(bool \<times> string) list"
  pp_rendered :: bool
  pp_trace :: "plugin_effect list"

definition pp_emit :: "plugin_effect \<Rightarrow> plugins_page \<Rightarrow> plugins_page" where
  "pp_emit e s = s\<lparr> pp_trace := pp_trace s @ [e] \<rparr>"

definition pp_defaults :: "jsval obj" where
  "pp_defaults = [(''version'', Str []), (''email'', Str []), (''homepage'', Str []), (''details'', Str [])]"

definition pp_set_info :: "jsval obj option \<Rightarrow> plugins_page \<Rightarrow> plugins_page" where
  "pp_set_info x s = (if \<not> pp_rendered s then s else pp_emit (ShowInfo (case x of None \<Rightarrow> pp_defaults | Some v \<Rightarrow> v)) s)"

definition pp_update_plugins :: "plugins_page \<Rightarrow> plugins_page" where
  "pp_update_plugins s = pp_emit ReqAvailablePlugins s"

text \<open>\<open>lt\<close> is the order of texts of the browser, applied to lower case.\<close>

definition pp_on_got_available :: "(string \<Rightarrow> string \<Rightarrow> bool) \<Rightarrow> string list \<Rightarrow> plugins_page \<Rightarrow> plugins_page" where
  "pp_on_got_available lt plugins s = pp_emit ReqEnabledPlugins
     (s\<lparr> pp_available := stable_sort (\<lambda>a b. lt (lower a) (lower b)) plugins \<rparr>)"

definition pp_update_grid :: "plugins_page \<Rightarrow> plugins_page" where
  "pp_update_grid s = s\<lparr> pp_rows := List.map (\<lambda>p. (p \<in> set (pp_enabled s), p)) (pp_available s) \<rparr>"

definition pp_on_got_plugins :: "plugins_page \<Rightarrow> plugins_page" where
  "pp_on_got_plugins s = pp_update_grid (pp_set_info None s)"

definition pp_on_got_enabled :: "string list \<Rightarrow> plugins_page \<Rightarrow> plugins_page" where
  "pp_on_got_enabled plugins s = pp_on_got_plugins (s\<lparr> pp_enabled := plugins \<rparr>)"

definition pp_on_node_click :: "bool \<Rightarrow> nat \<Rightarrow> plugins_page \<Rightarrow> plugins_page" where
  "pp_on_node_click box i s = (if \<not> box \<or> length (pp_rows s) \<le> i then s
     else (case pp_rows s ! i of (on, p) \<Rightarrow>
       if p = ''WebUi'' then s
       else pp_emit (if \<not> on then ReqEnablePlugin p else ReqDisablePlugin p) (s\<lparr> pp_rows := (pp_rows s)[i := (\<not> on, p)] \<rparr>)))"

definition pp_on_got_info :: "jsval obj \<Rightarrow> plugins_page \<Rightarrow> plugins_page" where
  "pp_on_got_info info s = pp_set_info (Some
     [(''author'', oget info ''Author''), (''version'', oget info ''Version''), (''email'', oget info ''Author-email''),
      (''homepage'', oget info ''Home-page''), (''details'', oget info ''Description'')]) s"

definition pp_set_enabled :: "bool \<Rightarrow> string \<Rightarrow> plugins_page \<Rightarrow> plugins_page" where
  "pp_set_enabled b p s = (case find_prefix p (List.map snd (pp_rows s)) of None \<Rightarrow> s
     | Some i \<Rightarrow> s\<lparr> pp_rows := (pp_rows s)[i := (b, snd (pp_rows s ! i))] \<rparr>)"

definition pp_on_plugin_enabled :: "string \<Rightarrow> plugins_page \<Rightarrow> plugins_page" where
  "pp_on_plugin_enabled p s = pp_set_enabled True p s"

definition pp_on_plugin_disabled :: "string \<Rightarrow> plugins_page \<Rightarrow> plugins_page" where
  "pp_on_plugin_disabled p s = pp_set_enabled False p s"

definition pp_on_plugin_install :: "plugins_page \<Rightarrow> plugins_page" where
  "pp_on_plugin_install s = pp_update_plugins s"

definition pp_on_plugin_select :: "nat option \<Rightarrow> plugins_page \<Rightarrow> plugins_page" where
  "pp_on_plugin_select x s = (case x of None \<Rightarrow> s
     | Some i \<Rightarrow> if i < length (pp_rows s) then pp_emit (ReqPluginInfo (snd (pp_rows s ! i))) s else s)"

definition pp_on_find_more :: "plugins_page \<Rightarrow> plugins_page" where
  "pp_on_find_more s = pp_emit (OpenUrl ''http://dev.deluge-torrent.org/wiki/Plugins'') s"

definition pp_on_install_window :: "plugins_page \<Rightarrow> plugins_page" where
  "pp_on_install_window s = pp_emit ShowInstallWindow s"

text \<open>The file name is what follows the last backslash; the path is that of the first file on the server.\<close>

fun after_backslash :: "string \<Rightarrow> string \<Rightarrow> string" where
  "after_backslash acc [] = acc"
| "after_backslash acc (c # cs) = (if c = CHR 0x5C then after_backslash [] cs else after_backslash (acc @ [c]) cs)"

definition ipw_on_upload_success :: "bool \<Rightarrow> string list \<Rightarrow> string \<Rightarrow> plugins_page \<Rightarrow> plugins_page" where
  "ipw_on_upload_success ok files file s = (if ok
     then pp_emit (ReqUploadPlugin (after_backslash [] file) (case files of [] \<Rightarrow> None | p # _ \<Rightarrow> Some p)) s else s)"

section \<open>Plugins and the grid\<close>

record grid_meta =
  gm_fields :: "jsval obj list"
  gm_columns :: "jsval obj list"
  gm_keys :: "string list"

definition register_status :: "string \<Rightarrow> string \<Rightarrow> jsval obj \<Rightarrow> jsval obj \<Rightarrow> grid_meta \<Rightarrow> grid_meta" where
  "register_status key header col_cfg store_cfg s = s\<lparr>
     gm_fields := gm_fields s @ [put ''name'' (Str key) store_cfg],
     gm_columns := gm_columns s @ [put ''dataIndex'' (Str key) (put ''header'' (Str header) col_cfg)],
     gm_keys := gm_keys s @ [key] \<rparr>"

definition deregister_status :: "string \<Rightarrow> grid_meta \<Rightarrow> grid_meta" where
  "deregister_status key s = s\<lparr>
     gm_fields := List.filter (\<lambda>f. \<not> loose_eq (oget f ''name'') (Str key)) (gm_fields s),
     gm_columns := List.filter (\<lambda>c. \<not> loose_eq (oget c ''dataIndex'') (Str key)) (gm_columns s),
     gm_keys := List.filter (\<lambda>k. k = key) (gm_keys s) \<rparr>"

datatype plugin_call = ReloadMethods | FirePlugin string | RunHook string

definition plugin_enable :: "bool \<Rightarrow> plugin_call list" where
  "plugin_enable has_hook = [ReloadMethods, FirePlugin ''enable''] @ (if has_hook then [RunHook ''onEnable''] else [])"

definition plugin_disable :: "bool \<Rightarrow> plugin_call list" where
  "plugin_disable has_hook = [FirePlugin ''disabled''] @ (if has_hook then [RunHook ''onDisable''] else [])"

text \<open>The listeners a plugin declares are for \<open>enabled\<close> and \<open>disabled\<close>.\<close>

definition plugin_events :: "string list" where
  "plugin_events = [''enabled'', ''disabled'']"

lemma enabled_never_fired: "FirePlugin ''enabled'' \<notin> set (plugin_enable b)"
  by (simp add: plugin_enable_def)

section \<open>Properties\<close>

text \<open>The password is sent for a change exactly when one of the first two fields is filled and the new
  password was typed twice alike; a mismatch only shows a message.\<close>

theorem password_change_sent:
  assumes "om_changed (ip_om s) = []"
  shows "drop (length (ip_trace s)) (ip_trace (ip_on_apply s)) =
    (if ip_old s = [] \<and> ip_new s = [] then []
     else if ip_new s = ip_confirm s then [ReqChangePassword (ip_old s) (ip_new s)] else [PageMessage ''Invalid Password''])"
  using assms by (auto simp: ip_on_apply_def om_get_dirty_def is_object_empty_def ip_on_password_change_def ip_emit_def)

text \<open>After a change of any option of the interface page the base address of the page is the one of
  the stored configuration: the address the page was served under (behind a proxy) is lost, and
  uploads go to the wrong address.\<close>

theorem apply_replaces_base:
  assumes "om_changed (ip_om s) \<noteq> []" and "has_key (ip_config s) ''base''" and "\<not> om_is_dirty (ip_om s) ''base''"
  shows "oget (ip_config (ip_on_apply s)) ''base'' = oget (om_options (ip_om s)) ''base''"
proof -
  have *: "oget (List.map (\<lambda>(k, v). (k, f k)) ob) ''base'' = f ''base''" if "has_key ob ''base''" for f and ob :: "jsval obj"
    using that by (induction ob) (auto simp: has_key_def oget_def split: if_splits)
  have "ip_config (ip_on_apply s) = List.map (\<lambda>(k, v). (k, om_get (ip_om s) k)) (ip_config s)"
    using assms(1)
    by (simp add: ip_on_apply_def om_get_dirty_def is_object_empty_def ip_on_password_change_def ip_emit_def Let_def)
  then show ?thesis using *[OF assms(2)] assms(3) by (simp add: om_get_def)
qed

definition proxy_value_ok :: "jsval obj \<Rightarrow> int \<Rightarrow> bool" where
  "proxy_value_ok v t = (oget v ''type'' = JInt t \<and> 0 \<le> t \<and> t \<le> 6 \<and> (\<exists>n. oget v ''port'' = Num n)
     \<and> list_all (\<lambda>(w, k, kind). kind = ''checkbox'' \<longrightarrow> oget v k \<in> {Bool True, Bool False}) proxy_widgets)"

lemma find_type_int:
  assumes "0 \<le> t" and "t \<le> 6"
  shows "find_type (JInt t) = Some t"
proof -
  have "t \<in> {0, 1, 2, 3, 4, 5, 6}" using assms by auto
  moreover have "find_type (JInt 0) = Some 0" "find_type (JInt 1) = Some 1" "find_type (JInt 2) = Some 2" "find_type (JInt 3) = Some 3"
    "find_type (JInt 4) = Some 4" "find_type (JInt 5) = Some 5" "find_type (JInt 6) = Some 6"
    by (code_simp+)
  ultimately show ?thesis by auto
qed

lemma check_value_bool: "check_value (Bool True) = Bool True" "check_value (Bool False) = Bool False"
  by (code_simp+)

lemma px_show_state [simp]: "px_widgets (px_show w b s) = px_widgets s" "px_setting (px_show w b s) = px_setting s"
  "px_hidden (px_show w b s) = put w (\<not> b) (px_hidden s)" "px_trace (px_show w b s) = px_trace s"
  by (simp_all add: px_show_def)

lemma widgets_put: "distinct (List.map fst ws) \<Longrightarrow> (w, k, kind) \<in> set ws \<Longrightarrow>
    oget (each_do (\<lambda>(w, k, kind). put w (f kind (oget v k))) ws ob) w = f kind (oget v k)"
proof (induction ws arbitrary: ob)
  case (Cons x ws)
  have other: "oget (each_do (\<lambda>(w, k, kind). put w (f kind (oget v k))) us ob) j = oget ob j"
    if "j \<notin> fst ` set us" for us ob j
    using that by (induction us arbitrary: ob) (auto simp: oget_def lookup_put)
  show ?case
  proof (cases "x = (w, k, kind)")
    case True
    then show ?thesis using Cons.prems other[of w ws] by (auto simp: oget_def lookup_put)
  qed (use Cons in auto)
qed simp

text \<open>Setting the proxy settings of the daemon and reading them back gives the same values, and the type
  decides what is shown: the address for every type but none, name and password for the two types with
  authentication, the resolving of names for all but Socks4 and I2P.\<close>

theorem proxy_round_trip:
  assumes "proxy_value_ok v t"
  shows "let s' = fst (px_set_value v s) in
    snd (px_set_value v s) \<and> \<not> px_setting s'
    \<and> px_get_value s' = List.map (\<lambda>(w, k, kind). (k, oget v k)) proxy_widgets
    \<and> map_of (px_hidden s') ''hostname'' = Some (t = 0)
    \<and> map_of (px_hidden s') ''username'' = Some (t \<noteq> 3 \<and> t \<noteq> 5)
    \<and> map_of (px_hidden s') ''proxy_host_resolve'' = Some (t < 2 \<or> t = 6)"
proof -
  define u where "u = s\<lparr> px_setting := True,
    px_widgets := each_do (\<lambda>(w, k, kind). put w (widget_value kind (oget v k))) proxy_widgets (px_widgets s) \<rparr>"
  have t: "0 \<le> t" "t \<le> 6" "oget v ''type'' = JInt t" using assms by (auto simp: proxy_value_ok_def)
  have set: "px_set_value v s = ((px_on_type_select t u)\<lparr> px_setting := False \<rparr>, True)"
    unfolding px_set_value_def Let_def u_def[symmetric] t(3) find_type_int[OF t(1,2)] by simp
  have w: "px_widgets (px_on_type_select t u) = px_widgets u" by (simp add: px_on_type_select_def Let_def)
  have d: "distinct (List.map fst proxy_widgets)" by (simp add: proxy_widgets_def)
  have "px_value_of w (oget (px_widgets u) w) = oget v k" if "(w, k, kind) \<in> set proxy_widgets" for w k kind
  proof -
    have "oget (px_widgets u) w = widget_value kind (oget v k)"
      unfolding u_def using widgets_put[OF d that, of widget_value v] by simp
    moreover have "kind = ''checkbox'' \<longrightarrow> oget v k \<in> {Bool True, Bool False}"
      using assms that unfolding proxy_value_ok_def list_all_iff by blast
    moreover have "w = ''port'' \<longrightarrow> kind = ''spinnerfield'' \<and> k = ''port''" using that by (auto simp: proxy_widgets_def)
    moreover obtain n where "oget v ''port'' = Num n" using assms by (auto simp: proxy_value_ok_def)
    ultimately show ?thesis
      by (auto simp: px_value_of_def widget_value_def check_value_bool to_num_def)
  qed
  then have "px_get_value ((px_on_type_select t u)\<lparr> px_setting := False \<rparr>) = List.map (\<lambda>(w, k, kind). (k, oget v k)) proxy_widgets"
    unfolding px_get_value_def by (intro map_cong) (auto simp: w)
  then show ?thesis
    unfolding set Let_def fst_conv snd_conv using t(1,2)
    by (auto simp: px_on_type_select_def Let_def lookup_put)
qed

text \<open>Settings with a type that is not in the list, or none, leave the field waiting: the exception
  comes before the flag is reset, and from then on no change the user makes is reported.\<close>

theorem unknown_proxy_type_mutes:
  assumes "find_type (oget v ''type'') = None"
  shows "px_trace (each_do (\<lambda>(n, w). px_edit n w) edits (fst (px_set_value v s))) = px_trace s"
proof -
  have "px_setting (each_do (\<lambda>(n, w). px_edit n w) edits u) \<and> px_trace (each_do (\<lambda>(n, w). px_edit n w) edits u) = px_trace u"
    if "px_setting u" for u
    using that by (induction edits arbitrary: u) (auto simp: px_edit_def px_on_field_change_def)
  then show ?thesis using assms by (simp add: px_set_value_def Let_def)
qed

text \<open>When a plugin takes its column back, the grid loses that column and its field only, but of the
  keys it asks the daemon for, exactly those of the plugin are kept: the torrents are updated with the
  value of a column that is gone, and with nothing else.\<close>

theorem deregister_keeps_only_own_key:
  assumes "key \<notin> set (gm_keys s)" and "\<forall>f \<in> set (gm_fields s). \<not> loose_eq (oget f ''name'') (Str key)"
    and "\<forall>c \<in> set (gm_columns s). \<not> loose_eq (oget c ''dataIndex'') (Str key)"
  shows "deregister_status key (register_status key header cc sc s) = s\<lparr> gm_keys := [key] \<rparr>"
proof -
  have "loose_eq (Str key) (Str key)" by (simp add: loose_eq_def)
  moreover have "oget (put k v ob) k = v" for k v and ob :: "jsval obj" by (simp add: oget_def lookup_put)
  moreover have "List.filter (\<lambda>k. k = key) (gm_keys s) = []" using assms(1) by (auto simp: filter_empty_conv)
  ultimately show ?thesis
    using assms(2,3) by (simp add: deregister_status_def register_status_def filter_id_conv)
qed

section \<open>Sample runs\<close>

definition sample_proxy :: "jsval obj" where
  "sample_proxy = [(''type'', JInt 5), (''hostname'', Str ''h''), (''port'', JInt 8080), (''username'', Str ''u''),
     (''password'', Str ''p''), (''proxy_hostnames'', Bool True), (''proxy_peer_connections'', Bool False),
     (''proxy_tracker_connections'', Bool True), (''force_proxy'', Bool False), (''anonymous_mode'', Bool False)]"

lemma proxy_round_trip_witness: "px_get_value (fst (px_set_value sample_proxy px_new)) = sample_proxy"
proof -
  have "proxy_value_ok sample_proxy 5" by (simp add: proxy_value_ok_def sample_proxy_def proxy_widgets_def oget_def)
  from proxy_round_trip[OF this, of px_new] show ?thesis
    by (simp add: Let_def proxy_widgets_def sample_proxy_def oget_def)
qed

lemma unknown_proxy_type_mutes_witness:
  "px_trace (px_edit ''hostname'' (Str ''h'') (fst (px_set_value [(''type'', JInt 7)] px_new))) = []"
proof -
  have "oget [(''type'', JInt 7)] ''type'' = JInt 7" by (simp add: oget_def)
  moreover have "find_type (JInt 7) = None" by code_simp
  ultimately show ?thesis
    using unknown_proxy_type_mutes[of "[(''type'', JInt 7)]" "[(''hostname'', Str ''h'')]" px_new] by (simp add: px_new_def)
qed

lemma password_change_sent_witness:
  "drop 0 (ip_trace (ip_on_apply ((ip_init [])\<lparr> ip_old := ''a'', ip_new := ''b'', ip_confirm := ''b'', ip_om := om_new [] \<rparr>)))
    = [ReqChangePassword ''a'' ''b'']"
  using password_change_sent[of "(ip_init [])\<lparr> ip_old := ''a'', ip_new := ''b'', ip_confirm := ''b'', ip_om := om_new [] \<rparr>"]
  by (simp add: om_new_def ip_init_def)

lemma apply_replaces_base_witness:
  "oget (ip_config (ip_on_apply ((ip_init [(''base'', Str ''/deluge/'')])\<lparr>
     ip_om := (om_new [(''base'', Str ''/'')])\<lparr> om_changed := [(''port'', JInt 8113)] \<rparr> \<rparr>))) ''base'' = Str ''/''"
  by (subst apply_replaces_base) (simp_all add: om_new_def ip_init_def has_key_def om_is_dirty_def oget_def)

lemma deregister_keeps_only_own_key_witness:
  "gm_keys (deregister_status ''label'' (register_status ''label'' ''Label'' [] [] \<lparr> gm_fields = [], gm_columns = [], gm_keys = keys_grid \<rparr>)) = [''label'']"
  by (subst deregister_keeps_only_own_key) (simp_all add: keys_grid_def)

end
