(* ===== verification/Scheduler.thy ===== *)
theory Scheduler
  imports JSValue
begin

text \<open>
  The Scheduler plugin (plugins/Scheduler, scheduler.js): a table of seven days with 24
  cells each, painted by dragging a brush over the cells of a day. A cell has the value
  it shows and the value it falls back to; mouse events are the operations. Values of
  brushes are the strings of radio buttons, those of the configuration numbers.
\<close>

section \<open>State\<close>

record sched_state =
  ss_name :: string
  ss_background :: string
  ss_border :: string
  ss_value :: jsval

definition sched_states :: "sched_state list" where
  "sched_states =
    [\<lparr> ss_name = ''Normal'', ss_background = ''LightGreen'', ss_border = ''DarkGreen'', ss_value = JInt 0 \<rparr>,
     \<lparr> ss_name = ''Throttled'', ss_background = ''Yellow'', ss_border = ''Gold'', ss_value = JInt 1 \<rparr>,
     \<lparr> ss_name = ''Paused'', ss_background = ''OrangeRed'', ss_border = ''FireBrick'', ss_value = JInt 2 \<rparr>]"

definition days_of_week :: "string list" where
  "days_of_week = [''Mon'', ''Tue'', ''Wed'', ''Thu'', ''Fri'', ''Sat'', ''Sun'']"

record sched_cell =
  sc_current :: jsval
  sc_old :: jsval
  sc_color :: "string option"

record tooltip =
  tt_text :: string
  tt_day :: string
  tt_hour :: int
  tt_visible :: bool

text \<open>\<open>sd_brush\<close> is the value of the radio button that is checked.\<close>

record sched =
  sd_cells :: "(string \<times> sched_cell list) list"
  sd_anchor :: "(string \<times> int) option"
  sd_brush :: jsval
  sd_left :: "tooltip option"
  sd_right :: "tooltip option"

definition update_cell :: "sched_cell \<Rightarrow> sched_cell" where
  "update_cell c = (if nullish (sc_current c) then c
     else (case List.find (\<lambda>s. loose_eq (ss_value s) (sc_current c)) sched_states of
       None \<Rightarrow> c | Some s \<Rightarrow> c\<lparr> sc_color := Some (ss_background s) \<rparr>))"

definition new_cell :: sched_cell where
  "new_cell = (let v = ss_value (hd sched_states) in update_cell \<lparr> sc_current = v, sc_old = v, sc_color = None \<rparr>)"

definition sd_new :: sched where
  "sd_new = \<lparr> sd_cells = List.map (\<lambda>d. (d, replicate 24 new_cell)) days_of_week, sd_anchor = None,
     sd_brush = Str (to_str (ss_value (sched_states ! 1))), sd_left = None, sd_right = None \<rparr>"

section \<open>Ranges of cells\<close>

text \<open>The loop over the hours from one to another of a day; the hours of cells are below 24.\<close>

definition map_hours :: "(sched_cell \<Rightarrow> sched_cell) \<Rightarrow> int \<Rightarrow> int \<Rightarrow> sched_cell list \<Rightarrow> sched_cell list" where
  "map_hours f a b cs = List.map (\<lambda>(k, c). if a \<le> int k \<and> int k \<le> b then f c else c) (enumerate 0 cs)"

definition on_day :: "(sched_cell list \<Rightarrow> sched_cell list) \<Rightarrow> string \<Rightarrow> sched \<Rightarrow> sched" where
  "on_day f day s = s\<lparr> sd_cells := List.map (\<lambda>(d, cs). (d, if d = day then f cs else cs)) (sd_cells s) \<rparr>"

definition preview_cell :: "jsval \<Rightarrow> sched_cell \<Rightarrow> sched_cell" where
  "preview_cell v c = (if loose_eq (sc_current c) v then c
     else update_cell (c\<lparr> sc_old := sc_current c, sc_current := v \<rparr>))"

definition revert_cell :: "sched_cell \<Rightarrow> sched_cell" where
  "revert_cell c = update_cell (c\<lparr> sc_current := sc_old c \<rparr>)"

definition confirm_cell :: "sched_cell \<Rightarrow> sched_cell" where
  "confirm_cell c = (if loose_eq (sc_current c) (sc_old c) then c else c\<lparr> sc_old := sc_current c \<rparr>)"

definition preview_cells :: "string \<Rightarrow> int \<Rightarrow> int \<Rightarrow> sched \<Rightarrow> sched" where
  "preview_cells day a b s = on_day (map_hours (preview_cell (sd_brush s)) a b) day s"

definition revert_cells :: "string \<Rightarrow> int \<Rightarrow> int \<Rightarrow> sched \<Rightarrow> sched" where
  "revert_cells day a b s = on_day (map_hours revert_cell a b) day s"

definition confirm_cells :: "string \<Rightarrow> int \<Rightarrow> int \<Rightarrow> sched \<Rightarrow> sched" where
  "confirm_cells day a b s = on_day (map_hours confirm_cell a b) day s"

section \<open>Tooltips\<close>

definition hour_text :: "int \<Rightarrow> string" where
  "hour_text h = (let pm = (12 \<le> h); h12 = (if 12 \<le> h then (if 12 < h then h - 12 else h) else if h = 0 then 12 else h)
     in int_str h12 @ '' '' @ (if pm then ''pm'' else ''am''))"

definition tooltip_hidden :: "tooltip option \<Rightarrow> bool" where
  "tooltip_hidden t = (case t of None \<Rightarrow> True | Some x \<Rightarrow> \<not> tt_visible x)"

definition show_tooltip :: "string \<Rightarrow> string \<times> int \<Rightarrow> tooltip option" where
  "show_tooltip text c = (case c of (d, h) \<Rightarrow> Some \<lparr> tt_text = text, tt_day = d, tt_hour = h, tt_visible = True \<rparr>)"

definition hide_tooltip :: "tooltip option \<Rightarrow> tooltip option" where
  "hide_tooltip t = map_option (\<lambda>x. x\<lparr> tt_visible := False \<rparr>) t"

text \<open>The cell the left tooltip moves to, and the right one with whether it is hidden.\<close>

definition left_tooltip_cell :: "string \<Rightarrow> int \<Rightarrow> sched \<Rightarrow> (string \<times> int) option" where
  "left_tooltip_cell day h s = (case sd_anchor s of None \<Rightarrow> Some (day, h)
     | Some (d, a) \<Rightarrow> if tooltip_hidden (sd_left s) \<or> h < a then Some (d, a) else None)"

definition over_left :: "string \<Rightarrow> int \<Rightarrow> sched \<Rightarrow> sched" where
  "over_left day h s = (case left_tooltip_cell day h s of None \<Rightarrow> s
     | Some c \<Rightarrow> s\<lparr> sd_left := show_tooltip (hour_text (snd c)) c \<rparr>)"

definition over_right :: "string \<Rightarrow> int \<Rightarrow> sched \<Rightarrow> sched" where
  "over_right day h s = (case sd_anchor s of None \<Rightarrow> s
     | Some (d, a) \<Rightarrow>
       if a = h then s\<lparr> sd_right := hide_tooltip (sd_right s) \<rparr>
       else let c = (if h < a \<and> tooltip_hidden (sd_right s) then (d, a) else (day, h))
         in s\<lparr> sd_right := show_tooltip (hour_text (snd c)) c \<rparr>)"

section \<open>Mouse events\<close>

definition sd_on_click :: "string \<Rightarrow> int \<Rightarrow> sched \<Rightarrow> sched" where
  "sd_on_click day h s = (on_day (map_hours (\<lambda>c. c\<lparr> sc_old := sc_current c \<rparr>) h h) day s)\<lparr> sd_anchor := None \<rparr>"

definition sd_on_mouse_down :: "string \<Rightarrow> int \<Rightarrow> sched \<Rightarrow> sched" where
  "sd_on_mouse_down day h s = s\<lparr> sd_anchor := Some (day, h) \<rparr>"

definition sd_on_mouse_up :: "string \<Rightarrow> int \<Rightarrow> sched \<Rightarrow> sched" where
  "sd_on_mouse_up day h s = (case sd_anchor s of None \<Rightarrow> s
     | Some (d, a) \<Rightarrow>
       let s = (if a < h then confirm_cells day a h s else if h < a then confirm_cells day h a s else confirm_cells day h h s)
       in s\<lparr> sd_left := hide_tooltip (sd_left s), sd_right := hide_tooltip (sd_right s), sd_anchor := None \<rparr>)"

definition sd_on_mouse_over :: "string \<Rightarrow> int \<Rightarrow> sched \<Rightarrow> sched" where
  "sd_on_mouse_over day h s0 = (let s = over_right day h (over_left day h s0) in
     (case sd_anchor s of None \<Rightarrow> preview_cells day h h s
      | Some (d, a) \<Rightarrow>
        if day \<noteq> d then
          (each_do (\<lambda>x. revert_cells x 0 23) days_of_week s)\<lparr> sd_anchor := None,
             sd_left := hide_tooltip (sd_left s), sd_right := hide_tooltip (sd_right s) \<rparr>
        else if a < h then preview_cells day a h (revert_cells day (h + 1) 23 s)
        else if h < a then preview_cells day h a (revert_cells day 0 (h - 1) s)
        else revert_cells day 0 (h - 1) (revert_cells day (h + 1) 23 s)))"

definition cell_at :: "string \<Rightarrow> int \<Rightarrow> sched \<Rightarrow> sched_cell option" where
  "cell_at day h s = (case map_of (sd_cells s) day of None \<Rightarrow> None
     | Some cs \<Rightarrow> if 0 \<le> h \<and> nat h < length cs then Some (cs ! nat h) else None)"

definition sd_on_mouse_out :: "string \<Rightarrow> int \<Rightarrow> sched \<Rightarrow> sched" where
  "sd_on_mouse_out day h s = (let s = (if sd_anchor s = None then s\<lparr> sd_left := hide_tooltip (sd_left s) \<rparr> else s) in
     (case cell_at day h s of None \<Rightarrow> s
      | Some c \<Rightarrow> if sd_anchor s = None \<and> \<not> loose_eq (sc_old c) (sc_current c) then revert_cells day h h s else s))"

section \<open>Configuration\<close>

text \<open>\<open>parseInt\<close>: the digits at the start, after white space and a sign, in base 16 after 0x.\<close>

definition parse_int :: "jsval \<Rightarrow> jsnum" where
  "parse_int v =
     (let t = dropWhile is_space (to_str v);
          neg = (take 1 t = ''-'');
          t = (if take 1 t = ''-'' \<or> take 1 t = ''+'' then drop 1 t else t);
          hex = (lower (take 2 t) = ''0x'');
          ds = (if hex then takeWhile (\<lambda>c. hex_val c \<noteq> None) (drop 2 t) else takeWhile is_digit t)
      in if ds = [] then NaN
         else (case radix_val (if hex then 16 else 10) 0 ds of None \<Rightarrow> NaN
           | Some n \<Rightarrow> num_of_int (if neg then - n else n)))"

definition sd_get_config :: "sched \<Rightarrow> jsnum list list" where
  "sd_get_config s = List.map (\<lambda>i. List.map (\<lambda>day.
     (case cell_at day i s of None \<Rightarrow> NaN | Some c \<Rightarrow> parse_int (sc_current c))) days_of_week) (upto 0 23)"

definition set_cell :: "jsval \<Rightarrow> sched_cell \<Rightarrow> sched_cell" where
  "set_cell v c = update_cell (c\<lparr> sc_current := v, sc_old := v \<rparr>)"

text \<open>Row \<open>i\<close> of the table; an entry that is missing is undefined.\<close>

definition set_hour :: "jsval list \<Rightarrow> nat \<Rightarrow> sched \<Rightarrow> sched" where
  "set_hour row i s = each_do (\<lambda>j. on_day (map_hours (set_cell (if j < length row then row ! j else Undef)) (int i) (int i))
     (days_of_week ! j)) [0..<length days_of_week] s"

text \<open>A row that is missing ends the loop with a TypeError, flagged by \<open>False\<close>.\<close>

fun set_hours :: "jsval list list \<Rightarrow> nat list \<Rightarrow> sched \<Rightarrow> sched \<times> bool" where
  "set_hours config [] s = (s, True)"
| "set_hours config (i # is) s =
     (if i < length config then set_hours config is (set_hour (config ! i) i s) else (s, False))"

definition sd_set_config :: "jsval list list \<Rightarrow> sched \<Rightarrow> sched \<times> bool" where
  "sd_set_config config s = set_hours config [0..<24] s"

section \<open>The page\<close>

datatype sched_effect = ReqSetSchedule "jsnum list list" "jsval obj" | ReqGetSchedule

text \<open>
  The cells exist from the first rendering on. The five limits are number fields from -1 to
  99999 without decimals, which give back a number in that range.
\<close>

record sched_page =
  sp_sched :: "sched option"
  sp_limits :: "jsval obj"
  sp_trace :: "sched_effect list"

text \<open>The fields with the keys of the configuration they stand for.\<close>

definition sched_limits :: "(string \<times> string \<times> string) list" where
  "sched_limits =
    [(''low_down'', ''download_limit'', ''Maximum Download Speed (KiB/s)''),
     (''low_up'', ''upload_limit'', ''Maximum Upload Speed (KiB/s)''),
     (''low_active'', ''active_torrents'', ''Active Torrents''),
     (''low_active_down'', ''active_downloading'', ''Active Downloading''),
     (''low_active_up'', ''active_seeding'', ''Active Seeding'')]"

definition sp_new :: sched_page where
  "sp_new = \<lparr> sp_sched = None, sp_limits = List.map (\<lambda>(k, n, l). (n, JInt (-1))) sched_limits, sp_trace = [] \<rparr>"

definition sp_render :: "sched_page \<Rightarrow> sched_page" where
  "sp_render p = p\<lparr> sp_sched := Some sd_new \<rparr>"

definition sp_on_apply :: "sched_page \<Rightarrow> sched_page" where
  "sp_on_apply p = (case sp_sched p of None \<Rightarrow> p
     | Some s \<Rightarrow> p\<lparr> sp_trace := sp_trace p @ [ReqSetSchedule (sd_get_config s)
         (List.map (\<lambda>(k, n, l). (k, oget (sp_limits p) n)) sched_limits)] \<rparr>)"

definition sp_on_ok :: "sched_page \<Rightarrow> sched_page" where
  "sp_on_ok p = sp_on_apply p"

definition sp_update_config :: "sched_page \<Rightarrow> sched_page" where
  "sp_update_config p = p\<lparr> sp_trace := sp_trace p @ [ReqGetSchedule] \<rparr>"

definition sp_set_limits :: "jsval obj \<Rightarrow> sched_page \<Rightarrow> sched_page" where
  "sp_set_limits config p =
     p\<lparr> sp_limits := each_do (\<lambda>(k, n, l). put n (oget config k)) sched_limits (sp_limits p) \<rparr>"

definition sp_on_got_config :: "jsval list list \<Rightarrow> jsval obj \<Rightarrow> sched_page \<Rightarrow> sched_page" where
  "sp_on_got_config buttons config p = (case sp_sched p of None \<Rightarrow> sp_set_limits config p
     | Some s \<Rightarrow> (case sd_set_config buttons s of (t, fine) \<Rightarrow>
         let q = p\<lparr> sp_sched := Some t \<rparr> in if fine then sp_set_limits config q else q))"

section \<open>Mouse events as steps\<close>

datatype mouse = Over string int | Out string int | Down string int | Up string int | Click string int

fun mouse_step :: "mouse \<Rightarrow> sched \<Rightarrow> sched" where
  "mouse_step (Over d h) s = sd_on_mouse_over d h s"
| "mouse_step (Out d h) s = sd_on_mouse_out d h s"
| "mouse_step (Down d h) s = sd_on_mouse_down d h s"
| "mouse_step (Up d h) s = sd_on_mouse_up d h s"
| "mouse_step (Click d h) s = sd_on_click d h s"

text \<open>The events of a drag: into the cell \<open>a\<close>, button down, along the hours of a path, button up.\<close>

fun path_events :: "string \<Rightarrow> int \<Rightarrow> int list \<Rightarrow> mouse list" where
  "path_events d g [] = [Up d g]"
| "path_events d g (h # hs) = Out d g # Over d h # path_events d h hs"

definition drag_events :: "string \<Rightarrow> int \<Rightarrow> int list \<Rightarrow> mouse list" where
  "drag_events d a hs = Over d a # Down d a # path_events d a hs"

section \<open>Cells that are in order\<close>

definition sched_values :: "jsval list" where
  "sched_values = [JInt 0, JInt 1, JInt 2, Str ''0'', Str ''1'', Str ''2'']"

definition value_color :: "jsval \<Rightarrow> string option" where
  "value_color v = map_option ss_background (List.find (\<lambda>s. loose_eq (ss_value s) v) sched_states)"

definition cell_ok :: "sched_cell \<Rightarrow> bool" where
  "cell_ok c = (sc_current c \<in> set sched_values \<and> sc_old c \<in> set sched_values \<and> sc_color c = value_color (sc_current c))"

text \<open>A cell at rest falls back to what it shows.\<close>

definition cell_rest :: "sched_cell \<Rightarrow> bool" where
  "cell_rest c = (cell_ok c \<and> sc_old c = sc_current c)"

definition sd_ok :: "sched \<Rightarrow> bool" where
  "sd_ok s = ((\<forall>(d, cs) \<in> set (sd_cells s). \<forall>c \<in> set cs. cell_ok c) \<and> sd_brush s \<in> set sched_values)"

lemma sched_value_cases:
  "v \<in> set sched_values \<longleftrightarrow> v = JInt 0 \<or> v = JInt 1 \<or> v = JInt 2 \<or> v = Str ''0'' \<or> v = Str ''1'' \<or> v = Str ''2''"
  by (auto simp: sched_values_def)

lemma sched_value_loose: "v \<in> set sched_values \<Longrightarrow> loose_eq v v"
  by (auto simp: loose_eq_refl sched_values_def)

lemma sched_values_shown: "list_all (\<lambda>v. \<not> nullish v \<and> value_color v \<noteq> None) sched_values"
  by code_simp

lemma sched_value_color: "v \<in> set sched_values \<Longrightarrow> \<not> nullish v \<and> value_color v \<noteq> None"
  using sched_values_shown by (auto simp: list_all_iff)

lemma update_cell_value:
  assumes "sc_current c \<in> set sched_values"
  shows "update_cell c = c\<lparr> sc_color := value_color (sc_current c) \<rparr>"
  using sched_value_color[OF assms] by (auto simp: update_cell_def value_color_def)

lemma cell_rest_ok: "cell_rest c \<Longrightarrow> cell_ok c"
  by (simp add: cell_rest_def)

lemma cell_ok_ops [inv_intros]:
  assumes "cell_ok c" and "v \<in> set sched_values"
  shows "cell_ok (preview_cell v c)" "cell_ok (revert_cell c)" "cell_ok (confirm_cell c)" "cell_ok (set_cell v c)"
    "cell_ok (c\<lparr> sc_old := sc_current c \<rparr>)"
  using assms
  by (auto simp: cell_ok_def preview_cell_def revert_cell_def confirm_cell_def set_cell_def update_cell_value)

text \<open>What a drag does to a cell at rest.\<close>

lemma preview_twice: "cell_rest c \<Longrightarrow> v \<in> set sched_values \<Longrightarrow> preview_cell v (preview_cell v c) = preview_cell v c"
  by (auto simp: preview_cell_def cell_rest_def cell_ok_def update_cell_value sched_value_loose)

lemma revert_rest: "cell_rest c \<Longrightarrow> revert_cell c = c"
  by (cases c) (simp add: revert_cell_def cell_rest_def cell_ok_def update_cell_value)

lemma revert_preview: "cell_rest c \<Longrightarrow> v \<in> set sched_values \<Longrightarrow> revert_cell (preview_cell v c) = c"
  by (cases c) (auto simp: revert_cell_def preview_cell_def cell_rest_def cell_ok_def update_cell_value)

text \<open>A cell painted with the brush: cells that already have its value keep theirs.\<close>

definition paint_cell :: "jsval \<Rightarrow> sched_cell \<Rightarrow> sched_cell" where
  "paint_cell v c = (if loose_eq (sc_current c) v then c else set_cell v c)"

lemma confirm_preview:
  assumes "cell_rest c" and "v \<in> set sched_values"
  shows "confirm_cell (preview_cell v c) = paint_cell v c"
  using assms loose_eq_sym[of "sc_current c" v]
  by (cases c) (auto simp: confirm_cell_def preview_cell_def paint_cell_def set_cell_def cell_rest_def cell_ok_def
      update_cell_value)

section \<open>Rows of cells\<close>

lemma length_map_hours [simp]: "length (map_hours f a b cs) = length cs"
  by (simp add: map_hours_def)

lemma nth_map_hours [simp]:
  "k < length cs \<Longrightarrow> map_hours f a b cs ! k = (if a \<le> int k \<and> int k \<le> b then f (cs ! k) else cs ! k)"
  by (simp add: map_hours_def nth_enumerate_eq)

lemma in_map_hours: "x \<in> set (map_hours f a b cs) \<Longrightarrow> x \<in> set cs \<or> (\<exists>c \<in> set cs. x = f c)"
  by (fastforce simp: in_set_conv_nth)

lemma on_day_on_day: "on_day f d (on_day g d s) = on_day (f \<circ> g) d s"
  by (simp add: on_day_def comp_def case_prod_unfold)

lemma sd_cells_on_day:
  "sd_cells (on_day f d s) = List.map (\<lambda>(e, cs). (e, if e = d then f cs else cs)) (sd_cells s)"
  by (simp add: on_day_def)

lemma on_day_fields [simp]:
  "sd_anchor (on_day f d s) = sd_anchor s" "sd_brush (on_day f d s) = sd_brush s"
  "sd_left (on_day f d s) = sd_left s" "sd_right (on_day f d s) = sd_right s"
  by (simp_all add: on_day_def)

lemma over_tips_fields [simp]:
  "sd_anchor (over_left d h s) = sd_anchor s" "sd_brush (over_left d h s) = sd_brush s" "sd_cells (over_left d h s) = sd_cells s"
  "sd_anchor (over_right d h s) = sd_anchor s" "sd_brush (over_right d h s) = sd_brush s" "sd_cells (over_right d h s) = sd_cells s"
  by (auto simp: over_left_def over_right_def Let_def split: option.splits)

text \<open>The row of a day while the brush is dragged from hour \<open>a\<close> and is at hour \<open>h\<close>.\<close>

definition drag_row :: "jsval \<Rightarrow> int \<Rightarrow> int \<Rightarrow> sched_cell list \<Rightarrow> sched_cell list" where
  "drag_row v a h cs = map_hours (preview_cell v) (min a h) (max a h) cs"

definition row_over :: "jsval \<Rightarrow> int \<Rightarrow> int \<Rightarrow> sched_cell list \<Rightarrow> sched_cell list" where
  "row_over v a h cs =
     (if a < h then map_hours (preview_cell v) a h (map_hours revert_cell (h + 1) 23 cs)
      else if h < a then map_hours (preview_cell v) h a (map_hours revert_cell 0 (h - 1) cs)
      else map_hours revert_cell 0 (h - 1) (map_hours revert_cell (h + 1) 23 cs))"

definition skips :: "int \<Rightarrow> int \<Rightarrow> int \<Rightarrow> bool" where
  "skips a g h = (g < a \<and> a < h \<or> h < a \<and> a < g)"

lemma row_over_drag:
  assumes "\<forall>c \<in> set cs. cell_rest c" and "v \<in> set sched_values" and "length cs = 24"
    and "\<not> skips a g h" and "0 \<le> a" "a < 24" "0 \<le> h" "h < 24" "0 \<le> g" "g < 24"
  shows "row_over v a h (drag_row v a g cs) = drag_row v a h cs"
proof (rule nth_equalityI)
  show "length (row_over v a h (drag_row v a g cs)) = length (drag_row v a h cs)"
    by (simp add: row_over_def drag_row_def)
next
  fix k assume "k < length (row_over v a h (drag_row v a g cs))"
  then have k: "k < length cs" by (simp add: row_over_def drag_row_def split: if_splits)
  then have r: "cell_rest (cs ! k)" and k24: "int k \<le> 23" using assms(1,3) by auto
  show "row_over v a h (drag_row v a g cs) ! k = drag_row v a h cs ! k"
    using assms(2-) k k24 r
    by (auto simp: row_over_def drag_row_def skips_def preview_twice revert_rest revert_preview)
qed

lemma row_confirm_drag:
  assumes "\<forall>c \<in> set cs. cell_rest c" and "v \<in> set sched_values"
  shows "map_hours confirm_cell (min a h) (max a h) (drag_row v a h cs)
    = map_hours (paint_cell v) (min a h) (max a h) cs"
  by (rule nth_equalityI) (use assms in \<open>auto simp: drag_row_def confirm_preview\<close>)

section \<open>A drag\<close>

lemma sd_cells_comp:
  "sd_cells t = sd_cells (on_day g d s) \<Longrightarrow> sd_cells (on_day f d t) = sd_cells (on_day (f \<circ> g) d s)"
  by (auto simp: sd_cells_on_day)

lemma on_day_cong:
  "(\<And>cs. (d, cs) \<in> set (sd_cells s) \<Longrightarrow> f cs = g cs) \<Longrightarrow> sd_cells (on_day f d s) = sd_cells (on_day g d s)"
  by (auto simp: sd_cells_on_day)

lemma over_dragging:
  assumes "sd_anchor s = Some (d, a)"
  shows "sd_cells (sd_on_mouse_over d h s) = sd_cells (on_day (row_over (sd_brush s) a h) d s)"
    and "sd_anchor (sd_on_mouse_over d h s) = Some (d, a)" "sd_brush (sd_on_mouse_over d h s) = sd_brush s"
  using assms
  by (auto simp: sd_on_mouse_over_def preview_cells_def revert_cells_def on_day_on_day row_over_def comp_def sd_cells_on_day Let_def)

lemma out_dragging: "sd_anchor s = Some (d, a) \<Longrightarrow> sd_on_mouse_out e h s = s"
  by (simp add: sd_on_mouse_out_def split: option.splits)

lemma up_dragging:
  assumes "sd_anchor s = Some (d, a)"
  shows "sd_cells (sd_on_mouse_up d h s) = sd_cells (on_day (map_hours confirm_cell (min a h) (max a h)) d s)"
    and "sd_anchor (sd_on_mouse_up d h s) = None"
  using assms by (auto simp: sd_on_mouse_up_def confirm_cells_def sd_cells_on_day)

text \<open>Twenty-four cells at rest for every day, nothing being dragged.\<close>

definition at_rest :: "sched \<Rightarrow> bool" where
  "at_rest s = (sd_anchor s = None \<and> sd_brush s \<in> set sched_values
     \<and> (\<forall>(d, cs) \<in> set (sd_cells s). length cs = 24 \<and> (\<forall>c \<in> set cs. cell_rest c)))"

definition dragging :: "string \<Rightarrow> int \<Rightarrow> int \<Rightarrow> sched \<Rightarrow> sched \<Rightarrow> bool" where
  "dragging d a g s t = (sd_anchor t = Some (d, a) \<and> sd_brush t = sd_brush s
     \<and> sd_cells t = sd_cells (on_day (drag_row (sd_brush s) a g) d s))"

lemma dragging_step:
  assumes "at_rest s" and "dragging d a g s t" and "\<not> skips a g h"
    and "0 \<le> a" "a < 24" "0 \<le> h" "h < 24" "0 \<le> g" "g < 24"
  shows "dragging d a h s (mouse_step (Over d h) (mouse_step (Out d g) t))"
proof -
  have t: "sd_anchor t = Some (d, a)" "sd_brush t = sd_brush s" "sd_cells t = sd_cells (on_day (drag_row (sd_brush s) a g) d s)"
    using assms(2) by (auto simp: dragging_def)
  have "sd_cells (on_day (row_over (sd_brush s) a h \<circ> drag_row (sd_brush s) a g) d s) = sd_cells (on_day (drag_row (sd_brush s) a h) d s)"
    by (rule on_day_cong) (use assms in \<open>auto simp: at_rest_def intro!: row_over_drag\<close>)
  then show ?thesis
    using over_dragging[OF t(1), of h] t(2) sd_cells_comp[OF t(3)] by (simp add: dragging_def out_dragging[OF t(1)])
qed

text \<open>No step of the path jumps over the cell the drag began at.\<close>

fun no_skip :: "int \<Rightarrow> int \<Rightarrow> int list \<Rightarrow> bool" where
  "no_skip a g [] = True"
| "no_skip a g (h # hs) = (\<not> skips a g h \<and> 0 \<le> h \<and> h < 24 \<and> no_skip a h hs)"

lemma path_paints:
  assumes "at_rest s" and "dragging d a g s t" and "no_skip a g hs" and "0 \<le> a" "a < 24" "0 \<le> g" "g < 24"
  shows "sd_cells (each_do mouse_step (path_events d g hs) t)
      = sd_cells (on_day (map_hours (paint_cell (sd_brush s)) (min a (last (g # hs))) (max a (last (g # hs)))) d s)
    \<and> sd_anchor (each_do mouse_step (path_events d g hs) t) = None"
  using assms
proof (induction hs arbitrary: g t)
  case Nil
  have t: "sd_anchor t = Some (d, a)" "sd_cells t = sd_cells (on_day (drag_row (sd_brush s) a g) d s)"
    using Nil(2) by (auto simp: dragging_def)
  have "sd_cells (on_day (map_hours confirm_cell (min a g) (max a g) \<circ> drag_row (sd_brush s) a g) d s)
      = sd_cells (on_day (map_hours (paint_cell (sd_brush s)) (min a g) (max a g)) d s)"
    by (rule on_day_cong) (use Nil in \<open>auto simp: at_rest_def row_confirm_drag\<close>)
  then show ?case using up_dragging[OF t(1), of g] sd_cells_comp[OF t(2)] by simp
next
  case (Cons h hs)
  have "dragging d a h s (mouse_step (Over d h) (mouse_step (Out d g) t))"
    by (rule dragging_step) (use Cons.prems in auto)
  from Cons.IH[OF Cons.prems(1) this] show ?case using Cons.prems by simp
qed

lemma drag_begins:
  assumes "at_rest s" and "0 \<le> a" "a < 24"
  shows "dragging d a a s (mouse_step (Down d a) (mouse_step (Over d a) s))"
  using assms
  by (auto simp: dragging_def at_rest_def sd_on_mouse_over_def sd_on_mouse_down_def preview_cells_def drag_row_def sd_cells_on_day Let_def)

text \<open>C24: A drag over cells at rest, from hour a along a path that does not jump over a, paints
  exactly the hours between a and the hour where the button is let go with the brush; every
  other cell and every other day is as before, and nothing is being dragged any more.
\<close>

theorem drag_paints_range:
  assumes "at_rest s" and "no_skip a a hs" and "0 \<le> a" "a < 24"
  shows "sd_cells (each_do mouse_step (drag_events d a hs) s)
      = List.map (\<lambda>(e, cs). (e, if e = d
          then map_hours (paint_cell (sd_brush s)) (min a (last (a # hs))) (max a (last (a # hs))) cs else cs)) (sd_cells s)
    \<and> sd_anchor (each_do mouse_step (drag_events d a hs) s) = None"
  using path_paints[OF assms(1) drag_begins[OF assms(1,3,4)] assms(2) assms(3,4) assms(3,4)]
  unfolding drag_events_def each_do.simps sd_cells_on_day .

lemma new_cell_rest: "cell_rest new_cell"
  by code_simp

lemma at_rest_new: "at_rest sd_new"
proof -
  have "sd_brush sd_new \<in> set sched_values" by code_simp
  then show ?thesis by (auto simp: at_rest_def sd_new_def new_cell_rest)
qed

theorem drag_paints_range_witness:
  "sd_cells (each_do mouse_step (drag_events ''Tue'' 5 [6, 7, 6]) sd_new)
    = List.map (\<lambda>(e, cs). (e, if e = ''Tue'' then map_hours (paint_cell (Str ''1'')) 5 6 cs else cs)) (sd_cells sd_new)"
proof -
  have v: "sd_brush sd_new = Str ''1''" by code_simp
  have "last [5, 6, 7, 6] = (6::int)" "min 5 6 = (5::int)" "max 5 6 = (6::int)" by simp_all
  moreover have "no_skip 5 5 [6, 7, 6]" by (simp add: skips_def)
  ultimately show ?thesis
    using drag_paints_range[OF at_rest_new, of 5 "[6, 7, 6]" "''Tue''"] unfolding v by (simp only:)
qed

text \<open>A pointer that jumps over the cell at which the drag began (the browser reports no cell
  between two positions of a fast pointer) leaves cells painted on the side it came from:
  they are not confirmed when the button is let go, and the configuration sent has them.
\<close>

theorem skipped_anchor_paints_more:
  "let t = each_do mouse_step (drag_events ''Mon'' 5 [4, 6]) sd_new in
    (map_option sc_current (cell_at ''Mon'' 4 t), map_option sc_old (cell_at ''Mon'' 4 t)) = (Some (Str ''1''), Some (JInt 0))
    \<and> sd_get_config t ! 4 ! 0 = Fin 1"
  by code_simp

section \<open>Every event\<close>

lemma on_day_ok:
  assumes "sd_ok s" and "\<And>c. cell_ok c \<Longrightarrow> cell_ok (f c)"
  shows "sd_ok (on_day (map_hours f a b) d s)"
  using assms by (fastforce simp: sd_ok_def sd_cells_on_day dest: in_map_hours split: if_splits)

lemma range_ok:
  assumes "sd_ok s"
  shows "sd_ok (preview_cells d a b s)" "sd_ok (revert_cells d a b s)" "sd_ok (confirm_cells d a b s)"
proof -
  have v: "sd_brush s \<in> set sched_values" using assms by (simp add: sd_ok_def)
  show "sd_ok (preview_cells d a b s)" "sd_ok (revert_cells d a b s)" "sd_ok (confirm_cells d a b s)"
    unfolding preview_cells_def revert_cells_def confirm_cells_def
    by (rule on_day_ok[OF assms], erule cell_ok_ops[OF _ v])+
qed

lemma sd_ok_more [simp]:
  "sd_ok (s\<lparr> sd_anchor := x \<rparr>) = sd_ok s" "sd_ok (s\<lparr> sd_left := y \<rparr>) = sd_ok s" "sd_ok (s\<lparr> sd_right := y \<rparr>) = sd_ok s"
  "sd_ok (over_left d h s) = sd_ok s" "sd_ok (over_right d h s) = sd_ok s"
  by (simp_all add: sd_ok_def)

lemma sd_ok_over: "sd_ok s \<Longrightarrow> sd_ok (sd_on_mouse_over d h s)"
  by (auto simp: sd_on_mouse_over_def Let_def split: option.splits prod.splits intro!: range_ok each_do_invariant[where P = sd_ok])

lemma sd_ok_step: "sd_ok s \<Longrightarrow> sd_ok (mouse_step m s)"
proof (cases m)
  case (Over d h) then show "sd_ok s \<Longrightarrow> ?thesis" by (simp add: sd_ok_over)
next
  case (Out d h) then show "sd_ok s \<Longrightarrow> ?thesis"
    by (auto simp: sd_on_mouse_out_def Let_def split: option.splits intro!: range_ok)
next
  case (Up d h) then show "sd_ok s \<Longrightarrow> ?thesis"
    by (auto simp: sd_on_mouse_up_def Let_def split: option.splits intro!: range_ok)
next
  case (Click d h)
  assume s: "sd_ok s"
  have "sd_brush s \<in> set sched_values" using s by (simp add: sd_ok_def)
  from on_day_ok[OF s cell_ok_ops(5)[OF _ this], of "\<lambda>c. c" h h d] Click show ?thesis by (simp add: sd_on_click_def)
qed (simp add: sd_on_mouse_down_def)

text \<open>C25: Whatever the order of mouse events, every cell shows and falls back to one of the three
  states, and its colour is that of the state it shows.
\<close>

theorem sched_cells_typed:
  assumes "sd_ok s"
  shows "sd_ok (each_do mouse_step ms s)"
  by (rule each_do_invariant[where P = sd_ok]) (use assms in \<open>auto intro: sd_ok_step\<close>)

lemma at_rest_sd_ok: "at_rest s \<Longrightarrow> sd_ok s"
  by (auto simp: at_rest_def sd_ok_def cell_rest_ok)

theorem sched_cells_typed_witness:
  "sd_ok (each_do mouse_step [Over ''Mon'' 3, Down ''Mon'' 3, Over ''Tue'' 4, Click ''Tue'' 4] sd_new)"
  by (rule sched_cells_typed) (rule at_rest_sd_ok[OF at_rest_new])

section \<open>Leaving the day\<close>

lemma revert_days:
  "distinct ds \<Longrightarrow> sd_cells (each_do (\<lambda>x. on_day f x) ds s)
    = List.map (\<lambda>(e, cs). (e, if e \<in> set ds then f cs else cs)) (sd_cells s)"
  by (induction ds arbitrary: s) (auto simp: sd_cells_on_day)

lemma revert_row_rest:
  assumes "\<forall>c \<in> set cs. cell_rest c" and "v \<in> set sched_values" and "length cs = 24"
  shows "map_hours revert_cell 0 23 (drag_row v a g cs) = cs" "map_hours revert_cell 0 23 cs = cs"
  by (rule nth_equalityI; use assms in \<open>auto simp: drag_row_def revert_preview revert_rest\<close>)+

text \<open>Dragging into another day abandons the drag: every cell is as it was before it began.
\<close>

theorem drag_into_other_day_reverts:
  assumes "at_rest s" and "dragging d a g s t" and "e \<noteq> d" and "List.map fst (sd_cells s) = days_of_week"
  shows "sd_cells (mouse_step (Over e h) t) = sd_cells s \<and> sd_anchor (mouse_step (Over e h) t) = None"
proof -
  have t: "sd_anchor t = Some (d, a)" "sd_cells t = sd_cells (on_day (drag_row (sd_brush s) a g) d s)"
    using assms(2) by (auto simp: dragging_def)
  have dist: "distinct days_of_week" by (simp add: days_of_week_def)
  have days: "(x, cs) \<in> set (sd_cells s) \<Longrightarrow> x \<in> set days_of_week" for x cs
    using assms(4) by (metis image_eqI fst_conv list.set_map)
  have "List.map (\<lambda>(e, cs). (e, if e \<in> set days_of_week then map_hours revert_cell 0 23 cs else cs)) (sd_cells t) = sd_cells s"
    using assms(1) days
    by (auto simp: t(2) sd_cells_on_day at_rest_def revert_row_rest intro!: map_idI split: prod.splits)
  moreover have "(\<lambda>x. revert_cells x 0 23) = on_day (map_hours revert_cell 0 23)"
    by (rule ext)+ (simp add: revert_cells_def)
  ultimately show ?thesis
    using t(1) assms(3) revert_days[OF dist] by (simp add: sd_on_mouse_over_def Let_def)
qed

theorem drag_into_other_day_reverts_witness:
  "let t = mouse_step (Down ''Mon'' 3) (mouse_step (Over ''Mon'' 3) sd_new) in sd_cells (mouse_step (Over ''Tue'' 3) t) = sd_cells sd_new"
  using drag_into_other_day_reverts[OF at_rest_new drag_begins[OF at_rest_new], of 3 "''Tue''" "''Mon''" 3]
  by (simp add: sd_new_def days_of_week_def)

section \<open>Reading back the configuration\<close>

lemma map_of_on_day: "map_of (sd_cells (on_day f d s)) e = (if e = d then map_option f (map_of (sd_cells s) e) else map_of (sd_cells s) e)"
proof -
  have "map_of (List.map (\<lambda>(e, cs). (e, if e = d then f cs else cs)) xs) e
      = (if e = d then map_option f (map_of xs e) else map_of xs e)" for xs
    by (induction xs) auto
  then show ?thesis by (simp add: sd_cells_on_day)
qed

lemma cell_at_set:
  "cell_at e k (on_day (map_hours f h h) d s) = (if e = d \<and> k = h then map_option f (cell_at e k s) else cell_at e k s)"
  by (auto simp: cell_at_def map_of_on_day split: option.splits)

lemma sc_current_set_cell [simp]: "sc_current (set_cell v c) = v"
  by (auto simp: set_cell_def update_cell_def split: option.splits)

lemma nth_index_of: "index_of e xs = int n \<Longrightarrow> n < length xs \<and> e = xs ! n"
proof (induction xs arbitrary: n)
  case (Cons x xs)
  then show ?case by (cases n) (auto simp: Let_def split: if_splits)
qed simp

lemma days_distinct: "distinct days_of_week"
  by (simp add: days_of_week_def)

text \<open>One row of the table after it was set.\<close>

lemma set_hour_cells:
  assumes "n \<le> length days_of_week" and "length row = length days_of_week"
  shows "cell_at e k (each_do (\<lambda>j. on_day (map_hours (set_cell (if j < length row then row ! j else Undef)) (int i) (int i))
        (days_of_week ! j)) [0..<n] s)
    = (if k = int i \<and> index_of e days_of_week \<in> {0..<int n}
       then map_option (set_cell (row ! nat (index_of e days_of_week))) (cell_at e k s) else cell_at e k s)"
  using assms(1)
proof (induction n)
  case (Suc n)
  have i: "e = days_of_week ! n \<longleftrightarrow> index_of e days_of_week = int n"
    using Suc.prems nth_index_of[of e days_of_week n] index_of_nth[OF days_distinct, of n] by auto
  show ?case using Suc assms(2) i by (auto simp: cell_at_set)
qed simp

lemma set_hours_cells:
  assumes "\<forall>row \<in> set config. length row = length days_of_week" and "n \<le> length config"
  shows "cell_at e k (fst (set_hours config [0..<n] s))
    = (if 0 \<le> k \<and> k < int n \<and> e \<in> set days_of_week
       then map_option (set_cell (config ! nat k ! nat (index_of e days_of_week))) (cell_at e k s) else cell_at e k s)
    \<and> snd (set_hours config [0..<n] s)"
  using assms(2)
proof (induction n)
  case 0
  then show ?case by auto
next
  case (Suc n)
  have app: "set_hours config (xs @ [n]) s = (case set_hours config xs s of (t, fine) \<Rightarrow>
      if fine then set_hours config [n] t else (t, False))" for xs s
    by (induction config xs s rule: set_hours.induct) auto
  obtain t where t: "set_hours config [0..<n] s = (t, True)"
    using Suc by (cases "set_hours config [0..<n] s") auto
  have len: "length (config ! n) = length days_of_week" using assms(1) Suc.prems by simp
  have day: "e \<in> set days_of_week \<longleftrightarrow> index_of e days_of_week \<in> {0..<int (length days_of_week)}"
    using index_of_range[of e days_of_week] index_of_absent[of e days_of_week] by auto
  show ?case
    using Suc.IH Suc.prems t set_hour_cells[OF order_refl len, of e k n t]
    by (auto simp: app set_hour_def day simp del: atLeastLessThan_iff)
qed

text \<open>The numbers of states read back from the strings and numbers of cells.\<close>

lemma parse_states: "list_all (\<lambda>i. parse_int (JInt i) = num_of_int i) [0, 1, 2]"
  by code_simp

lemma days_index: "j < length days_of_week \<Longrightarrow> index_of (days_of_week ! j) days_of_week = int j"
  by (rule index_of_nth[OF days_distinct])

text \<open>A table has its days, each with 24 cells.\<close>

definition full_table :: "sched \<Rightarrow> bool" where
  "full_table s = (List.map fst (sd_cells s) = days_of_week \<and> (\<forall>(d, cs) \<in> set (sd_cells s). length cs = 24))"

lemma full_table_cell:
  assumes "full_table s" and "j < length days_of_week" and "i < 24"
  shows "\<exists>c. cell_at (days_of_week ! j) (int i) s = Some c"
proof -
  have "days_of_week ! j \<in> fst ` set (sd_cells s)"
    using assms(1,2) unfolding full_table_def by (metis list.set_map nth_mem)
  then obtain cs where m: "map_of (sd_cells s) (days_of_week ! j) = Some cs"
    by (metis map_of_eq_None_iff not_None_eq)
  then have "length cs = 24" using assms(1) map_of_SomeD[OF m] by (auto simp: full_table_def)
  then show ?thesis using assms(3) m by (simp add: cell_at_def)
qed

lemma get_after_set:
  assumes "full_table s" and "length cfg = 24" and "\<forall>row \<in> set cfg. length row = 7 \<and> set row \<subseteq> {0, 1, 2}"
  shows "sd_get_config (fst (sd_set_config (List.map (List.map JInt) cfg) s)) = List.map (List.map num_of_int) cfg
    \<and> snd (sd_set_config (List.map (List.map JInt) cfg) s)"
proof -
  let ?c = "List.map (List.map JInt) cfg"
  have days: "length days_of_week = 7" by (simp add: days_of_week_def)
  have rows: "\<forall>row \<in> set ?c. length row = length days_of_week" using assms(3) days by auto
  note set = set_hours_cells[OF rows, of 24, folded sd_set_config_def]
  have cell: "(case cell_at (days_of_week ! j) (int i) (fst (sd_set_config ?c s)) of None \<Rightarrow> NaN | Some c \<Rightarrow> parse_int (sc_current c))
      = num_of_int (cfg ! i ! j)" if ij: "i < 24" "j < 7" for i j
  proof -
    obtain c where c: "cell_at (days_of_week ! j) (int i) s = Some c"
      using full_table_cell[OF assms(1)] ij days by metis
    have "cfg ! i \<in> set cfg" using assms(2) ij by simp
    then have r: "length (cfg ! i) = 7" "set (cfg ! i) \<subseteq> {0, 1, 2}" using assms(3) by auto
    then have "cfg ! i ! j \<in> {0, 1, 2}" using ij subsetD[OF r(2) nth_mem[of j "cfg ! i"]] r(1) by simp
    then have "parse_int (JInt (cfg ! i ! j)) = num_of_int (cfg ! i ! j)"
      using parse_states by (auto simp: list_all_iff)
    moreover have "days_of_week ! j \<in> set days_of_week" using ij days by simp
    ultimately show ?thesis
      using set[of "days_of_week ! j" "int i" s] assms(2) ij c days_index[of j] days r(1) by simp
  qed
  have "sd_get_config (fst (sd_set_config ?c s)) = List.map (List.map num_of_int) cfg"
  proof (rule nth_equalityI)
    show "length (sd_get_config (fst (sd_set_config ?c s))) = length (List.map (List.map num_of_int) cfg)"
      using assms(2) by (simp add: sd_get_config_def)
  next
    fix i assume "i < length (sd_get_config (fst (sd_set_config ?c s)))"
    then have i: "i < 24" by (simp add: sd_get_config_def)
    then have l: "length (cfg ! i) = 7" using assms(2,3) by simp
    show "sd_get_config (fst (sd_set_config ?c s)) ! i = List.map (List.map num_of_int) cfg ! i"
      by (rule nth_equalityI) (use i l cell days assms(2) in \<open>simp_all add: sd_get_config_def\<close>)
  qed
  moreover have "snd (sd_set_config ?c s)" using set assms(2) by simp
  ultimately show ?thesis by simp
qed

text \<open>A page that has been shown sends with Apply the schedule and the limits it has received:
  the table of 24 rows with 7 states each comes back as it was, under the keys of the daemon.
\<close>

theorem schedule_sent_as_received:
  assumes "sp_sched p = Some s" and "full_table s" and "length cfg = 24"
    and "\<forall>row \<in> set cfg. length row = 7 \<and> set row \<subseteq> {0, 1, 2}"
    and "\<forall>k \<in> fst ` set sched_limits. \<exists>i. - 1 \<le> i \<and> i \<le> 99999 \<and> oget config k = JInt i"
  shows "sp_trace (sp_on_ok (sp_on_got_config (List.map (List.map JInt) cfg) config p))
    = sp_trace p @ [ReqSetSchedule (List.map (List.map num_of_int) cfg)
        [(k, oget config k). k \<leftarrow> [''low_down'', ''low_up'', ''low_active'', ''low_active_down'', ''low_active_up'']]]"
proof -
  let ?r = "sd_set_config (List.map (List.map JInt) cfg) s"
  have "sp_on_got_config (List.map (List.map JInt) cfg) config p = sp_set_limits config (p\<lparr> sp_sched := Some (fst ?r) \<rparr>)"
    using assms(1) get_after_set[OF assms(2-4)] by (simp add: sp_on_got_config_def case_prod_unfold)
  then show ?thesis
    using get_after_set[OF assms(2-4)] by (simp add: sp_on_ok_def sp_on_apply_def sp_set_limits_def sched_limits_def)
qed

definition some_limits :: "jsval obj" where
  "some_limits = [(''low_down'', JInt 100), (''low_up'', JInt 7), (''low_active'', JInt 3), (''low_active_down'', JInt (- 1)), (''low_active_up'', JInt 2)]"

theorem schedule_sent_as_received_witness:
  "sp_trace (sp_on_ok (sp_on_got_config (replicate 24 [JInt 0, JInt 0, JInt 1, JInt 0, JInt 2, JInt 0, JInt 1]) some_limits (sp_render sp_new)))
    = [ReqSetSchedule (replicate 24 [num_of_int 0, num_of_int 0, num_of_int 1, num_of_int 0, num_of_int 2, num_of_int 0, num_of_int 1]) some_limits]"
proof -
  have "\<exists>i. - 1 \<le> i \<and> i \<le> 99999 \<and> oget some_limits k = JInt i" if "k \<in> fst ` set sched_limits" for k
  proof -
    have "\<exists>i \<in> {100, 7, 3, - 1, 2}. oget some_limits k = JInt i"
      using that by (auto simp: sched_limits_def some_limits_def oget_def)
    then show ?thesis by auto
  qed
  then show ?thesis
    using schedule_sent_as_received[of "sp_render sp_new" sd_new "replicate 24 [0, 0, 1, 0, 2, 0, 1]" some_limits]
    by (simp add: sp_render_def sp_new_def full_table_def sd_new_def days_of_week_def oget_def map_replicate some_limits_def)
qed

end
