(* ===== verification/ExtForm.thy ===== *)
theory ExtForm
  imports RecordStore
begin

text \<open>
  What the pages of the plugins share: the values of form fields, grids whose rows are
  edited in place (the editor grids of Notifications and Blocklist), the buttons of a list
  that follow its selection, and the contract of a page that shows a configuration and
  sends it back, as a locale interpreted on the pages.
\<close>

section \<open>Values of fields\<close>

text \<open>What \<open>setValue\<close> of a check box makes of a value.\<close>

definition box_value :: "jsval \<Rightarrow> bool" where
  "box_value v = (v \<noteq> Bool False \<and> (v = Bool True \<or> v = Str ''true'' \<or> loose_eq v (Str ''1'')
     \<or> lower (to_str v) = ''on''))"

text \<open>The text a rendered text field shows for a value.\<close>

definition field_text :: "jsval \<Rightarrow> string" where
  "field_text v = (if is_empty v then [] else to_str v)"

lemma box_value_Bool [simp]: "box_value (Bool b) = b"
  by (simp add: box_value_def loose_eq_def lower_def lower_char_def)

lemma field_text_Str [simp]: "field_text (Str s) = s"
  by (simp add: field_text_def)

section \<open>Editor grids\<close>

text \<open>Rows with the number that identifies their record; \<open>eg_editing\<close> is the row an editor is open on.\<close>

record edit_grid =
  eg_rows :: "(nat \<times> jsval) list"
  eg_next :: nat
  eg_sel :: "nat list"
  eg_editing :: "nat option"

definition eg_new :: edit_grid where
  "eg_new = \<lparr> eg_rows = [], eg_next = 0, eg_sel = [], eg_editing = None \<rparr>"

definition eg_values :: "edit_grid \<Rightarrow> jsval list" where
  "eg_values g = List.map snd (eg_rows g)"

text \<open>\<open>loadData\<close>: new records for all rows.\<close>

definition eg_load :: "jsval list \<Rightarrow> edit_grid \<Rightarrow> edit_grid" where
  "eg_load vs g = g\<lparr> eg_rows := enumerate (eg_next g) vs, eg_next := eg_next g + length vs, eg_sel := [], eg_editing := None \<rparr>"

text \<open>Add: an empty row is put first and its editor is opened.\<close>

definition eg_add :: "edit_grid \<Rightarrow> edit_grid" where
  "eg_add g = g\<lparr> eg_rows := (eg_next g, Str []) # eg_rows g, eg_next := eg_next g + 1, eg_editing := Some (eg_next g) \<rparr>"

text \<open>Remove: the editor is closed, the selected records are removed.\<close>

definition eg_remove :: "edit_grid \<Rightarrow> edit_grid" where
  "eg_remove g = each_do (\<lambda>i g. g\<lparr> eg_rows := del i (eg_rows g) \<rparr>) (eg_sel g) (g\<lparr> eg_editing := None \<rparr>)\<lparr> eg_sel := [] \<rparr>"

text \<open>The user selects rows, opens the editor of a row, and ends the edit with a text.\<close>

definition eg_select :: "nat list \<Rightarrow> edit_grid \<Rightarrow> edit_grid" where
  "eg_select is g = g\<lparr> eg_sel := List.filter (has_key (eg_rows g)) is \<rparr>"

definition eg_edit :: "nat \<Rightarrow> edit_grid \<Rightarrow> edit_grid" where
  "eg_edit i g = (if has_key (eg_rows g) i then g\<lparr> eg_editing := Some i \<rparr> else g)"

definition eg_done :: "string \<Rightarrow> edit_grid \<Rightarrow> edit_grid" where
  "eg_done s g = (case eg_editing g of None \<Rightarrow> g
     | Some i \<Rightarrow> g\<lparr> eg_rows := (if has_key (eg_rows g) i then put i (Str s) (eg_rows g) else eg_rows g), eg_editing := None \<rparr>)"

definition eg_ok :: "edit_grid \<Rightarrow> bool" where
  "eg_ok g = (wf_obj (eg_rows g) \<and> (\<forall>i \<in> set (keys_of (eg_rows g)). i < eg_next g))"

lemma eg_values_load [simp]: "eg_values (eg_load vs g) = vs"
  by (simp add: eg_values_def eg_load_def map_snd_enumerate)

lemma keys_del: "keys_of (del i ob) = List.filter (\<lambda>j. j \<noteq> i) (keys_of ob)"
  by (induction ob) (auto simp: keys_of_def)

lemma eg_remove_rows: "eg_rows (eg_remove g) = List.filter (\<lambda>(i, v). i \<notin> set (eg_sel g)) (eg_rows g)"
proof -
  have step: "eg_rows (each_do (\<lambda>i g. g\<lparr> eg_rows := del i (eg_rows g) \<rparr>) is g) = List.filter (\<lambda>(i, v). i \<notin> set is) (eg_rows g)"
    for "is" g
  proof (induction "is" arbitrary: g)
    case (Cons j js)
    have "del j ob = List.filter (\<lambda>(i, v). i \<noteq> j) ob" for ob :: "(nat \<times> jsval) list"
      by (induction ob) auto
    then show ?case using Cons by (auto intro!: filter_cong)
  qed simp
  show ?thesis by (simp add: eg_remove_def step)
qed

lemma eg_ok_ops [inv_intros]:
  assumes "eg_ok g"
  shows "eg_ok (eg_load vs g)" "eg_ok (eg_add g)" "eg_ok (eg_remove g)" "eg_ok (eg_select is g)" "eg_ok (eg_edit i g)"
    "eg_ok (eg_done s g)"
proof -
  show "eg_ok (eg_load vs g)"
    by (auto simp: eg_ok_def eg_load_def wf_obj_def keys_of_def)
  show "eg_ok (eg_add g)" using assms by (auto simp: eg_ok_def eg_add_def wf_obj_def keys_of_def)
  have "eg_next (eg_remove g) = eg_next g"
  proof -
    have "eg_next (each_do (\<lambda>i g. g\<lparr> eg_rows := del i (eg_rows g) \<rparr>) xs h) = eg_next h" for xs h
      by (induction xs arbitrary: h) simp_all
    from this[of "eg_sel g" "g\<lparr> eg_editing := None \<rparr>"] show ?thesis by (simp add: eg_remove_def)
  qed
  then show "eg_ok (eg_remove g)" using assms
    by (auto simp: eg_ok_def eg_remove_rows wf_obj_def keys_of_def distinct_map_filter)
  show "eg_ok (eg_select is g)" "eg_ok (eg_edit i g)" using assms by (simp_all add: eg_ok_def eg_select_def eg_edit_def)
  show "eg_ok (eg_done s g)" using assms
    by (auto simp: eg_ok_def eg_done_def wf_obj_put keys_of_put split: option.splits)
qed

section \<open>Buttons that follow the selection\<close>

text \<open>The items 1 and 3 of a tool bar are enabled while a row is selected.\<close>

record list_page =
  li_rows :: "(string \<times> jsval obj) list"
  li_selected :: "string option"
  li_buttons :: bool

definition list_new :: list_page where
  "list_new = \<lparr> li_rows = [], li_selected = None, li_buttons = False \<rparr>"

definition list_select :: "string option \<Rightarrow> list_page \<Rightarrow> list_page" where
  "list_select x l = (let x = (case x of None \<Rightarrow> None | Some i \<Rightarrow> if has_key (li_rows l) i then Some i else None)
     in l\<lparr> li_selected := x, li_buttons := x \<noteq> None \<rparr>)"

text \<open>New rows replace the old ones; a selected row that is gone is deselected, an event.\<close>

definition list_load :: "(string \<times> jsval obj) list \<Rightarrow> list_page \<Rightarrow> list_page" where
  "list_load rows l = list_select None (l\<lparr> li_rows := rows \<rparr>)"

section \<open>Pages that show and send a configuration\<close>

locale config_page =
  fixes load :: "'c \<Rightarrow> 'p \<Rightarrow> 'p"
    and save :: "'p \<Rightarrow> 'c"
    and valid :: "'c \<Rightarrow> bool"
    and ready :: "'p \<Rightarrow> bool"
  assumes save_load: "ready p \<Longrightarrow> valid c \<Longrightarrow> save (load c p) = c"
    and ready_load: "ready p \<Longrightarrow> valid c \<Longrightarrow> ready (load c p)"
begin

lemma last_load_saved:
  "ready p \<Longrightarrow> (\<And>c. c \<in> set cs \<Longrightarrow> valid c) \<Longrightarrow> cs \<noteq> [] \<Longrightarrow> save (each_do load cs p) = last cs"
proof (induction cs arbitrary: p)
  case (Cons c cs)
  have "ready (load c p)" using Cons.prems ready_load by simp
  then show ?case using Cons save_load[of p c] by (cases cs) simp_all
qed simp

lemma load_forgets: "ready p \<Longrightarrow> ready q \<Longrightarrow> valid c \<Longrightarrow> save (load c p) = save (load c q)"
  by (simp add: save_load)

lemma load_again: "ready p \<Longrightarrow> valid (save p) \<Longrightarrow> save (load (save p) p) = save p"
  by (simp add: save_load)

end

end
