(* ===== verification/Label.thy ===== *)
theory Label
  imports Sidebar ExtForm
begin

text \<open>
  The Label plugin (plugins/Label, label.js): the submenu of the torrent menu with the
  labels, the context menu of the filter panel, the window that adds a label, and the
  window with the options of a label. Fields of a form that have not been rendered (the
  tab they are on was never shown) hold the value they were given; a text field that is
  rendered holds its text.
\<close>

section \<open>Fields of the options window\<close>

datatype lo_kind = LBox | LNum | LText

text \<open>Name, kind and tab of each field, in the order of the form.\<close>

definition lo_fields :: "(string \<times> lo_kind \<times> nat) list" where
  "lo_fields =
    [(''apply_max'', LBox, 0), (''max_download_speed'', LNum, 0), (''max_upload_speed'', LNum, 0),
     (''max_upload_slots'', LNum, 0), (''max_connections'', LNum, 0),
     (''apply_queue'', LBox, 1), (''is_auto_managed'', LBox, 1), (''stop_at_ratio'', LBox, 1),
     (''stop_ratio'', LNum, 1), (''remove_at_ratio'', LBox, 1),
     (''apply_move_completed'', LBox, 2), (''move_completed'', LBox, 2), (''move_completed_path'', LText, 2),
     (''auto_add'', LBox, 3), (''auto_add_trackers'', LText, 3)]"

text \<open>Each switch with the fields of the fieldset after its own, which are disabled at first.\<close>

definition lo_groups :: "(string \<times> string list) list" where
  "lo_groups =
    [(''apply_max'', [''max_download_speed'', ''max_upload_speed'', ''max_upload_slots'', ''max_connections'']),
     (''apply_queue'', [''is_auto_managed'', ''stop_at_ratio'', ''stop_ratio'', ''remove_at_ratio'']),
     (''apply_move_completed'', [''move_completed'', ''move_completed_path'']),
     (''auto_add'', [''auto_add_trackers''])]"

definition lo_initial :: "lo_kind \<Rightarrow> string \<Rightarrow> jsval" where
  "lo_initial k n = (case k of LBox \<Rightarrow> Bool False
     | LNum \<Rightarrow> (if n = ''stop_ratio'' then Undef else JInt (-1)) | LText \<Rightarrow> Undef)"

datatype label_effect =
    ReqLabelOptions string
  | ReqSetLabelOptions string "jsval obj"
  | ReqAddLabel string
  | ReqRemoveLabel jsval
  | ReqSetTorrentLabel string string bool
  | UpdateUi
  | ShowLabelOptions jsval
  | ShowLabelMenu

record lo_window =
  lo_label :: string
  lo_visible :: bool
  lo_tab :: nat
  lo_rendered :: "nat list"
  lo_values :: "jsval obj"
  lo_disabled :: "(string \<times> bool) list"
  lo_trace :: "label_effect list"

definition lo_new :: lo_window where
  "lo_new = \<lparr> lo_label = [], lo_visible = False, lo_tab = 0, lo_rendered = [],
     lo_values = List.map (\<lambda>(n, k, t). (n, lo_initial k n)) lo_fields,
     lo_disabled = List.map (\<lambda>(n, k, t). (n, \<not> has_key lo_groups n)) lo_fields, lo_trace = [] \<rparr>"

definition lo_is_disabled :: "lo_window \<Rightarrow> string \<Rightarrow> bool" where
  "lo_is_disabled w n = (map_of (lo_disabled w) n = Some True)"

text \<open>\<open>onFieldChecked\<close>: the fields of the next fieldset follow the switch.\<close>

definition lo_on_field_checked :: "string \<Rightarrow> bool \<Rightarrow> lo_window \<Rightarrow> lo_window" where
  "lo_on_field_checked n checked w = (case map_of lo_groups n of None \<Rightarrow> w
     | Some ds \<Rightarrow> w\<lparr> lo_disabled := each_do (\<lambda>d. put d (\<not> checked)) ds (lo_disabled w) \<rparr>)"

text \<open>\<open>field.setValue\<close>; a box fires \<open>check\<close> when it changes.\<close>

definition lo_set_value :: "string \<Rightarrow> jsval \<Rightarrow> lo_window \<Rightarrow> lo_window" where
  "lo_set_value n v w = (case map_of lo_fields n of None \<Rightarrow> w
     | Some (LBox, t) \<Rightarrow>
         let w' = w\<lparr> lo_values := put n (Bool (box_value v)) (lo_values w) \<rparr> in
         if oget (lo_values w) n \<noteq> Bool (box_value v) then lo_on_field_checked n (box_value v) w' else w'
     | Some (LNum, t) \<Rightarrow> w\<lparr> lo_values := put n v (lo_values w) \<rparr>
     | Some (LText, t) \<Rightarrow>
         w\<lparr> lo_values := put n (if t \<in> set (lo_rendered w) then Str (field_text v) else v) (lo_values w) \<rparr>)"

text \<open>A tab that is shown for the first time renders its fields, which take the text of their value.\<close>

definition lo_show_tab :: "nat \<Rightarrow> lo_window \<Rightarrow> lo_window" where
  "lo_show_tab t w = (let w = w\<lparr> lo_tab := t \<rparr> in
     if t \<in> set (lo_rendered w) then w
     else each_do (\<lambda>(n, k, u) w. if k = LText \<and> u = t then lo_set_value n (oget (lo_values w) n) w else w) lo_fields
       (w\<lparr> lo_rendered := lo_rendered w @ [t] \<rparr>))"

definition lo_get_label_options :: "lo_window \<Rightarrow> lo_window" where
  "lo_get_label_options w = w\<lparr> lo_trace := lo_trace w @ [ReqLabelOptions (lo_label w)] \<rparr>"

definition lo_got_options :: "jsval obj \<Rightarrow> lo_window \<Rightarrow> lo_window" where
  "lo_got_options options w = for_in lo_set_value options w"

definition lo_show :: "string \<Rightarrow> lo_window \<Rightarrow> lo_window" where
  "lo_show label w = lo_get_label_options (lo_show_tab 0 (w\<lparr> lo_visible := True, lo_label := label \<rparr>))"

definition lo_on_cancel :: "lo_window \<Rightarrow> lo_window" where
  "lo_on_cancel w = w\<lparr> lo_visible := False \<rparr>"

text \<open>\<open>getFieldValues\<close>: the fields that are not disabled.\<close>

definition lo_field_values :: "lo_window \<Rightarrow> jsval obj" where
  "lo_field_values w = List.map (\<lambda>(n, k, t). (n, oget (lo_values w) n))
     (List.filter (\<lambda>(n, k, t). \<not> lo_is_disabled w n) lo_fields)"

text \<open>Only strings have \<open>split\<close>.\<close>

definition lo_on_ok :: "lo_window \<Rightarrow> lo_window result" where
  "lo_on_ok w = (let values = lo_field_values w; t = oget values ''auto_add_trackers'';
       send = (\<lambda>vs. Inr (w\<lparr> lo_visible := False, lo_trace := lo_trace w @ [ReqSetLabelOptions (lo_label w) vs] \<rparr>)) in
     if truthy t then (case t of
         Str s \<Rightarrow> send (put ''auto_add_trackers'' (Arr 0 (List.map Str (split_char (CHR 0x0A) s))) values)
       | _ \<Rightarrow> Inl TypeError)
     else send values)"

text \<open>What the user does to a field that is shown and enabled.\<close>

definition lo_user_check :: "string \<Rightarrow> bool \<Rightarrow> lo_window \<Rightarrow> lo_window" where
  "lo_user_check n b w = (if lo_is_disabled w n then w else lo_set_value n (Bool b) w)"

definition lo_user_type :: "string \<Rightarrow> string \<Rightarrow> lo_window \<Rightarrow> lo_window" where
  "lo_user_type n s w = (case map_of lo_fields n of
       Some (LText, t) \<Rightarrow> if lo_is_disabled w n \<or> t \<noteq> lo_tab w \<or> t \<notin> set (lo_rendered w) then w else lo_set_value n (Str s) w
     | _ \<Rightarrow> w)"

section \<open>The plugin\<close>

text \<open>Listeners of the sidebar are kept with their scope, and removed only when both agree.\<close>

datatype lp_fn = OnFilterCreate | OnAfterFilterCreate

datatype lp_scope = ThePlugin | TheSidebar

definition ext_un :: "'a \<Rightarrow> 'a list \<Rightarrow> 'a list" where
  "ext_un x ls = rev (remove_first x (rev ls))"

record label_plugin =
  lp_create :: "(lp_fn \<times> lp_scope) list"
  lp_after :: "(lp_fn \<times> lp_scope) list"
  lp_template :: bool
  lp_items :: "(string \<times> string) list"
  lp_shown :: bool
  lp_handlers :: nat
  lp_show_zero :: bool
  lp_menu :: "bool option"
  lp_trace :: "label_effect list"

definition lp_new :: label_plugin where
  "lp_new = \<lparr> lp_create = [], lp_after = [], lp_template = False, lp_items = [], lp_shown = False,
     lp_handlers = 0, lp_show_zero = False, lp_menu = None, lp_trace = [] \<rparr>"

definition lp_emit :: "label_effect list \<Rightarrow> label_plugin \<Rightarrow> label_plugin" where
  "lp_emit es s = s\<lparr> lp_trace := lp_trace s @ es \<rparr>"

text \<open>The order in which \<open>for (k in o)\<close> visits string keys: those that are array indices first, by number.\<close>

definition index_key :: "string \<Rightarrow> bool" where
  "index_key k = (k \<noteq> [] \<and> list_all is_digit k \<and> (hd k = CHR ''0'' \<longrightarrow> k = ''0'') \<and> digits_val k < 2 ^ 32 - 1)"

definition js_keys :: "'v obj \<Rightarrow> string list" where
  "js_keys ob = sort_key digits_val (List.filter index_key (keys_of ob)) @ List.filter (\<lambda>k. \<not> index_key k) (keys_of ob)"

definition label_names :: "'v obj \<Rightarrow> string list" where
  "label_names states = List.filter (\<lambda>k. k \<noteq> [] \<and> k \<noteq> ''All'') (js_keys states)"

definition lp_set_filter :: "label_plugin \<Rightarrow> label_plugin" where
  "lp_set_filter s = s\<lparr> lp_show_zero := True, lp_handlers := lp_handlers s + 1 \<rparr>"

definition lp_update_torrent_menu :: "'v obj \<Rightarrow> label_plugin \<Rightarrow> label_plugin" where
  "lp_update_torrent_menu states s = s\<lparr> lp_items := (''No Label'', []) # List.map (\<lambda>k. (k, k)) (label_names states) \<rparr>"

definition lp_on_enable :: "panel option \<Rightarrow> label_plugin \<Rightarrow> label_plugin" where
  "lp_on_enable existing s0 = (let s = s0\<lparr> lp_shown := True, lp_items := [] \<rparr> in
     (case existing of
        Some p \<Rightarrow> lp_update_torrent_menu (panel_get_states p) (lp_set_filter s)
      | None \<Rightarrow> s\<lparr> lp_create := lp_create s @ [(OnFilterCreate, ThePlugin)],
          lp_after := lp_after s @ [(OnAfterFilterCreate, ThePlugin)], lp_template := True \<rparr>))"

text \<open>\<open>un\<close> is called without a scope, which then is the sidebar.\<close>

definition lp_on_disable :: "label_plugin \<Rightarrow> label_plugin" where
  "lp_on_disable s = s\<lparr> lp_create := ext_un (OnFilterCreate, TheSidebar) (lp_create s),
     lp_after := ext_un (OnAfterFilterCreate, TheSidebar) (lp_after s), lp_template := False, lp_shown := False \<rparr>"

definition lp_on_filter_create :: "string \<Rightarrow> label_plugin \<Rightarrow> label_plugin" where
  "lp_on_filter_create ty s = (if ty \<noteq> ''label'' then s else lp_set_filter s)"

definition lp_on_after_filter_create :: "panel \<Rightarrow> label_plugin \<Rightarrow> label_plugin" where
  "lp_on_after_filter_create p s = (if fp_type p \<noteq> ''label'' then s else lp_update_torrent_menu (panel_get_states p) s)"

text \<open>
  The sidebar creates a filter panel: the listeners of \<open>filtercreate\<close>, the states (with zero
  counts when a listener asked for them), the listeners of \<open>afterfiltercreate\<close>.
\<close>

definition lp_panel_created :: "(string \<Rightarrow> string) \<Rightarrow> bool \<Rightarrow> string \<Rightarrow> (string \<times> jsval) list \<Rightarrow> label_plugin \<Rightarrow> panel \<times> label_plugin" where
  "lp_panel_created tr zero ty states s0 =
     (let s = each_do (\<lambda>_. lp_on_filter_create ty) (lp_create s0)
            (if ty = ''label'' then s0\<lparr> lp_show_zero := False, lp_handlers := 0 \<rparr> else s0);
          p = panel_update_states tr (zero \<or> ty = ''label'' \<and> lp_show_zero s) states (panel_new tr ty)
      in (p, each_do (\<lambda>_. lp_on_after_filter_create p) (lp_after s) s))"

definition lp_on_label_added :: "panel \<Rightarrow> string \<Rightarrow> label_plugin \<Rightarrow> label_plugin" where
  "lp_on_label_added p label s =
     (let names = stable_sort str_lt (label_names (panel_get_states p) @ [lower label])
      in lp_update_torrent_menu (each_do (\<lambda>k. put k (JInt 0)) names []) s)"

text \<open>The window for a new label: OK asks for it, the reply is told to the plugin.\<close>

definition al_on_ok :: "string \<Rightarrow> label_plugin \<Rightarrow> label_plugin" where
  "al_on_ok name s = lp_emit [ReqAddLabel name] s"

definition al_on_added :: "panel \<Rightarrow> string \<Rightarrow> label_plugin \<Rightarrow> label_plugin" where
  "al_on_added p name s = lp_on_label_added p name (lp_emit [UpdateUi] s)"

text \<open>The context menu of the panel; its items Remove and Options are disabled together.\<close>

definition lp_on_context_menu :: "string \<Rightarrow> label_plugin \<Rightarrow> label_plugin" where
  "lp_on_context_menu r s = lp_emit [ShowLabelMenu] (s\<lparr> lp_menu := Some (r = [] \<or> r = ''All'') \<rparr>)"

definition lp_on_header_context_menu :: "label_plugin \<Rightarrow> label_plugin" where
  "lp_on_header_context_menu s = lp_emit [ShowLabelMenu] (s\<lparr> lp_menu := Some True \<rparr>)"

definition lp_on_options_click :: "panel \<Rightarrow> label_plugin \<Rightarrow> label_plugin" where
  "lp_on_options_click p s = lp_emit [ShowLabelOptions (panel_get_state p)] s"

definition lp_on_remove_click :: "panel \<Rightarrow> label_plugin \<Rightarrow> label_plugin" where
  "lp_on_remove_click p s = lp_emit [ReqRemoveLabel (panel_get_state p)] s"

definition lp_on_removed :: "jsval \<Rightarrow> label_plugin \<Rightarrow> label_plugin" where
  "lp_on_removed st s = (lp_emit [UpdateUi] s)\<lparr> lp_items := List.filter (\<lambda>(t, l). \<not> loose_eq (Str t) st) (lp_items s) \<rparr>"

text \<open>A click on a label: one request per selected torrent, the last with a callback that polls.\<close>

fun label_requests :: "string \<Rightarrow> string list \<Rightarrow> label_effect list" where
  "label_requests label [] = []"
| "label_requests label [i] = [ReqSetTorrentLabel i label True]"
| "label_requests label (i # j # ids) = ReqSetTorrentLabel i label False # label_requests label (j # ids)"

definition lp_on_torrent_menu_click :: "string list \<Rightarrow> string \<Rightarrow> label_plugin \<Rightarrow> label_plugin" where
  "lp_on_torrent_menu_click ids label s = lp_emit (label_requests label ids) s"

section \<open>The form keeps its fields in step with the switches\<close>

definition lo_ok :: "lo_window \<Rightarrow> bool" where
  "lo_ok w = ((\<forall>(n, k, t) \<in> set lo_fields. k = LBox \<longrightarrow> oget (lo_values w) n = Bool True \<or> oget (lo_values w) n = Bool False)
     \<and> (\<forall>(b, ds) \<in> set lo_groups. map_of (lo_disabled w) b = Some False
        \<and> (\<forall>d \<in> set ds. map_of (lo_disabled w) d = Some (oget (lo_values w) b \<noteq> Bool True))))"

lemma lo_ok_new: "lo_ok lo_new"
  by (simp add: lo_ok_def lo_new_def lo_fields_def lo_groups_def lo_initial_def oget_def has_key_def)

lemma lo_ok_cong:
  "lo_values w' = lo_values w \<Longrightarrow> lo_disabled w' = lo_disabled w \<Longrightarrow> lo_ok w' = lo_ok w"
  by (simp add: lo_ok_def)

text \<open>The groups of fields do not overlap, and switches are boxes outside of all groups.\<close>

lemma lo_groups_apart:
  assumes "map_of lo_groups b = Some ds" and "map_of lo_groups c = Some es"
  shows "b \<notin> set es" and "b \<noteq> c \<Longrightarrow> set ds \<inter> set es = {}" and "\<exists>t. map_of lo_fields b = Some (LBox, t)"
proof -
  have all: "\<forall>p \<in> set lo_groups. \<forall>q \<in> set lo_groups. fst p \<notin> set (snd q)
      \<and> (fst p \<noteq> fst q \<longrightarrow> set (snd p) \<inter> set (snd q) = {})"
    by (simp add: lo_groups_def)
  have box: "\<forall>p \<in> set lo_groups. \<exists>t. map_of lo_fields (fst p) = Some (LBox, t)"
    by (simp add: lo_groups_def lo_fields_def)
  note in1 = map_of_SomeD[OF assms(1)] and in2 = map_of_SomeD[OF assms(2)]
  show "b \<notin> set es" "b \<noteq> c \<Longrightarrow> set ds \<inter> set es = {}"
    using bspec[OF bspec[OF all in1] in2] by simp_all
  show "\<exists>t. map_of lo_fields b = Some (LBox, t)" using bspec[OF box in1] by simp
qed

lemma all_boxes: "(\<forall>(n, k, t) \<in> set xs. k = LBox \<longrightarrow> Q n) \<longleftrightarrow> (\<forall>n t. (n, LBox, t) \<in> set xs \<longrightarrow> Q n)"
  by auto

lemma all_entries: "(\<forall>(b, ds) \<in> set xs. Q b ds) \<longleftrightarrow> (\<forall>b ds. (b, ds) \<in> set xs \<longrightarrow> Q b ds)"
  by auto

lemma lo_ok_iff:
  "lo_ok w \<longleftrightarrow> (\<forall>n t. map_of lo_fields n = Some (LBox, t) \<longrightarrow> oget (lo_values w) n = Bool True \<or> oget (lo_values w) n = Bool False)
     \<and> (\<forall>b ds. map_of lo_groups b = Some ds \<longrightarrow> map_of (lo_disabled w) b = Some False
        \<and> (\<forall>d \<in> set ds. map_of (lo_disabled w) d = Some (oget (lo_values w) b \<noteq> Bool True)))"
proof -
  have "distinct (List.map fst lo_fields)" "distinct (List.map fst lo_groups)"
    by (simp_all add: lo_fields_def lo_groups_def)
  then show ?thesis
    unfolding lo_ok_def all_boxes all_entries by (simp only: map_of_eq_Some_iff)
qed

lemma lookup_put_all: "map_of (each_do (\<lambda>d. put d v) ds ob) k = (if k \<in> set ds then Some v else map_of ob k)"
  by (induction ds arbitrary: ob) (auto simp: lookup_put)

lemma lo_ok_set_value [inv_intros]:
  assumes "lo_ok w"
  shows "lo_ok (lo_set_value n v w)"
proof (cases "map_of lo_fields n")
  case (Some x)
  obtain k t where x: "x = (k, t)" by (cases x)
  show ?thesis
  proof (cases k)
    case LBox
    define c where "c = box_value v"
    define ch where "ch = (oget (lo_values w) n \<noteq> Bool c)"
    define u where "u = lo_set_value n v w"
    have vals: "lo_values u = put n (Bool c) (lo_values w)"
      unfolding u_def lo_set_value_def
      by (auto simp: Some x LBox Let_def lo_on_field_checked_def c_def split: option.splits)
    have dis: "lo_disabled u = (case map_of lo_groups n of Some ds \<Rightarrow> if ch then each_do (\<lambda>d. put d (\<not> c)) ds (lo_disabled w) else lo_disabled w
        | None \<Rightarrow> lo_disabled w)"
      unfolding u_def lo_set_value_def
      by (auto simp: Some x LBox Let_def lo_on_field_checked_def c_def ch_def split: option.splits)
    have "lo_ok u"
      unfolding lo_ok_iff
    proof (intro conjI allI impI)
      fix m s assume "map_of lo_fields m = Some (LBox, s)"
      then show "oget (lo_values u) m = Bool True \<or> oget (lo_values u) m = Bool False"
        using assms by (auto simp: lo_ok_iff vals)
    next
      fix b ds assume b: "map_of lo_groups b = Some ds"
      then have old: "map_of (lo_disabled w) b = Some False" "\<forall>d \<in> set ds. map_of (lo_disabled w) d = Some (oget (lo_values w) b \<noteq> Bool True)"
        using assms by (auto simp: lo_ok_iff)
      show "map_of (lo_disabled u) b = Some False"
        using old(1) lo_groups_apart(1)[OF b] by (auto simp: dis lookup_put_all split: option.splits)
      show "\<forall>d \<in> set ds. map_of (lo_disabled u) d = Some (oget (lo_values u) b \<noteq> Bool True)"
      proof (cases "b = n")
        case True
        then show ?thesis using b old(2) by (auto simp: dis vals lookup_put_all ch_def)
      next
        case False
        then show ?thesis using b old(2) lo_groups_apart(2)[OF b] by (auto simp: dis vals lookup_put_all split: option.splits)
      qed
    qed
    then show ?thesis by (simp add: u_def)
  qed (use assms Some x lo_groups_apart(3) in \<open>fastforce simp: lo_ok_iff lo_set_value_def\<close>)+
qed (use assms in \<open>simp add: lo_set_value_def\<close>)

lemma lo_ok_show_tab [inv_intros]: "lo_ok w \<Longrightarrow> lo_ok (lo_show_tab t w)"
  unfolding lo_show_tab_def Let_def
  by (auto intro!: each_do_invariant[where P = lo_ok] lo_ok_set_value split: prod.splits simp: lo_ok_cong[of "w\<lparr> lo_tab := t \<rparr>" w]
      lo_ok_cong[of "w\<lparr> lo_tab := t, lo_rendered := lo_rendered w @ [t] \<rparr>" w])

lemma lo_ok_got_options [inv_intros]: "lo_ok w \<Longrightarrow> lo_ok (lo_got_options options w)"
  unfolding lo_got_options_def by (rule for_in_invariant[where P = lo_ok]) (auto intro: lo_ok_set_value)

section \<open>Reachable states of the window\<close>

inductive lo_step :: "lo_window \<Rightarrow> lo_window \<Rightarrow> bool" where
  lo_shown: "lo_step w (lo_show label w)"
| lo_reply: "lo_step w (lo_got_options options w)"
| lo_tab_change: "lo_step w (lo_show_tab t w)"
| lo_checked: "lo_step w (lo_user_check n b w)"
| lo_typed: "lo_step w (lo_user_type n s w)"
| lo_cancelled: "lo_step w (lo_on_cancel w)"
| lo_confirmed: "lo_on_ok w = Inr w' \<Longrightarrow> lo_step w w'"

inductive_cases lo_stepE: "lo_step w w'"

inductive lo_reach :: "lo_window \<Rightarrow> bool" where
  lo_start: "lo_reach lo_new"
| lo_more: "lo_reach w \<Longrightarrow> lo_step w w' \<Longrightarrow> lo_reach w'"

lemma lo_rendered_set_value [simp]: "lo_rendered (lo_set_value n v w) = lo_rendered w"
  by (auto simp: lo_set_value_def lo_on_field_checked_def Let_def split: option.splits lo_kind.splits)

text \<open>Text fields of a tab that was shown hold a string.\<close>

definition lo_texts :: "lo_window \<Rightarrow> bool" where
  "lo_texts w = (\<forall>(n, k, t) \<in> set lo_fields. k = LText \<and> t \<in> set (lo_rendered w) \<longrightarrow> (\<exists>s. oget (lo_values w) n = Str s))"

lemma lo_values_set_value:
  "oget (lo_values (lo_set_value n v w)) m = (if n \<noteq> m then oget (lo_values w) m else case map_of lo_fields n of
      None \<Rightarrow> oget (lo_values w) m | Some (LBox, t) \<Rightarrow> Bool (box_value v) | Some (LNum, t) \<Rightarrow> v
    | Some (LText, t) \<Rightarrow> if t \<in> set (lo_rendered w) then Str (field_text v) else v)"
  by (auto simp: lo_set_value_def lo_on_field_checked_def Let_def split: option.splits lo_kind.splits)

lemma lo_text_fields:
  "lo_texts w \<longleftrightarrow> (2 \<in> set (lo_rendered w) \<longrightarrow> (\<exists>s. oget (lo_values w) ''move_completed_path'' = Str s))
    \<and> (3 \<in> set (lo_rendered w) \<longrightarrow> (\<exists>s. oget (lo_values w) ''auto_add_trackers'' = Str s))"
  by (simp add: lo_texts_def lo_fields_def)

lemma lo_text_kinds:
  "map_of lo_fields ''move_completed_path'' = Some (LText, 2)" "map_of lo_fields ''auto_add_trackers'' = Some (LText, 3)"
  "map_of lo_fields ''auto_add'' = Some (LBox, 3)" "map_of lo_groups ''auto_add'' = Some [''auto_add_trackers'']"
  by (simp_all add: lo_fields_def lo_groups_def)

lemma lo_texts_set_value: "lo_texts w \<Longrightarrow> lo_texts (lo_set_value n v w)"
  by (auto simp: lo_text_fields lo_values_set_value lo_text_kinds)

lemma lo_render_fields:
  "each_do (\<lambda>(n, k, u) w. if k = LText \<and> u = t then lo_set_value n (oget (lo_values w) n) w else w) lo_fields w
    = (if t = 2 then lo_set_value ''move_completed_path'' (oget (lo_values w) ''move_completed_path'') w
       else if t = 3 then lo_set_value ''auto_add_trackers'' (oget (lo_values w) ''auto_add_trackers'') w else w)"
  by (simp add: lo_fields_def)

lemma lo_texts_rendered:
  assumes "lo_texts w" and "oget (lo_values u) = oget (lo_values w)" and "lo_rendered u = lo_rendered w @ [t]"
    and "t = 2 \<Longrightarrow> n = ''move_completed_path''" and "t = 3 \<Longrightarrow> n = ''auto_add_trackers''" and "t = 2 \<or> t = 3"
  shows "lo_texts (lo_set_value n v u)"
  using assms(6)
proof
  assume "t = 2"
  then show ?thesis using assms(1-4) by (simp add: lo_text_fields lo_values_set_value lo_text_kinds)
next
  assume "t = 3"
  then show ?thesis using assms(1-3,5) by (simp add: lo_text_fields lo_values_set_value lo_text_kinds)
qed

lemma lo_texts_show_tab:
  assumes "lo_texts w"
  shows "lo_texts (lo_show_tab t w)"
proof (cases "t \<in> set (lo_rendered w)")
  case False
  let ?u = "w\<lparr> lo_tab := t, lo_rendered := lo_rendered w @ [t] \<rparr>"
  have "lo_texts ?u" if "t \<noteq> 2" "t \<noteq> 3" using assms that by (simp add: lo_text_fields)
  moreover have "lo_show_tab t w = (if t = 2 then lo_set_value ''move_completed_path'' (oget (lo_values ?u) ''move_completed_path'') ?u
       else if t = 3 then lo_set_value ''auto_add_trackers'' (oget (lo_values ?u) ''auto_add_trackers'') ?u else ?u)"
    using False unfolding lo_show_tab_def Let_def lo_render_fields by simp
  moreover have "lo_texts (lo_set_value ''move_completed_path'' v ?u)" if "t = 2" for v
    by (rule lo_texts_rendered[OF assms, where t = t]) (use that in simp_all)
  moreover have "lo_texts (lo_set_value ''auto_add_trackers'' v ?u)" if "t = 3" for v
    by (rule lo_texts_rendered[OF assms, where t = t]) (use that in simp_all)
  ultimately show ?thesis by presburger
qed (use assms in \<open>simp add: lo_show_tab_def lo_texts_def\<close>)

definition lo_inv :: "lo_window \<Rightarrow> bool" where
  "lo_inv w = (lo_ok w \<and> lo_texts w)"

lemma lo_inv_cong:
  "lo_values w' = lo_values w \<Longrightarrow> lo_disabled w' = lo_disabled w \<Longrightarrow> lo_rendered w' = lo_rendered w \<Longrightarrow> lo_inv w' = lo_inv w"
  by (simp add: lo_inv_def lo_ok_def lo_texts_def)

lemma lo_inv_set_value: "lo_inv w \<Longrightarrow> lo_inv (lo_set_value n v w)"
  by (simp add: lo_inv_def lo_ok_set_value lo_texts_set_value)

lemma lo_inv_show_tab: "lo_inv w \<Longrightarrow> lo_inv (lo_show_tab t w)"
  by (simp add: lo_inv_def lo_ok_show_tab lo_texts_show_tab)

lemma lo_ok_result:
  "lo_on_ok w = Inr w' \<Longrightarrow> \<exists>vs. w' = w\<lparr> lo_visible := False, lo_trace := lo_trace w @ [ReqSetLabelOptions (lo_label w) vs] \<rparr>"
  by (auto simp: lo_on_ok_def Let_def split: if_splits jsval.splits)

lemma lo_inv_step:
  assumes "lo_step w w'" and "lo_inv w"
  shows "lo_inv w'"
  using assms(1)
proof cases
  case (lo_shown label)
  have "lo_inv (w\<lparr> lo_visible := True, lo_label := label \<rparr>)" using assms(2) by (subst lo_inv_cong[of _ w]) simp_all
  from lo_inv_show_tab[OF this, of 0] show ?thesis
    unfolding lo_shown lo_show_def lo_get_label_options_def by (subst lo_inv_cong) auto
next
  case (lo_reply options)
  then show ?thesis
    unfolding lo_got_options_def by (simp add: for_in_invariant[where P = lo_inv, OF assms(2) lo_inv_set_value])
next
  case lo_confirmed
  then obtain vs where "w' = w\<lparr> lo_visible := False, lo_trace := lo_trace w @ [ReqSetLabelOptions (lo_label w) vs] \<rparr>"
    using lo_ok_result by blast
  then show ?thesis using assms(2) lo_inv_cong[of w' w] by simp
next
  case lo_cancelled
  then show ?thesis using assms(2) lo_inv_cong[of "lo_on_cancel w" w] by (simp add: lo_on_cancel_def)
next
  case (lo_tab_change t)
  then show ?thesis using lo_inv_show_tab[OF assms(2)] by simp
next
  case (lo_checked n b)
  then show ?thesis using assms(2) lo_inv_set_value[OF assms(2)] by (simp add: lo_user_check_def)
next
  case (lo_typed n s)
  then show ?thesis using assms(2) lo_inv_set_value[OF assms(2)]
    by (simp add: lo_user_type_def split: option.split prod.split lo_kind.split)
qed

lemma lo_reach_inv: "lo_reach w \<Longrightarrow> lo_inv w"
proof (induction rule: lo_reach.induct)
  case lo_start
  have "lo_texts lo_new" by (simp add: lo_texts_def lo_new_def)
  then show ?case by (simp add: lo_inv_def lo_ok_new)
qed (rule lo_inv_step)

lemma lo_disabled_group:
  assumes "lo_ok w" and "map_of lo_groups b = Some ds"
  shows "\<not> lo_is_disabled w b" and "d \<in> set ds \<Longrightarrow> lo_is_disabled w d \<longleftrightarrow> oget (lo_values w) b \<noteq> Bool True"
  using assms by (auto simp: lo_ok_iff lo_is_disabled_def)

lemma label_fields_rule:
  assumes "lo_reach w" and "(b, ds) \<in> set lo_groups"
  shows "\<not> lo_is_disabled w b" and "d \<in> set ds \<Longrightarrow> lo_is_disabled w d \<longleftrightarrow> oget (lo_values w) b = Bool False"
proof -
  have ok: "lo_ok w" using lo_reach_inv[OF assms(1)] by (simp add: lo_inv_def)
  have b: "map_of lo_groups b = Some ds"
    using assms(2) by (intro map_of_is_SomeI) (simp_all add: lo_groups_def)
  obtain t where "map_of lo_fields b = Some (LBox, t)" using lo_groups_apart(3)[OF b b] by blast
  then have "oget (lo_values w) b = Bool True \<or> oget (lo_values w) b = Bool False"
    using ok by (auto simp: lo_ok_iff)
  then show "\<not> lo_is_disabled w b" "d \<in> set ds \<Longrightarrow> lo_is_disabled w d \<longleftrightarrow> oget (lo_values w) b = Bool False"
    using lo_disabled_group[OF ok b] by auto
qed

text \<open>Whatever is shown, received, typed and checked, the fields of a group can be changed exactly
  while its switch is on, and the switches always can.\<close>

theorem label_fields_follow_switch:
  assumes "lo_reach w" and "(b, ds) \<in> set lo_groups" and "d \<in> set ds"
  shows "\<not> lo_is_disabled w b \<and> (lo_is_disabled w d \<longleftrightarrow> oget (lo_values w) b = Bool False)"
  using label_fields_rule[OF assms(1,2)] assms(3) by blast

lemma label_fields_start: "lo_reach (lo_user_check ''apply_max'' True (lo_show ''linux'' lo_new))"
  by (rule lo_more[OF lo_more[OF lo_start lo_shown] lo_checked])

theorem label_fields_follow_switch_witness:
  "let w = lo_user_check ''apply_max'' True (lo_show ''linux'' lo_new) in
    (lo_is_disabled w ''max_connections'' \<longleftrightarrow> oget (lo_values w) ''apply_max'' = Bool False)"
  using label_fields_follow_switch[OF label_fields_start, of "''apply_max''" _ "''max_connections''"]
  by (simp add: lo_groups_def Let_def)

section \<open>What OK sends\<close>

lemma oget_field_values:
  assumes "map_of lo_fields n = Some (k, t)"
  shows "oget (lo_field_values w) n = (if lo_is_disabled w n then Undef else oget (lo_values w) n)"
proof -
  have gen: "map_of (List.map (\<lambda>(n, k, t). (n, oget (lo_values w) n)) (List.filter (\<lambda>(n, k, t). \<not> lo_is_disabled w n) fs)) n
      = (if map_of fs n = None \<or> lo_is_disabled w n then None else Some (oget (lo_values w) n))" for fs :: "(string \<times> lo_kind \<times> nat) list"
    by (induction fs) auto
  show ?thesis unfolding oget_def[of "lo_field_values w"] unfolding lo_field_values_def gen by (simp add: assms)
qed

definition send_options :: "lo_window \<Rightarrow> jsval obj \<Rightarrow> lo_window" where
  "send_options w vs = w\<lparr> lo_visible := False, lo_trace := lo_trace w @ [ReqSetLabelOptions (lo_label w) vs] \<rparr>"

lemma lo_on_ok_text:
  assumes "lo_ok w" and "oget (lo_values w) ''auto_add'' = Bool True" and "oget (lo_values w) ''auto_add_trackers'' = Str s"
  shows "lo_on_ok w = Inr (send_options w (if s = [] then lo_field_values w
    else put ''auto_add_trackers'' (Arr 0 (List.map Str (split_char (CHR 0x0A) s))) (lo_field_values w)))"
  using lo_disabled_group(2)[OF assms(1) lo_text_kinds(4), of "''auto_add_trackers''"] assms(2,3)
  by (simp add: lo_on_ok_def oget_field_values[OF lo_text_kinds(2)] send_options_def Let_def)

lemma lo_on_ok_off:
  assumes "lo_ok w" and "oget (lo_values w) ''auto_add'' = Bool False"
  shows "lo_on_ok w = Inr (send_options w (lo_field_values w))"
  using lo_disabled_group(2)[OF assms(1) lo_text_kinds(4), of "''auto_add_trackers''"] assms(2)
  by (simp add: lo_on_ok_def oget_field_values[OF lo_text_kinds(2)] send_options_def Let_def)

text \<open>What a field is sent as: the trackers as one entry per line.\<close>

definition sent_as :: "string \<Rightarrow> jsval \<Rightarrow> jsval" where
  "sent_as n v = (case v of
       Str s \<Rightarrow> if n = ''auto_add_trackers'' \<and> s \<noteq> [] then Arr 0 (List.map Str (split_char (CHR 0x0A) s)) else v
     | _ \<Rightarrow> v)"

lemma sent_as_other: "n \<noteq> ''auto_add_trackers'' \<Longrightarrow> sent_as n v = v"
  by (simp add: sent_as_def split: jsval.split)

lemma lo_on_ok_sends:
  assumes "lo_ok w" and "lo_texts w" and "3 \<in> set (lo_rendered w) \<or> oget (lo_values w) ''auto_add'' = Bool False"
  obtains vs where "lo_on_ok w = Inr (send_options w vs)"
    and "\<And>n. n \<noteq> ''auto_add_trackers'' \<Longrightarrow> oget vs n = oget (lo_field_values w) n"
    and "oget vs ''auto_add_trackers'' = sent_as ''auto_add_trackers'' (oget (lo_field_values w) ''auto_add_trackers'')"
proof (cases "oget (lo_values w) ''auto_add'' = Bool True")
  case True
  then have "3 \<in> set (lo_rendered w)" using assms(3) by auto
  then obtain s where s: "oget (lo_values w) ''auto_add_trackers'' = Str s" using assms(2) by (auto simp: lo_text_fields)
  moreover have "\<not> lo_is_disabled w ''auto_add_trackers''"
    using lo_disabled_group(2)[OF assms(1) lo_text_kinds(4), of "''auto_add_trackers''"] True by simp
  ultimately have "oget (lo_field_values w) ''auto_add_trackers'' = Str s"
    by (simp add: oget_field_values[OF lo_text_kinds(2)])
  then show ?thesis
    using lo_on_ok_text[OF assms(1) True s] by (cases "s = []") (auto intro!: that simp: sent_as_def)
next
  case False
  then have off: "oget (lo_values w) ''auto_add'' = Bool False"
    using assms(1) lo_text_kinds(3) unfolding lo_ok_iff by blast
  have "lo_is_disabled w ''auto_add_trackers''"
    using lo_disabled_group(2)[OF assms(1) lo_text_kinds(4), of "''auto_add_trackers''"] False by simp
  then show ?thesis using lo_on_ok_off[OF assms(1) off]
    by (intro that) (auto simp: sent_as_def oget_field_values[OF lo_text_kinds(2)])
qed

text \<open>C27: OK sends for the label every switch, and the fields of the groups whose switch is on, with the values of
  the form, and hides the window; the trackers, when they are shown as text, become one entry per line.\<close>

theorem label_ok_sends:
  assumes "lo_reach w" and "3 \<in> set (lo_rendered w) \<or> oget (lo_values w) ''auto_add'' = Bool False"
  shows "\<exists>vs. lo_on_ok w = Inr (send_options w vs)
    \<and> (\<forall>(b, ds) \<in> set lo_groups. oget vs b = oget (lo_values w) b
        \<and> (\<forall>d \<in> set ds. oget vs d = (if oget (lo_values w) b = Bool False then Undef else sent_as d (oget (lo_values w) d))))"
proof -
  have inv: "lo_ok w" "lo_texts w" using lo_reach_inv[OF assms(1)] by (simp_all add: lo_inv_def)
  obtain vs where vs: "lo_on_ok w = Inr (send_options w vs)"
    "\<And>n. n \<noteq> ''auto_add_trackers'' \<Longrightarrow> oget vs n = oget (lo_field_values w) n"
    "oget vs ''auto_add_trackers'' = sent_as ''auto_add_trackers'' (oget (lo_field_values w) ''auto_add_trackers'')"
    using lo_on_ok_sends[OF inv assms(2)] by blast
  have all: "oget vs n = sent_as n (oget (lo_field_values w) n)" for n
    using vs(2,3) by (cases "n = ''auto_add_trackers''") (simp_all add: sent_as_other)
  have "oget vs b = oget (lo_values w) b
      \<and> (\<forall>d \<in> set ds. oget vs d = (if oget (lo_values w) b = Bool False then Undef else sent_as d (oget (lo_values w) d)))"
    if g: "(b, ds) \<in> set lo_groups" for b ds
  proof -
    have fs: "\<forall>p \<in> set lo_groups. \<forall>n \<in> insert (fst p) (set (snd p)). \<exists>x. map_of lo_fields n = Some x"
      by (simp add: lo_groups_def lo_fields_def)
    have names: "\<exists>k t. map_of lo_fields n = Some (k, t)" if "n = b \<or> n \<in> set ds" for n
      using bspec[OF fs g] that by auto
    have b: "oget (lo_field_values w) b = oget (lo_values w) b"
      using names[of b] label_fields_rule(1)[OF assms(1) g] by (auto simp: oget_field_values)
    have "\<forall>p \<in> set lo_groups. fst p \<noteq> ''auto_add_trackers''" by (simp add: lo_groups_def)
    then have "b \<noteq> ''auto_add_trackers''" using g by auto
    then have "oget vs b = oget (lo_values w) b" using vs(2) b by simp
    moreover have "oget vs d = (if oget (lo_values w) b = Bool False then Undef else sent_as d (oget (lo_values w) d))"
      if in_group: "d \<in> set ds" for d
    proof -
      obtain k t where "map_of lo_fields d = Some (k, t)" using names[of d] in_group by auto
      then show ?thesis
        using label_fields_rule(2)[OF assms(1) g in_group] oget_field_values[of d k t w]
        unfolding all[of d] by (cases "oget (lo_values w) b = Bool False") (simp_all add: sent_as_def[of d Undef])
    qed
    ultimately show ?thesis by blast
  qed
  then show ?thesis using vs(1) by (intro exI[of _ vs] conjI ballI) (auto split: prod.split)
qed

theorem label_ok_sends_witness:
  "let w = lo_show ''linux'' lo_new in \<exists>vs. lo_on_ok w = Inr (send_options w vs)"
proof -
  have "lo_reach (lo_show ''linux'' lo_new)" by (rule lo_more[OF lo_start lo_shown])
  moreover have "oget (lo_values (lo_show ''linux'' lo_new)) ''auto_add'' = Bool False" by code_simp
  ultimately show ?thesis using label_ok_sends[of "lo_show ''linux'' lo_new"] by (auto simp: Let_def)
qed

section \<open>Trackers of a label\<close>

lemma lo_got_values:
  assumes "wf_obj options"
  shows "oget (lo_values (lo_got_options options w)) n = (case map_of options n of None \<Rightarrow> oget (lo_values w) n
    | Some v \<Rightarrow> oget (lo_values (lo_set_value n v w)) n)
    \<and> lo_rendered (lo_got_options options w) = lo_rendered w"
  using assms unfolding lo_got_options_def
proof (induction options arbitrary: w)
  case (Cons kv options)
  obtain k v where kv: "kv = (k, v)" by (cases kv)
  have "wf_obj options" and "map_of options k = None"
    using Cons.prems kv by (auto simp: wf_obj_def map_of_eq_None_iff)
  then show ?case using Cons.IH[of "lo_set_value k v w"] kv
    by (auto simp: lo_values_set_value split: option.splits lo_kind.splits)
qed simp

lemma join_str_absent: "(\<And>x. x \<in> set xs \<Longrightarrow> d \<notin> set x) \<Longrightarrow> d \<notin> set sep \<Longrightarrow> d \<notin> set (join_str sep xs)"
  by (induction sep xs rule: join_str.induct) auto

text \<open>The options of a label with trackers cannot be saved as they are: until the tab Trackers has been shown
  the field holds the list itself and OK throws a TypeError; once it has, the list is shown joined with commas
  and sent as a single tracker.\<close>

theorem label_trackers_lost:
  assumes "lo_reach w" and "wf_obj options" and "map_of options ''auto_add'' = Some (Bool True)"
    and "map_of options ''auto_add_trackers'' = Some (Arr r (List.map Str xs))" and "xs \<noteq> []"
    and "\<forall>x \<in> set xs. x \<noteq> [] \<and> CHR 0x0A \<notin> set x"
  shows "(3 \<notin> set (lo_rendered w) \<longrightarrow> lo_on_ok (lo_got_options options w) = Inl TypeError)
    \<and> (3 \<in> set (lo_rendered w) \<longrightarrow> (\<exists>vs. lo_on_ok (lo_got_options options w) = Inr (send_options (lo_got_options options w) vs)
        \<and> oget vs ''auto_add_trackers'' = Arr 0 [Str (join_str '','' xs)]))"
proof -
  let ?w = "lo_got_options options w"
  have reach: "lo_reach ?w" by (rule lo_more[OF assms(1) lo_reply])
  have ok: "lo_ok ?w" using lo_reach_inv[OF reach] by (simp add: lo_inv_def)
  have on: "oget (lo_values ?w) ''auto_add'' = Bool True"
    using lo_got_values[OF assms(2)] assms(3) by (simp add: lo_values_set_value lo_text_kinds box_value_def)
  have enabled: "\<not> lo_is_disabled ?w ''auto_add_trackers''"
    using lo_disabled_group(2)[OF ok lo_text_kinds(4), of "''auto_add_trackers''"] on by simp
  have shown: "field_text (Arr r (List.map Str xs)) = join_str '','' xs"
    using assms(5) by (simp add: field_text_def comp_def)
  have val: "oget (lo_values ?w) ''auto_add_trackers''
      = (if 3 \<in> set (lo_rendered w) then Str (join_str '','' xs) else Arr r (List.map Str xs))"
    using lo_got_values[OF assms(2)] assms(4) shown by (simp add: lo_values_set_value lo_text_kinds)
  obtain y ys where "xs = y # ys" using assms(5) by (cases xs) auto
  then have ne: "join_str '','' xs \<noteq> []" using assms(6) by (cases ys) auto
  have "CHR 0x0A \<notin> set (join_str '','' xs)" using assms(6) by (intro join_str_absent) auto
  then have split: "split_char (CHR 0x0A) (join_str '','' xs) = [join_str '','' xs]" by (rule split_char_absent)
  show ?thesis
    using lo_on_ok_text[OF ok on] val ne enabled
    by (auto simp: split lo_on_ok_def[of ?w] Let_def oget_field_values[OF lo_text_kinds(2)])
qed

theorem label_trackers_lost_witness:
  "lo_on_ok (lo_got_options [(''auto_add'', Bool True), (''auto_add_trackers'', Arr 7 [Str ''a.org'', Str ''b.org''])] (lo_show ''linux'' lo_new))
    = Inl TypeError"
proof -
  have "lo_reach (lo_show ''linux'' lo_new)" by (rule lo_more[OF lo_start lo_shown])
  moreover have "3 \<notin> set (lo_rendered (lo_show ''linux'' lo_new))" by code_simp
  ultimately show ?thesis
    using label_trackers_lost[of "lo_show ''linux'' lo_new" "[(''auto_add'', Bool True), (''auto_add_trackers'', Arr 7 [Str ''a.org'', Str ''b.org''])]"
        7 "[''a.org'', ''b.org'']"] by (simp add: wf_obj_def)
qed



section \<open>The menus of the plugin\<close>

lemma each_put_nodup:
  "distinct (List.map fst (ob @ xs)) \<Longrightarrow> each_do (\<lambda>(n, c). put n c) xs ob = ob @ xs"
proof (induction xs arbitrary: ob)
  case (Cons x xs)
  obtain n c where x: "x = (n, c)" by (cases x)
  have "n \<notin> fst ` set ob \<Longrightarrow> put n c ob = ob @ [(n, c)]" by (induction ob) auto
  then show ?case
    using Cons.IH[of "ob @ [(n, c)]"] Cons.prems x by auto
qed simp

lemma set_js_keys: "set (js_keys ob) = {k. has_key ob k}"
  by (auto simp: js_keys_def set_keys_of)

lemma distinct_js_keys: "wf_obj ob \<Longrightarrow> distinct (js_keys ob)"
  by (auto simp: js_keys_def wf_obj_def keys_of_def distinct_sort)

lemma set_label_names: "set (label_names ob) = {k. has_key ob k \<and> k \<noteq> [] \<and> k \<noteq> ''All''}"
  by (auto simp: label_names_def set_js_keys)

lemma each_const: "each_do (\<lambda>_. f) xs s = (f ^^ length xs) s"
  by (induction xs arbitrary: s) (simp_all add: funpow_swap1)

lemma shown_all: "shown_states True states = states"
  by (simp add: shown_states_def)

lemma set_filter_steps: "n > 0 \<Longrightarrow> lp_show_zero ((lp_set_filter ^^ n) s)"
  by (cases n) (simp_all add: lp_set_filter_def)

lemma set_filter_items [simp]: "lp_after ((lp_set_filter ^^ n) s) = lp_after s"
  by (induction n) (simp_all add: lp_set_filter_def)

lemma update_menu_steps:
  "n > 0 \<Longrightarrow> lp_items ((lp_update_torrent_menu states ^^ n) s) = (''No Label'', []) # List.map (\<lambda>k. (k, k)) (label_names states)"
  by (cases n) (simp_all add: lp_update_torrent_menu_def)

text \<open>With the plugin enabled before the filter is there, the panel of labels lists every label of the reply, also
  those without torrents, and the submenu of the torrent menu offers \<open>No Label\<close> and exactly the labels of the reply.\<close>

theorem label_panel_and_menu:
  assumes "wf_obj states" and "lp_panel_created tr zero ''label'' states (lp_on_enable None s0) = (p, s)"
  shows "panel_ok p \<and> (\<forall>n. has_key (fp_rows p) n \<longleftrightarrow> has_key states n)
    \<and> List.map snd (lp_items s) = [] # label_names states
    \<and> set (label_names states) = {n. has_key states n \<and> n \<noteq> [] \<and> n \<noteq> ''All''}"
proof -
  let ?e = "lp_on_enable None s0"
  let ?s = "(lp_set_filter ^^ length (lp_create ?e)) (?e\<lparr> lp_show_zero := False, lp_handlers := 0 \<rparr>)"
  have fc: "lp_on_filter_create ''label'' = lp_set_filter" by (rule ext) (simp add: lp_on_filter_create_def)
  have len: "length (lp_create ?e) > 0" "length (lp_after ?e) > 0" by (simp_all add: lp_on_enable_def Let_def)
  have p: "p = panel_update_states tr True states (panel_new tr ''label'')"
    and s: "s = each_do (\<lambda>_. lp_on_after_filter_create p) (lp_after ?s) ?s"
    using assms(2) set_filter_steps[OF len(1)] by (auto simp: lp_panel_created_def Let_def fc each_const)
  note spec = panel_update_spec[OF panel_ok_new p]
  have "fp_states p = states"
    using spec(3) each_put_nodup[of "[]" states] assms(1) by (simp add: wf_obj_def)
  then have "lp_on_after_filter_create p = lp_update_torrent_menu states"
    using spec(4) by (intro ext) (simp add: lp_on_after_filter_create_def panel_get_states_def)
  then have "lp_items s = (''No Label'', []) # List.map (\<lambda>k. (k, k)) (label_names states)"
    using update_menu_steps[OF len(2)] by (simp add: s each_const)
  then show ?thesis using spec(1,2) by (simp add: shown_all set_label_names comp_def)
qed

definition sample_labels :: "jsval obj" where
  "sample_labels = [(''All'', JInt 3), ([], JInt 3), (''linux'', JInt 0)]"

theorem label_panel_and_menu_witness:
  "has_key (fp_rows (fst (lp_panel_created id False ''label'' sample_labels (lp_on_enable None lp_new)))) ''linux''"
proof -
  have wf: "wf_obj sample_labels" and key: "has_key sample_labels ''linux''"
    by (simp_all add: sample_labels_def wf_obj_def has_key_def)
  show ?thesis
    using label_panel_and_menu[OF wf surjective_pairing, of id False lp_new, THEN conjunct2, THEN conjunct1] key by simp
qed

lemma each_put_keys:
  "wf_obj ob \<Longrightarrow> wf_obj (each_do (\<lambda>k. put k v) ks ob)
    \<and> (\<forall>j. has_key (each_do (\<lambda>k. put k v) ks ob) j \<longleftrightarrow> j \<in> set ks \<or> has_key ob j)"
  by (induction ks arbitrary: ob) (auto simp: wf_obj_put has_key_put)

lemma lower_char_not_A: "lower_char c \<noteq> CHR ''A''"
proof (cases "65 \<le> (of_char c :: int) \<and> (of_char c :: int) \<le> 90")
  case True
  have "(of_char (char_of (of_char c + 32 :: int) :: char) :: int) = of_char c + 32" using True by simp
  moreover have "(of_char (CHR ''A'') :: int) = 65" by simp
  ultimately show ?thesis using True unfolding lower_char_def Let_def by (metis add.commute add_le_same_cancel1 not_numeral_le_zero)
next
  case False
  then show ?thesis by (auto simp: lower_char_def Let_def)
qed

lemma lower_all: "lower l \<noteq> ''All''"
  by (cases l) (simp_all add: lower_def lower_char_not_A)

lemma str_lt_weak: "weak_order str_lt A"
  unfolding weak_order_def by (metis str_lt_irrefl str_lt_linear str_lt_trans)

text \<open>After a label was added the submenu offers \<open>No Label\<close>, the labels of the panel and the new one in lower
  case, each once, in the order of their code units (those that are array indices first).\<close>

theorem label_added_menu:
  assumes "label \<noteq> []"
  shows "let items = List.map snd (lp_items (lp_on_label_added p label s)) in
    distinct items \<and> set items = insert [] (insert (lower label) (set (label_names (panel_get_states p))))
    \<and> sorted_wrt (\<lambda>a b. \<not> str_lt b a) (List.filter (\<lambda>k. \<not> index_key k) items)"
proof -
  define names where "names = stable_sort str_lt (label_names (panel_get_states p) @ [lower label])"
  define ob where "ob = each_do (\<lambda>k. put k (JInt 0)) names []"
  have set_names: "set names = insert (lower label) (set (label_names (panel_get_states p)))"
    by (simp add: names_def)
  have ob: "wf_obj ob" "\<And>j. has_key ob j \<longleftrightarrow> j \<in> set names"
    using each_put_keys[of "[]" "JInt 0" names] by (auto simp: ob_def has_key_def)
  have items: "List.map snd (lp_items (lp_on_label_added p label s)) = [] # label_names ob"
    by (simp add: lp_on_label_added_def lp_update_torrent_menu_def names_def ob_def Let_def comp_def)
  have "lower label \<noteq> []" using assms by (simp add: lower_def)
  then have "set (label_names ob) = insert (lower label) (set (label_names (panel_get_states p)))"
    using set_names lower_all[of label] by (auto simp: set_label_names ob(2))
  moreover have "distinct (label_names ob)" "[] \<notin> set (label_names ob)"
    using distinct_js_keys[OF ob(1)] by (simp_all add: label_names_def)
  moreover have "sorted_wrt (\<lambda>a b. \<not> str_lt b a) (List.filter (\<lambda>k. \<not> index_key k) ([] # label_names ob))"
  proof -
    have "sorted_wrt (\<lambda>a b. \<not> str_lt b a) names"
      unfolding names_def by (rule sorted_stable_sort) (rule str_lt_weak)
    moreover have "\<exists>ks. keys_of ob = ks \<and> sorted_wrt (\<lambda>a b. \<not> str_lt b a) ks"
    proof -
      have "sorted_wrt (\<lambda>a b. \<not> str_lt b a) (keys_of ob' @ ks) \<Longrightarrow>
          sorted_wrt (\<lambda>a b. \<not> str_lt b a) (keys_of (each_do (\<lambda>k. put k (JInt 0)) ks ob'))" for ks ob'
      proof (induction ks arbitrary: ob')
        case (Cons k ks)
        have "sorted_wrt (\<lambda>a b. \<not> str_lt b a) (keys_of (put k (JInt 0) ob') @ ks)"
          using Cons.prems by (auto simp: keys_of_put sorted_wrt_append)
        then show ?case using Cons.IH by simp
      qed simp
      from this[of "[]" names] show ?thesis using calculation by (simp add: ob_def keys_of_def)
    qed
    ultimately have "sorted_wrt (\<lambda>a b. \<not> str_lt b a) (keys_of ob)" by blast
    then have "sorted_wrt (\<lambda>a b. \<not> str_lt b a) (List.filter (\<lambda>k. \<not> index_key k) (label_names ob))"
      by (simp add: label_names_def js_keys_def sorted_wrt_filter filter_empty_conv)
    then show ?thesis by (simp add: index_key_def)
  qed
  ultimately show ?thesis by (simp add: items Let_def)
qed

theorem label_added_menu_witness:
  "distinct (List.map snd (lp_items (lp_on_label_added (panel_new id ''label'') ''Linux'' lp_new)))"
  using label_added_menu[of "''Linux''" "panel_new id ''label''" lp_new] by (simp add: Let_def)

text \<open>A click on a label asks for it for every selected torrent in order, and polls after the answer about the last.\<close>

theorem label_click_requests:
  "lp_trace (lp_on_torrent_menu_click ids label s) = lp_trace s @ List.map (\<lambda>i. ReqSetTorrentLabel i label False) (butlast ids)
    @ (if ids = [] then [] else [ReqSetTorrentLabel (last ids) label True])"
proof -
  have "label_requests label ids = List.map (\<lambda>i. ReqSetTorrentLabel i label False) (butlast ids)
      @ (if ids = [] then [] else [ReqSetTorrentLabel (last ids) label True])"
    by (induction label ids rule: label_requests.induct) auto
  then show ?thesis by (simp add: lp_on_torrent_menu_click_def lp_emit_def)
qed

text \<open>Disabling the plugin takes none of its listeners off the sidebar, since \<open>un\<close> is called without their
  scope: each time it is enabled without a panel of labels there is one more of each, and a panel created
  while the plugin is disabled still gets its handler and its context menu.\<close>

theorem label_listeners_stay:
  assumes "\<forall>l \<in> set (lp_create s). snd l = ThePlugin" and "\<forall>l \<in> set (lp_after s). snd l = ThePlugin"
  shows "lp_create (lp_on_disable (lp_on_enable None s)) = lp_create s @ [(OnFilterCreate, ThePlugin)]
    \<and> lp_after (lp_on_disable (lp_on_enable None s)) = lp_after s @ [(OnAfterFilterCreate, ThePlugin)]
    \<and> lp_handlers (snd (lp_panel_created tr zero ''label'' states (lp_on_disable (lp_on_enable None s)))) = length (lp_create s) + 1"
proof -
  have absent: "x \<notin> set ls \<Longrightarrow> ext_un x ls = ls" for x :: "lp_fn \<times> lp_scope" and ls
  proof -
    have "x \<notin> set ys \<Longrightarrow> remove_first x ys = ys" for ys by (induction ys) auto
    then show "x \<notin> set ls \<Longrightarrow> ext_un x ls = ls" by (simp add: ext_un_def)
  qed
  let ?d = "lp_on_disable (lp_on_enable None s)"
  have c: "lp_create ?d = lp_create s @ [(OnFilterCreate, ThePlugin)]"
    and a: "lp_after ?d = lp_after s @ [(OnAfterFilterCreate, ThePlugin)]"
    using assms by (fastforce simp: lp_on_disable_def lp_on_enable_def Let_def intro!: absent)+
  have fc: "lp_on_filter_create ''label'' = lp_set_filter" by (rule ext) (simp add: lp_on_filter_create_def)
  have handlers: "lp_handlers ((lp_set_filter ^^ n) t) = lp_handlers t + n" for n t
    by (induction n) (simp_all add: lp_set_filter_def)
  have after: "lp_handlers ((lp_on_after_filter_create q ^^ n) t) = lp_handlers t" for q n t
  proof (induction n)
    case (Suc n)
    have "lp_handlers (lp_on_after_filter_create q u) = lp_handlers u" for u
      by (simp add: lp_on_after_filter_create_def lp_update_torrent_menu_def)
    then show ?case using Suc by simp
  qed simp
  have "lp_handlers (lp_set_filter t) = lp_handlers t + 1" for t by (simp add: lp_set_filter_def)
  then show ?thesis using c a by (simp add: lp_panel_created_def Let_def fc each_const handlers after)
qed

theorem label_listeners_stay_witness:
  "lp_create (lp_on_disable (lp_on_enable None lp_new)) = [(OnFilterCreate, ThePlugin)]"
  using label_listeners_stay[of lp_new] by (simp add: lp_new_def)

end
