(* ===== verification/PluginPages.thy ===== *)
theory PluginPages
  imports ExtForm Formatters Preferences
begin

text \<open>
  The preference pages of the plugins Notifications, Blocklist, Execute and Extractor
  (plugins/*/data/*.js): what they show for the replies of the daemon, what Apply sends, and
  the operations of their lists. Configurations have the types of the daemon's defaults
  (core.py of each plugin).
\<close>

section \<open>Notifications\<close>

record noti_config =
  nc_enabled :: bool
  nc_host :: string
  nc_port :: int
  nc_user :: string
  nc_pass :: string
  nc_from :: string
  nc_tls :: bool
  nc_recipients :: "string list"
  nc_events :: "string list"

datatype plugin_request =
    ReqHandledEvents
  | ReqGetNoti
  | ReqSetNoti noti_config
  | ReqBlStatus
  | ReqGetBl
  | ReqSetBl string int bool "jsval list"
  | ReqCheckImport bool
  | ReqGetCommands
  | ReqAddCommand jsval string
  | ReqSaveCommand string jsval string
  | ReqRemoveCommand string
  | ReqGetExtractor
  | ReqSetExtractor string bool

record noti_page =
  np_enable :: bool
  np_host :: string
  np_port :: jsval
  np_user :: string
  np_pass :: string
  np_from :: string
  np_tls :: bool
  np_disabled :: "(string \<times> bool) list"
  np_recipients :: edit_grid
  np_subs :: "(string \<times> bool) list"
  np_trace :: "plugin_request list"

definition noti_parts :: "string list" where
  "noti_parts = [''host'', ''port'', ''username'', ''password'', ''from'', ''enable_tls_ssl'', ''recipients'']"

definition np_new :: noti_page where
  "np_new = \<lparr> np_enable = False, np_host = [], np_port = Str [], np_user = [], np_pass = [], np_from = [], np_tls = False,
     np_disabled = List.map (\<lambda>n. (n, True)) noti_parts, np_recipients = eg_new, np_subs = [], np_trace = [] \<rparr>"

definition np_emit :: "plugin_request \<Rightarrow> noti_page \<Rightarrow> noti_page" where
  "np_emit r p = p\<lparr> np_trace := np_trace p @ [r] \<rparr>"

definition np_set_smtp_disabled :: "bool \<Rightarrow> noti_page \<Rightarrow> noti_page" where
  "np_set_smtp_disabled dis p = p\<lparr> np_disabled := each_do (\<lambda>n. put n dis) noti_parts (np_disabled p) \<rparr>"

text \<open>The box Enabled, set by the user or a reply; \<open>check\<close> is fired when it changes.\<close>

definition np_set_enable :: "bool \<Rightarrow> noti_page \<Rightarrow> noti_page" where
  "np_set_enable b p = (if np_enable p = b then p else np_set_smtp_disabled (\<not> b) (p\<lparr> np_enable := b \<rparr>))"

definition np_update_config :: "noti_page \<Rightarrow> noti_page" where
  "np_update_config p = np_emit ReqGetNoti (np_emit ReqHandledEvents p)"

definition np_on_events :: "(string \<times> string) list \<Rightarrow> noti_page \<Rightarrow> noti_page" where
  "np_on_events events p = p\<lparr> np_subs := List.map (\<lambda>(n, d). (n, False)) events \<rparr>"

text \<open>\<open>setSub\<close>: the first event that begins with the name, in any case; \<open>False\<close> is a TypeError when there is none.\<close>

definition np_set_sub :: "string \<Rightarrow> noti_page \<Rightarrow> noti_page \<times> bool" where
  "np_set_sub name p =
     (if name = [] then (p, False)
      else (case find_prefix name (List.map fst (np_subs p)) of None \<Rightarrow> (p, False)
        | Some i \<Rightarrow> (p\<lparr> np_subs := (np_subs p)[i := (fst (np_subs p ! i), True)] \<rparr>, True)))"

fun np_set_subs :: "string list \<Rightarrow> noti_page \<Rightarrow> noti_page \<times> bool" where
  "np_set_subs [] p = (p, True)"
| "np_set_subs (n # ns) p = (case np_set_sub n p of (p, fine) \<Rightarrow> if fine then np_set_subs ns p else (p, False))"

definition np_on_config :: "noti_config \<Rightarrow> noti_page \<Rightarrow> noti_page \<times> bool" where
  "np_on_config c p = np_set_subs (nc_events c)
     ((np_set_smtp_disabled (\<not> nc_enabled c) (np_set_enable (nc_enabled c) p))\<lparr>
        np_host := nc_host c, np_port := JInt (nc_port c), np_user := nc_user c, np_pass := nc_pass c,
        np_from := nc_from c, np_tls := nc_tls c,
        np_recipients := eg_load (List.map Str (nc_recipients c)) (np_recipients p) \<rparr>)"

text \<open>A click into the column Email of a row.\<close>

definition np_on_cell_click :: "nat \<Rightarrow> noti_page \<Rightarrow> noti_page" where
  "np_on_cell_click i p = (if i < length (np_subs p)
     then p\<lparr> np_subs := (np_subs p)[i := (fst (np_subs p ! i), \<not> snd (np_subs p ! i))] \<rparr> else p)"

definition jsval_text :: "jsval \<Rightarrow> string" where
  "jsval_text v = (case v of Str s \<Rightarrow> s | _ \<Rightarrow> [])"

text \<open>The port is a number field: a whole number, or empty, which \<open>Number\<close> makes 0.\<close>

definition port_number :: "jsval \<Rightarrow> int" where
  "port_number v = (case to_num v of Fin x \<Rightarrow> \<lfloor>x\<rfloor> | _ \<Rightarrow> 0)"

definition np_config :: "noti_page \<Rightarrow> noti_config" where
  "np_config p = \<lparr> nc_enabled = np_enable p, nc_host = np_host p, nc_port = port_number (np_port p), nc_user = np_user p,
     nc_pass = np_pass p, nc_from = np_from p, nc_tls = np_tls p,
     nc_recipients = List.map jsval_text (eg_values (np_recipients p)),
     nc_events = List.map fst (List.filter snd (np_subs p)) \<rparr>"

definition np_on_apply :: "noti_page \<Rightarrow> noti_page" where
  "np_on_apply p = np_emit (ReqSetNoti (np_config p)) p"

definition np_on_ok :: "noti_page \<Rightarrow> noti_page" where
  "np_on_ok p = np_on_apply p"

definition np_on_add_click :: "noti_page \<Rightarrow> noti_page" where
  "np_on_add_click p = p\<lparr> np_recipients := eg_add (np_recipients p) \<rparr>"

definition np_on_remove_click :: "noti_page \<Rightarrow> noti_page" where
  "np_on_remove_click p = p\<lparr> np_recipients := eg_remove (np_recipients p) \<rparr>"

section \<open>Blocklist\<close>

record bl_status =
  bs_state :: string
  bs_up_to_date :: bool
  bs_progress :: jsnum
  bs_num_blocked :: int
  bs_size :: jsval
  bs_date :: jsval
  bs_type :: string
  bs_url :: string

record bl_page =
  bp_url :: string
  bp_days :: int
  bp_on_start :: bool
  bp_whitelist :: edit_grid
  bp_check_enabled :: bool
  bp_force_enabled :: bool
  bp_tick :: bool
  bp_info :: bool
  bp_progress :: bool
  bp_progress_value :: jsnum
  bp_progress_text :: string
  bp_labels :: "string list"
  bp_running :: bool
  bp_trace :: "plugin_request list"

definition bp_new :: bl_page where
  "bp_new = \<lparr> bp_url = [], bp_days = 4, bp_on_start = False, bp_whitelist = eg_new, bp_check_enabled = True,
     bp_force_enabled = True, bp_tick = True, bp_info = True, bp_progress = False, bp_progress_value = Fin 0,
     bp_progress_text = [], bp_labels = [[], [], [], []], bp_running = True, bp_trace = [] \<rparr>"

definition bp_emit :: "plugin_request \<Rightarrow> bl_page \<Rightarrow> bl_page" where
  "bp_emit r p = p\<lparr> bp_trace := bp_trace p @ [r] \<rparr>"

text \<open>The four labels: size, date, type and the start of the address.\<close>

definition bl_labels :: "(int \<Rightarrow> int) \<Rightarrow> bl_status \<Rightarrow> string list" where
  "bl_labels tz st = [fmt_size (bs_size st) False, fmt_date tz (bs_date st), bs_type st, take 40 (bs_url st) @ ''...'']"

text \<open>The task asks for the status every two seconds until the page is destroyed.\<close>

definition bp_task :: "bl_page \<Rightarrow> bl_page" where
  "bp_task p = (if bp_running p then bp_emit ReqBlStatus p else p)"

definition bp_busy :: "bl_page \<Rightarrow> bl_page" where
  "bp_busy p = p\<lparr> bp_info := False, bp_check_enabled := False, bp_tick := False, bp_force_enabled := False, bp_progress := True \<rparr>"

definition bp_on_update :: "(int \<Rightarrow> int) \<Rightarrow> bl_status \<Rightarrow> bl_page \<Rightarrow> bl_page" where
  "bp_on_update tz st p =
     (if bs_state st = ''Downloading'' then (bp_busy p)\<lparr> bp_progress_value := bs_progress st,
        bp_progress_text := ''Downloading '' @ num_to_fixed 2 (num_mul (bs_progress st) (Fin 100)) @ ''%'' \<rparr>
      else if bs_state st = ''Importing'' then (bp_busy p)\<lparr> bp_progress_text := ''Importing '' @ int_str (bs_num_blocked st) \<rparr>
      else if bs_state st = ''Idle'' then p\<lparr> bp_progress := False, bp_check_enabled := True, bp_force_enabled := True,
        bp_tick := bs_up_to_date st, bp_info := True, bp_labels := bl_labels tz st \<rparr>
      else p)"

definition bp_on_apply :: "bl_page \<Rightarrow> bl_page" where
  "bp_on_apply p = bp_emit (ReqSetBl (bp_url p) (bp_days p) (bp_on_start p) (eg_values (bp_whitelist p))) p"

definition bp_on_ok :: "bl_page \<Rightarrow> bl_page" where
  "bp_on_ok p = bp_on_apply p"

definition bp_check_down :: "bl_page \<Rightarrow> bl_page" where
  "bp_check_down p = bp_emit (ReqCheckImport False) (bp_on_apply p)"

definition bp_force_down :: "bl_page \<Rightarrow> bl_page" where
  "bp_force_down p = bp_emit (ReqCheckImport True) (bp_on_apply p)"

definition bp_update_config :: "bl_page \<Rightarrow> bl_page" where
  "bp_update_config p = bp_emit ReqBlStatus (bp_emit ReqGetBl p)"

definition bp_on_config :: "string \<times> int \<times> bool \<times> jsval list \<Rightarrow> bl_page \<Rightarrow> bl_page" where
  "bp_on_config c p = (case c of (url, days, start, ips) \<Rightarrow>
     p\<lparr> bp_url := url, bp_days := days, bp_on_start := start, bp_whitelist := eg_load ips (bp_whitelist p) \<rparr>)"

definition bp_on_status :: "(int \<Rightarrow> int) \<Rightarrow> bl_status \<Rightarrow> bl_page \<Rightarrow> bl_page" where
  "bp_on_status tz st p = p\<lparr> bp_labels := bl_labels tz st \<rparr>"

definition bp_add_ip :: "bl_page \<Rightarrow> bl_page" where
  "bp_add_ip p = p\<lparr> bp_whitelist := eg_add (bp_whitelist p) \<rparr>"

definition bp_delete_ip :: "bl_page \<Rightarrow> bl_page" where
  "bp_delete_ip p = p\<lparr> bp_whitelist := eg_remove (bp_whitelist p) \<rparr>"

definition bp_on_destroy :: "bl_page \<Rightarrow> bl_page" where
  "bp_on_destroy p = p\<lparr> bp_running := False \<rparr>"

section \<open>Execute\<close>

text \<open>The windows hold an event (a combo box, undefined at first) and a command.\<close>

record exec_window =
  ew_event :: jsval
  ew_command :: string
  ew_visible :: bool

definition ew_new :: exec_window where
  "ew_new = \<lparr> ew_event = Str [], ew_command = [], ew_visible = False \<rparr>"

record exec_page =
  xp_list :: list_page
  xp_add :: exec_window
  xp_edit :: exec_window
  xp_edit_id :: "string option"
  xp_trace :: "plugin_request list"

definition xp_new :: exec_page where
  "xp_new = \<lparr> xp_list = list_new, xp_add = ew_new, xp_edit = ew_new, xp_edit_id = None, xp_trace = [] \<rparr>"

definition xp_emit :: "plugin_request \<Rightarrow> exec_page \<Rightarrow> exec_page" where
  "xp_emit r p = p\<lparr> xp_trace := xp_trace p @ [r] \<rparr>"

definition xp_update_commands :: "exec_page \<Rightarrow> exec_page" where
  "xp_update_commands p = xp_emit ReqGetCommands p"

text \<open>The reply has an array of id, event and command per row.\<close>

definition xp_on_commands :: "(string \<times> string \<times> string) list \<Rightarrow> exec_page \<Rightarrow> exec_page" where
  "xp_on_commands commands p = p\<lparr> xp_list := list_load
     (List.map (\<lambda>(i, e, n). (i, [(''event'', Str e), (''name'', Str n)])) commands) (xp_list p) \<rparr>"

definition event_text :: "string \<Rightarrow> string" where
  "event_text e = (case map_of [(''complete'', ''Torrent Complete''), (''added'', ''Torrent Added''), (''removed'', ''Torrent Removed'')] e of
     None \<Rightarrow> e | Some t \<Rightarrow> t)"

definition xp_on_add_click :: "exec_page \<Rightarrow> exec_page" where
  "xp_on_add_click p = p\<lparr> xp_add := (xp_add p)\<lparr> ew_visible := True \<rparr> \<rparr>"

text \<open>Add in its window; its fields keep their values.\<close>

definition xw_add_click :: "exec_page \<Rightarrow> exec_page" where
  "xw_add_click p = (xp_emit (ReqAddCommand (ew_event (xp_add p)) (ew_command (xp_add p))) p)\<lparr> xp_add := (xp_add p)\<lparr> ew_visible := False \<rparr> \<rparr>"

definition xp_on_edit_click :: "exec_page \<Rightarrow> exec_page result" where
  "xp_on_edit_click p = (case li_selected (xp_list p) of None \<Rightarrow> Inl TypeError
     | Some i \<Rightarrow> (case map_of (li_rows (xp_list p)) i of None \<Rightarrow> Inl TypeError
       | Some r \<Rightarrow> Inr (p\<lparr> xp_edit_id := Some i,
           xp_edit := \<lparr> ew_event = oget r ''event'', ew_command = field_text (oget r ''name''), ew_visible = True \<rparr> \<rparr>)))"

definition xw_save_click :: "exec_page \<Rightarrow> exec_page" where
  "xw_save_click p = (case xp_edit_id p of None \<Rightarrow> p
     | Some i \<Rightarrow> (xp_emit (ReqSaveCommand i (ew_event (xp_edit p)) (ew_command (xp_edit p))) p)\<lparr>
         xp_edit := (xp_edit p)\<lparr> ew_visible := False \<rparr> \<rparr>)"

definition xp_on_remove_click :: "exec_page \<Rightarrow> exec_page result" where
  "xp_on_remove_click p = (case li_selected (xp_list p) of None \<Rightarrow> Inl TypeError
     | Some i \<Rightarrow> Inr (xp_emit (ReqRemoveCommand i) p))"

definition xp_on_selection_change :: "string option \<Rightarrow> exec_page \<Rightarrow> exec_page" where
  "xp_on_selection_change x p = p\<lparr> xp_list := list_select x (xp_list p) \<rparr>"

definition xp_on_show :: "exec_page \<Rightarrow> exec_page" where
  "xp_on_show p = xp_update_commands p"

section \<open>Extractor\<close>

record extractor_page =
  ep_path :: string
  ep_folder :: bool
  ep_trace :: "plugin_request list"

definition ep_on_apply :: "extractor_page \<Rightarrow> extractor_page" where
  "ep_on_apply p = p\<lparr> ep_trace := ep_trace p @ [ReqSetExtractor (ep_path p) (ep_folder p)] \<rparr>"

definition ep_on_ok :: "extractor_page \<Rightarrow> extractor_page" where
  "ep_on_ok p = ep_on_apply p"

definition ep_update_config :: "extractor_page \<Rightarrow> extractor_page" where
  "ep_update_config p = p\<lparr> ep_trace := ep_trace p @ [ReqGetExtractor] \<rparr>"

definition ep_on_config :: "string \<times> bool \<Rightarrow> extractor_page \<Rightarrow> extractor_page" where
  "ep_on_config c p = (case c of (path, folder) \<Rightarrow> p\<lparr> ep_path := path, ep_folder := folder \<rparr>)"

section \<open>The notifications page sends what it received\<close>

text \<open>A subscription finds its own event when no earlier event begins with its name.\<close>

definition finds_itself :: "string list \<Rightarrow> string \<Rightarrow> bool" where
  "finds_itself ns n = (n \<noteq> [] \<and> (case find_prefix n ns of None \<Rightarrow> False | Some i \<Rightarrow> ns ! i = n))"

lemma find_prefix_bound: "find_prefix p xs = Some i \<Longrightarrow> i < length xs"
  by (induction p xs arbitrary: i rule: find_prefix.induct) (auto split: if_splits)

lemma np_set_sub_fields:
  "np_set_sub n p = (q, b) \<Longrightarrow> q = p\<lparr> np_subs := np_subs q \<rparr> \<and> List.map fst (np_subs q) = List.map fst (np_subs p)"
  by (auto simp: np_set_sub_def map_update dest!: find_prefix_bound split: if_splits option.splits)
    (simp add: list_update_same_conv flip: nth_map)

lemma np_set_subs_fields:
  "np_set_subs ns p = (q, b) \<Longrightarrow> q = p\<lparr> np_subs := np_subs q \<rparr> \<and> List.map fst (np_subs q) = List.map fst (np_subs p)"
proof (induction ns p arbitrary: q b rule: np_set_subs.induct)
  case (2 n ns p)
  obtain r f where r: "np_set_sub n p = (r, f)" by (cases "np_set_sub n p")
  note step = np_set_sub_fields[OF r]
  show ?case
  proof (cases f)
    case True
    then have "np_set_subs ns r = (q, b)" using 2(2) r by simp
    then have rest: "q = r\<lparr> np_subs := np_subs q \<rparr>" "List.map fst (np_subs q) = List.map fst (np_subs r)"
      using 2(1)[OF r[symmetric]] True by auto
    have "q = p\<lparr> np_subs := np_subs q \<rparr>" by (subst rest(1), subst conjunct1[OF step]) simp
    then show ?thesis using rest(2) step by simp
  next
    case False
    then show ?thesis using 2(2) r step by simp
  qed
qed simp

lemma np_set_sub_found:
  assumes "finds_itself (List.map fst (np_subs p)) n" and "distinct (List.map fst (np_subs p))"
  shows "np_set_sub n p = (p\<lparr> np_subs := List.map (\<lambda>(m, b). (m, b \<or> m = n)) (np_subs p) \<rparr>, True)"
proof -
  obtain i where i: "find_prefix n (List.map fst (np_subs p)) = Some i" and n: "n \<noteq> []" "List.map fst (np_subs p) ! i = n"
    using assms(1) by (auto simp: finds_itself_def split: option.splits)
  have len: "i < length (np_subs p)" using find_prefix_bound[OF i] by simp
  have "(np_subs p)[i := (fst (np_subs p ! i), True)] = List.map (\<lambda>(m, b). (m, b \<or> m = n)) (np_subs p)"
  proof (rule nth_equalityI)
    fix j assume j: "j < length ((np_subs p)[i := (fst (np_subs p ! i), True)])"
    have "fst (np_subs p ! j) = n \<longleftrightarrow> j = i"
      using assms(2) j len n(2) nth_eq_iff_index_eq[OF assms(2), of j i] by simp
    then show "(np_subs p)[i := (fst (np_subs p ! i), True)] ! j = List.map (\<lambda>(m, b). (m, b \<or> m = n)) (np_subs p) ! j"
      using j len by (cases "np_subs p ! j") (auto simp: nth_list_update)
  qed simp
  then show ?thesis using i n(1) by (simp add: np_set_sub_def)
qed

lemma np_set_subs_found:
  assumes "\<forall>n \<in> set ns. finds_itself (List.map fst (np_subs p)) n" and "distinct (List.map fst (np_subs p))"
  shows "np_set_subs (ns @ ms) p = np_set_subs ms (p\<lparr> np_subs := List.map (\<lambda>(m, b). (m, b \<or> m \<in> set ns)) (np_subs p) \<rparr>)"
  using assms
proof (induction ns arbitrary: p)
  case (Cons n ns)
  let ?q = "p\<lparr> np_subs := List.map (\<lambda>(m, b). (m, b \<or> m = n)) (np_subs p) \<rparr>"
  have keys: "List.map fst (np_subs ?q) = List.map fst (np_subs p)" by (auto simp: comp_def case_prod_unfold)
  have "np_set_sub n p = (?q, True)" using np_set_sub_found[of p n] Cons.prems by simp
  moreover have "np_set_subs (ns @ ms) ?q = np_set_subs ms (?q\<lparr> np_subs := List.map (\<lambda>(m, b). (m, b \<or> m \<in> set ns)) (np_subs ?q) \<rparr>)"
    by (rule Cons.IH) (use Cons.prems keys in \<open>simp_all only:\<close>, auto)
  moreover have "List.map (\<lambda>(m, b). (m, b \<or> m \<in> set ns)) (np_subs ?q) = List.map (\<lambda>(m, b). (m, b \<or> m \<in> set (n # ns))) (np_subs p)"
    by auto
  ultimately show ?case by (simp only: append_Cons np_set_subs.simps prod.case if_True) simp
qed simp

definition noti_valid :: "(string \<times> string) list \<Rightarrow> noti_config \<Rightarrow> bool" where
  "noti_valid events c = (distinct (List.map fst events) \<and> list_all (finds_itself (List.map fst events)) (nc_events c)
     \<and> nc_events c = List.filter (\<lambda>n. n \<in> set (nc_events c)) (List.map fst events) \<and> 0 \<le> nc_port c \<and> nc_port c \<le> 65535)"

lemma port_number_JInt [simp]: "port_number (JInt i) = i"
  by (simp add: port_number_def to_num_def)

lemma np_after_form:
  "np_config (p\<lparr> np_enable := b, np_host := h, np_port := JInt i, np_user := u, np_pass := w, np_from := f, np_tls := t,
      np_recipients := eg_load (List.map Str rs) g, np_subs := ss \<rparr>)
    = \<lparr> nc_enabled = b, nc_host = h, nc_port = i, nc_user = u, nc_pass = w, nc_from = f, nc_tls = t, nc_recipients = rs,
        nc_events = List.map fst (List.filter snd ss) \<rparr>"
  by (simp add: np_config_def jsval_text_def comp_def)

lemma np_smtp_fields [simp]:
  "np_enable (np_set_smtp_disabled d p) = np_enable p" "np_subs (np_set_smtp_disabled d p) = np_subs p"
  "np_recipients (np_set_smtp_disabled d p) = np_recipients p"
  "np_enable (np_set_enable b p) = b" "np_subs (np_set_enable b p) = np_subs p" "np_recipients (np_set_enable b p) = np_recipients p"
  by (simp_all add: np_set_smtp_disabled_def np_set_enable_def)

lemma noti_config_back:
  assumes "distinct (List.map fst events)" and "nc_events c = ns @ ms"
    and "list_all (finds_itself (List.map fst events)) ns"
    and "ms = [] \<or> find_prefix (hd ms) (List.map fst events) = None"
  shows "np_config (fst (np_on_config c (np_on_events events p)))
      = c\<lparr> nc_events := List.filter (\<lambda>n. n \<in> set ns) (List.map fst events) \<rparr>
    \<and> (snd (np_on_config c (np_on_events events p)) \<longleftrightarrow> ms = [])"
proof -
  define q where "q = (np_set_smtp_disabled (\<not> nc_enabled c) (np_set_enable (nc_enabled c) (np_on_events events p)))\<lparr>
        np_host := nc_host c, np_port := JInt (nc_port c), np_user := nc_user c, np_pass := nc_pass c,
        np_from := nc_from c, np_tls := nc_tls c,
        np_recipients := eg_load (List.map Str (nc_recipients c)) (np_recipients (np_on_events events p)) \<rparr>"
  define r where "r = q\<lparr> np_subs := List.map (\<lambda>(m, b). (m, b \<or> m \<in> set ns)) (np_subs q) \<rparr>"
  have subs: "np_subs q = List.map (\<lambda>(n, d). (n, False)) events" by (simp add: q_def np_on_events_def)
  have keys: "List.map fst (np_subs q) = List.map fst events" by (simp add: subs comp_def case_prod_unfold)
  have "np_on_config c (np_on_events events p) = np_set_subs (ns @ ms) q"
    by (simp add: np_on_config_def assms(2) q_def np_on_events_def)
  also have "\<dots> = np_set_subs ms r"
    unfolding r_def by (rule np_set_subs_found) (use assms(1,3) keys in \<open>simp_all add: list_all_iff\<close>)
  also have "\<dots> = (r, ms = [])"
  proof (cases ms)
    case (Cons m ms')
    have "List.map fst (np_subs r) = List.map fst events" using keys by (simp add: r_def comp_def case_prod_unfold)
    then have "np_set_sub m r = (r, False)" using assms(4) Cons by (simp add: np_set_sub_def)
    then show ?thesis using Cons by simp
  qed simp
  finally have eq: "np_on_config c (np_on_events events p) = (r, ms = [])" .
  have "List.map fst (List.filter snd (np_subs r)) = List.filter (\<lambda>n. n \<in> set ns) (List.map fst events)"
    unfolding r_def subs by (induction events) auto
  then have "np_config r = c\<lparr> nc_events := List.filter (\<lambda>n. n \<in> set ns) (List.map fst events) \<rparr>"
    unfolding np_config_def r_def q_def by (cases c) (simp add: jsval_text_def comp_def)
  then show ?thesis using eq by simp
qed

text \<open>The page with the events as part of what it shows: a configuration page in the sense of the locale.\<close>

lemma noti_save_load:
  "noti_valid events c \<Longrightarrow> np_config (fst (np_on_config c (np_on_events events p))) = c \<and> snd (np_on_config c (np_on_events events p))"
  using noti_config_back[of events c "nc_events c" "[]" p] by (simp add: noti_valid_def)

interpretation noti: config_page "\<lambda>(names, c) p. fst (np_on_config c (np_on_events (List.map (\<lambda>n. (n, [])) names) p))"
  "\<lambda>p. (List.map fst (np_subs p), np_config p)" "\<lambda>(names, c). noti_valid (List.map (\<lambda>n. (n, [])) names) c" "\<lambda>p. True"
proof
  fix p :: noti_page and x :: "string list \<times> noti_config"
  assume "case x of (names, c) \<Rightarrow> noti_valid (List.map (\<lambda>n. (n, [])) names) c"
  then obtain names c where x: "x = (names, c)" and v: "noti_valid (List.map (\<lambda>n. (n, [])) names) c" by (cases x) auto
  let ?p = "np_on_events (List.map (\<lambda>n. (n, [])) names) p"
  have "List.map fst (np_subs (fst (np_on_config c ?p))) = List.map fst (np_subs ?p)"
    unfolding np_on_config_def by (subst conjunct2[OF np_set_subs_fields[OF surjective_pairing]]) simp
  also have "\<dots> = names" by (simp add: np_on_events_def comp_def)
  finally show "(\<lambda>p. (List.map fst (np_subs p), np_config p))
      ((\<lambda>(names, c) p. fst (np_on_config c (np_on_events (List.map (\<lambda>n. (n, [])) names) p))) x p) = x"
    using noti_save_load[OF v] by (simp add: x)
qed simp

lemma np_trace_config [simp]: "np_trace (fst (np_on_config c p)) = np_trace p"
proof -
  have "np_trace (fst (np_set_subs ns q)) = np_trace q" for ns q
    using np_set_subs_fields[OF surjective_pairing, of ns q] by (metis noti_page.select_convs(11) noti_page.surjective noti_page.update_convs(10))
  then show ?thesis by (simp add: np_on_config_def np_set_smtp_disabled_def np_set_enable_def)
qed

text \<open>C28: After the handled events and a configuration whose subscriptions are among them, OK sends exactly that configuration.\<close>

theorem notifications_sent_back:
  assumes "noti_valid events c"
  shows "np_trace (np_on_ok (fst (np_on_config c (np_on_events events p)))) = np_trace p @ [ReqSetNoti c]"
  using noti_save_load[OF assms, of p] by (simp add: np_on_ok_def np_on_apply_def np_emit_def) (simp add: np_on_events_def)

definition sample_events :: "(string \<times> string) list" where
  "sample_events = [(''TorrentFinishedEvent'', ''done''), (''TorrentAddedEvent'', ''added'')]"

definition sample_noti :: noti_config where
  "sample_noti = \<lparr> nc_enabled = True, nc_host = ''mail.org'', nc_port = 25, nc_user = ''me'', nc_pass = ''pw'', nc_from = ''me@mail.org'',
     nc_tls = False, nc_recipients = [''you@mail.org''], nc_events = [''TorrentFinishedEvent''] \<rparr>"

theorem notifications_sent_back_witness:
  "np_trace (np_on_ok (fst (np_on_config sample_noti (np_on_events sample_events np_new)))) = [ReqSetNoti sample_noti]"
proof -
  have "noti_valid sample_events sample_noti" by code_simp
  then show ?thesis using notifications_sent_back[of sample_events sample_noti np_new] by (simp add: np_new_def)
qed

text \<open>A subscription to an event that is not listed (it is not handled now, or the list has not arrived yet) ends
  the reply in a TypeError, and Apply then sends only the subscriptions before it: the others are lost.\<close>

theorem notifications_lose_subscriptions:
  assumes "distinct (List.map fst events)" and "nc_events c = ns @ m # ms"
    and "list_all (finds_itself (List.map fst events)) ns" and "find_prefix m (List.map fst events) = None"
  shows "\<not> snd (np_on_config c (np_on_events events p))
    \<and> np_trace (np_on_apply (fst (np_on_config c (np_on_events events p))))
      = np_trace p @ [ReqSetNoti (c\<lparr> nc_events := List.filter (\<lambda>n. n \<in> set ns) (List.map fst events) \<rparr>)]"
proof -
  have "np_trace (np_on_events events p) = np_trace p" by (simp add: np_on_events_def)
  then show ?thesis
    using noti_config_back[of events c ns "m # ms" p] assms by (simp add: np_on_apply_def np_emit_def)
qed

theorem notifications_lose_subscriptions_witness:
  "\<not> snd (np_on_config sample_noti (np_on_events [] np_new))"
  using notifications_lose_subscriptions[of "[]" sample_noti "[]" "''TorrentFinishedEvent''" "[]" np_new]
  by (simp add: sample_noti_def)

section \<open>Fields of the notifications page\<close>

datatype noti_event =
    NShow | NEvents "(string \<times> string) list" | NConfig noti_config | NEnable bool | NCell nat | NAdd | NRemove | NApply

fun np_step :: "noti_event \<Rightarrow> noti_page \<Rightarrow> noti_page" where
  "np_step NShow p = np_update_config p"
| "np_step (NEvents events) p = np_on_events events p"
| "np_step (NConfig c) p = fst (np_on_config c p)"
| "np_step (NEnable b) p = np_set_enable b p"
| "np_step (NCell i) p = np_on_cell_click i p"
| "np_step NAdd p = np_on_add_click p"
| "np_step NRemove p = np_on_remove_click p"
| "np_step NApply p = np_on_apply p"

definition np_ok :: "noti_page \<Rightarrow> bool" where
  "np_ok p = ((\<forall>n \<in> set noti_parts. map_of (np_disabled p) n = Some (\<not> np_enable p)) \<and> eg_ok (np_recipients p))"

lemma lookup_put_each: "map_of (each_do (\<lambda>n. put n v) ns ob) k = (if k \<in> set ns then Some v else map_of ob k)"
  by (induction ns arbitrary: ob) (auto simp: lookup_put)

lemma np_ok_disabled: "np_enable p = b \<Longrightarrow> eg_ok (np_recipients p) \<Longrightarrow> np_ok (np_set_smtp_disabled (\<not> b) p)"
  by (simp add: np_ok_def np_set_smtp_disabled_def lookup_put_each)

lemma np_ok_config:
  assumes "np_ok p"
  shows "np_ok (fst (np_on_config c p))"
proof -
  have same: "np_ok (fst (np_set_subs ns q)) = np_ok q" for ns q
  proof -
    obtain r b where r: "np_set_subs ns q = (r, b)" by (cases "np_set_subs ns q")
    have "np_enable r = np_enable q" "np_disabled r = np_disabled q" "np_recipients r = np_recipients q"
      by (subst conjunct1[OF np_set_subs_fields[OF r]]; simp)+
    then show ?thesis by (simp add: r np_ok_def)
  qed
  have "eg_ok (np_recipients (np_set_enable (nc_enabled c) p))" using assms by (simp add: np_ok_def)
  then have "np_ok (np_set_smtp_disabled (\<not> nc_enabled c) (np_set_enable (nc_enabled c) p))" by (intro np_ok_disabled) simp_all
  then show ?thesis unfolding np_on_config_def same by (auto simp: np_ok_def intro: eg_ok_ops)
qed

lemma np_ok_step: "np_ok p \<Longrightarrow> np_ok (np_step e p)"
proof (cases e)
  case (NConfig c)
  then show "np_ok p \<Longrightarrow> ?thesis" by (simp add: np_ok_config)
next
  case (NEnable b)
  then show "np_ok p \<Longrightarrow> ?thesis"
    using np_ok_disabled[of "p\<lparr> np_enable := b \<rparr>" b] by (auto simp: np_set_enable_def np_ok_def)
qed (auto simp: np_update_config_def np_emit_def np_on_events_def np_on_cell_click_def np_on_add_click_def np_on_remove_click_def
    np_on_apply_def np_ok_def intro: eg_ok_ops)

text \<open>Whatever is received and done, the fields and the list of recipients can be used exactly while Enabled is
  checked, and the rows of the list are distinct records.\<close>

theorem notifications_fields_follow_switch:
  assumes "n \<in> set noti_parts"
  shows "map_of (np_disabled (each_do np_step es np_new)) n = Some (\<not> np_enable (each_do np_step es np_new))
    \<and> wf_obj (eg_rows (np_recipients (each_do np_step es np_new)))"
proof -
  have "np_ok np_new" by (simp add: np_ok_def np_new_def noti_parts_def eg_ok_def eg_new_def keys_of_def)
  then have "np_ok (each_do np_step es np_new)"
    by (rule each_do_invariant[where P = np_ok]) (rule np_ok_step)
  then show ?thesis using assms by (simp add: np_ok_def eg_ok_def)
qed

theorem notifications_fields_follow_switch_witness:
  "map_of (np_disabled (each_do np_step [NEnable True, NConfig sample_noti] np_new)) ''port''
    = Some (\<not> np_enable (each_do np_step [NEnable True, NConfig sample_noti] np_new))"
  using notifications_fields_follow_switch[of "''port''"] by (simp add: noti_parts_def del: each_do.simps)

section \<open>Blocklist\<close>

text \<open>A status shows either the progress or the information, lets the lists be fetched exactly when the plugin is
  idle, and a status with another state changes nothing.\<close>

theorem blocklist_status_shows:
  "(bs_state st \<in> {''Downloading'', ''Importing'', ''Idle''} \<longrightarrow>
      (let q = bp_on_update tz st p; idle = (bs_state st = ''Idle'') in
        bp_info q = idle \<and> bp_progress q = (\<not> idle) \<and> bp_check_enabled q = idle \<and> bp_force_enabled q = idle
        \<and> bp_tick q = (idle \<and> bs_up_to_date st)
        \<and> bp_labels q = (if idle then bl_labels tz st else bp_labels p) \<and> eg_values (bp_whitelist q) = eg_values (bp_whitelist p)))
    \<and> (bs_state st \<notin> {''Downloading'', ''Importing'', ''Idle''} \<longrightarrow> bp_on_update tz st p = p)"
  by (auto simp: bp_on_update_def bp_busy_def Let_def)

theorem blocklist_status_shows_witness:
  "bp_progress_text (bp_on_update id \<lparr> bs_state = ''Importing'', bs_up_to_date = False, bs_progress = Fin 0, bs_num_blocked = 12,
     bs_size = JInt 0, bs_date = JInt 0, bs_type = ''dat'', bs_url = ''http://x'' \<rparr> bp_new) = ''Importing 12''
   \<and> bp_progress (bp_on_update id \<lparr> bs_state = ''Importing'', bs_up_to_date = False, bs_progress = Fin 0, bs_num_blocked = 12,
     bs_size = JInt 0, bs_date = JInt 0, bs_type = ''dat'', bs_url = ''http://x'' \<rparr> bp_new)"
proof -
  let ?st = "\<lparr> bs_state = ''Importing'', bs_up_to_date = False, bs_progress = Fin 0, bs_num_blocked = 12,
     bs_size = JInt 0, bs_date = JInt 0, bs_type = ''dat'', bs_url = ''http://x'' \<rparr>"
  have "dec_str 12 = ''12''" by code_simp
  then show ?thesis using blocklist_status_shows[of ?st id bp_new] by (simp add: bp_on_update_def bp_busy_def int_str_def Let_def)
qed

interpretation bl: config_page bp_on_config "\<lambda>p. (bp_url p, bp_days p, bp_on_start p, eg_values (bp_whitelist p))" "\<lambda>c. True" "\<lambda>p. True"
  by unfold_locales (auto simp: bp_on_config_def)

interpretation ep: config_page ep_on_config "\<lambda>p. (ep_path p, ep_folder p)" "\<lambda>c. True" "\<lambda>p. True"
  by unfold_locales (auto simp: ep_on_config_def)

text \<open>The page checks for a list only after it has sent its settings, and what it sends are the last
  settings received when nothing was edited.\<close>

theorem blocklist_sends_then_checks:
  assumes "cs \<noteq> []" and "last cs = (url, days, start, ips)"
  shows "bp_trace (bp_check_down (each_do bp_on_config cs p)) = bp_trace p @ [ReqSetBl url days start ips, ReqCheckImport False]
    \<and> bp_trace (bp_force_down (each_do bp_on_config cs p)) = bp_trace p @ [ReqSetBl url days start ips, ReqCheckImport True]"
proof -
  let ?q = "each_do bp_on_config cs p"
  have "(bp_url ?q, bp_days ?q, bp_on_start ?q, eg_values (bp_whitelist ?q)) = (url, days, start, ips)"
    using bl.last_load_saved[of cs p] assms by simp
  moreover have "bp_trace (each_do bp_on_config xs q) = bp_trace q" for xs q
    by (induction xs arbitrary: q) (simp_all add: bp_on_config_def split: prod.split)
  ultimately show ?thesis by (simp add: bp_check_down_def bp_force_down_def bp_on_apply_def bp_emit_def)
qed

theorem blocklist_sends_then_checks_witness:
  "bp_trace (bp_force_down (each_do bp_on_config [(''a'', 4, True, []), (''b'', 2, False, [Str ''10.0.0.1''])] bp_new))
    = [ReqSetBl ''b'' 2 False [Str ''10.0.0.1''], ReqCheckImport True]"
  using blocklist_sends_then_checks[of "[(''a'', 4, True, []), (''b'', 2, False, [Str ''10.0.0.1''])]" "''b''" 2 False "[Str ''10.0.0.1'']" bp_new]
  by (simp add: bp_new_def del: each_do.simps)

section \<open>Execute\<close>

definition li_ok :: "list_page \<Rightarrow> bool" where
  "li_ok l = ((li_buttons l \<longleftrightarrow> li_selected l \<noteq> None) \<and> (\<forall>i. li_selected l = Some i \<longrightarrow> has_key (li_rows l) i))"

lemma li_ok_ops [inv_intros]: "li_ok list_new" "li_ok (list_select x l)" "li_ok (list_load rows l)"
  by (auto simp: li_ok_def list_new_def list_select_def list_load_def Let_def split: option.splits)

text \<open>Of the commands received the one that is selected is shown in the window and saved under its id with the event and
  the command of its row, when nothing is edited; without a selection the buttons are disabled.\<close>

theorem execute_edit_saves_row:
  assumes "distinct (List.map fst commands)" and "(i, e, n) \<in> set commands"
  shows "let p = xp_on_selection_change (Some i) (xp_on_commands commands p0) in
    li_buttons (xp_list p) \<and> \<not> li_buttons (xp_list (xp_on_commands commands p0))
    \<and> (\<exists>q. xp_on_edit_click p = Inr q \<and> xp_trace (xw_save_click q) = xp_trace p0 @ [ReqSaveCommand i (Str e) n])"
proof -
  let ?rows = "List.map (\<lambda>(i, e, n). (i, [(''event'', Str e), (''name'', Str n)])) commands"
  have "distinct (List.map fst ?rows)" using assms(1) by (simp add: comp_def case_prod_unfold)
  moreover have "(i, [(''event'', Str e), (''name'', Str n)]) \<in> set ?rows" using assms(2) by force
  ultimately have row: "map_of ?rows i = Some [(''event'', Str e), (''name'', Str n)]" by simp
  then show ?thesis
    by (simp add: xp_on_selection_change_def xp_on_commands_def list_load_def list_select_def has_key_def xp_on_edit_click_def
        xw_save_click_def xp_emit_def oget_def Let_def)
qed

theorem execute_edit_saves_row_witness:
  "\<exists>q. xp_on_edit_click (xp_on_selection_change (Some ''7'') (xp_on_commands [(''7'', ''added'', ''/bin/x'')] xp_new)) = Inr q
    \<and> xp_trace (xw_save_click q) = [ReqSaveCommand ''7'' (Str ''added'') ''/bin/x'']"
  using execute_edit_saves_row[of "[(''7'', ''added'', ''/bin/x'')]" "''7''" "''added''" "''/bin/x''" xp_new]
  by (simp add: Let_def xp_new_def)

text \<open>Without a selection there is nothing to edit or remove; the buttons are disabled then.\<close>

lemma execute_buttons_safe:
  assumes "li_ok (xp_list p)" and "li_buttons (xp_list p)"
  shows "(\<exists>q. xp_on_edit_click p = Inr q) \<and> (\<exists>q. xp_on_remove_click p = Inr q)"
  using assms by (auto simp: li_ok_def xp_on_edit_click_def xp_on_remove_click_def has_key_def)

end
