(* ===== verification/AutoAdd.thy ===== *)
theory AutoAdd
  imports ExtForm DetailsOptions
begin

text \<open>
  The AutoAdd plugin (plugins/AutoAdd: autoadd.js, autoadd_options.js and the two tabs of its
  windows): the list of watch folders and the windows that add and edit one. The fields are
  found by \<open>Ext.getCmp(id)\<close>, a registry of the whole page in which the component created last
  under an id counts: the windows Add and Edit use the same ids, and two ids
  (\<open>stop_at_ratio\<close>, \<open>move_completed\<close>) belong to no field of these windows but to check boxes of
  the Options tab of the torrent details.
\<close>

section \<open>Fields\<close>

datatype ad_kind = ABox | ARadio string | ANum | AText

text \<open>Id, kind, value and whether disabled at first; those of the tab Main first.\<close>

definition main_fields :: "(string \<times> ad_kind \<times> jsval \<times> bool) list" where
  "main_fields =
    [(''path'', AText, Str [], False), (''enabled'', ABox, Bool True, False),
     (''isnt_append_extension'', ARadio ''torrent_action'', Bool True, False),
     (''append_extension_toggle'', ARadio ''torrent_action'', Bool False, False),
     (''append_extension'', AText, Str [], True),
     (''copy_torrent_toggle'', ARadio ''torrent_action'', Bool False, False),
     (''copy_torrent'', AText, Str [], True), (''delete_copy_torrent_toggle'', ABox, Bool False, True),
     (''download_location_toggle'', ABox, Bool False, False), (''download_location'', AText, Str [], True),
     (''move_completed_toggle'', ABox, Bool False, False), (''move_completed_path'', AText, Str [], True),
     (''label_toggle'', ABox, Bool False, False), (''label'', AText, Str [], True)]"

definition bandwidth_container :: "string \<Rightarrow> (string \<times> ad_kind \<times> jsval \<times> bool) list" where
  "bandwidth_container n = [(n @ ''_toggle'', ABox, Bool False, False), (n, ANum, JInt 0, True)]"

definition queue_container :: "string \<Rightarrow> (string \<times> ad_kind \<times> jsval \<times> bool) list" where
  "queue_container n = [(n @ ''_toggle'', ABox, Bool False, False), (n, ARadio n, Bool True, True),
     (''not_'' @ n, ARadio n, Bool False, True)]"

definition option_fields :: "(string \<times> ad_kind \<times> jsval \<times> bool) list" where
  "option_fields =
    (''owner'', AText, Str [], False) # concat (List.map bandwidth_container
       [''max_download_speed'', ''max_upload_speed'', ''max_connections'', ''max_upload_slots''])
    @ concat (List.map queue_container [''add_paused'', ''queue_to_top'', ''auto_managed''])
    @ [(''stop_at_ratio_toggle'', ABox, Bool False, False), (''stop_ratio'', ANum, JInt 0, True),
       (''remove_at_ratio'', ABox, Bool True, True), (''remove_at_ratio_toggle'', ABox, Bool True, True),
       (''stop_ratio_toggle'', ABox, Bool True, True), (''seed_mode'', ABox, Bool False, False)]"

definition ad_fields :: "(string \<times> ad_kind \<times> jsval \<times> bool) list" where
  "ad_fields = main_fields @ option_fields"

definition ad_kind_of :: "string \<Rightarrow> ad_kind option" where
  "ad_kind_of n = map_option fst (map_of ad_fields n)"

text \<open>The fields a box enables and disables, and those a radio button of the torrent action sets when it is chosen.\<close>

definition ad_depends :: "(string \<times> string list) list" where
  "ad_depends =
    [(''download_location_toggle'', [''download_location'']), (''move_completed_toggle'', [''move_completed_path'']),
     (''label_toggle'', [''label'']), (''max_download_speed_toggle'', [''max_download_speed'']),
     (''max_upload_speed_toggle'', [''max_upload_speed'']), (''max_connections_toggle'', [''max_connections'']),
     (''max_upload_slots_toggle'', [''max_upload_slots'']), (''add_paused_toggle'', [''add_paused'', ''not_add_paused'']),
     (''queue_to_top_toggle'', [''queue_to_top'', ''not_queue_to_top'']),
     (''auto_managed_toggle'', [''auto_managed'', ''not_auto_managed'']),
     (''stop_at_ratio_toggle'', [''stop_ratio'', ''remove_at_ratio''])]"

definition ad_actions :: "(string \<times> (string \<times> bool) list) list" where
  "ad_actions =
    [(''isnt_append_extension'', [(''append_extension'', True), (''copy_torrent'', True), (''delete_copy_torrent_toggle'', True)]),
     (''append_extension_toggle'', [(''append_extension'', False), (''copy_torrent'', True), (''delete_copy_torrent_toggle'', True)]),
     (''copy_torrent_toggle'', [(''append_extension'', True), (''copy_torrent'', False), (''delete_copy_torrent_toggle'', False)])]"

section \<open>The components of a window\<close>

record watch_window =
  ww_values :: "jsval obj"
  ww_disabled :: "(string \<times> bool) list"
  ww_options_shown :: bool
  ww_visible :: bool
  ww_id :: "string option"

definition ww_new :: watch_window where
  "ww_new = \<lparr> ww_values = List.map (\<lambda>(n, k, v, d). (n, v)) ad_fields,
     ww_disabled = List.map (\<lambda>(n, k, v, d). (n, d)) ad_fields, ww_options_shown = False, ww_visible = False, ww_id = None \<rparr>"

text \<open>The listeners of \<open>check\<close>.\<close>

definition ww_on_check :: "string \<Rightarrow> bool \<Rightarrow> watch_window \<Rightarrow> watch_window" where
  "ww_on_check n b w =
     (case map_of ad_depends n of
        Some ds \<Rightarrow> w\<lparr> ww_disabled := each_do (\<lambda>d. put d (\<not> b)) ds (ww_disabled w) \<rparr>
      | None \<Rightarrow> (case map_of ad_actions n of
          Some ds \<Rightarrow> if b then w\<lparr> ww_disabled := for_in put ds (ww_disabled w) \<rparr> else w
        | None \<Rightarrow> w))"

text \<open>A box or radio button takes a value, and fires \<open>check\<close> when it changes.\<close>

definition ww_check :: "string \<Rightarrow> bool \<Rightarrow> watch_window \<Rightarrow> watch_window" where
  "ww_check n b w = (if oget (ww_values w) n = Bool b then w
     else ww_on_check n b (w\<lparr> ww_values := put n (Bool b) (ww_values w) \<rparr>))"

definition radio_group :: "string \<Rightarrow> string list" where
  "radio_group g = List.map fst (List.filter (\<lambda>(n, k, v, d). k = ARadio g) ad_fields)"

definition ww_rendered :: "string \<Rightarrow> watch_window \<Rightarrow> bool" where
  "ww_rendered g w = (g = ''torrent_action'' \<or> ww_options_shown w)"

text \<open>\<open>setValue\<close>; a rendered radio button that is chosen takes the others of its name back.\<close>

definition ww_set :: "string \<Rightarrow> jsval \<Rightarrow> watch_window \<Rightarrow> watch_window" where
  "ww_set n v w = (case ad_kind_of n of
      None \<Rightarrow> w
    | Some ABox \<Rightarrow> ww_check n (box_value v) w
    | Some (ARadio g) \<Rightarrow> let w = ww_check n (box_value v) w in
        if box_value v \<and> ww_rendered g w
        then each_do (\<lambda>m. ww_check m False) (List.filter (\<lambda>m. m \<noteq> n) (radio_group g)) w else w
    | Some ANum \<Rightarrow> w\<lparr> ww_values := put n v (ww_values w) \<rparr>
    | Some AText \<Rightarrow> w\<lparr> ww_values := put n (Str (field_text v)) (ww_values w) \<rparr>)"

text \<open>The tab Options is shown for the first time: radio buttons that are chosen are set again as they are rendered,
  when only those before them can be taken back.\<close>

definition ww_render_radio :: "string \<Rightarrow> watch_window \<Rightarrow> watch_window" where
  "ww_render_radio n w = (case ad_kind_of n of
      Some (ARadio g) \<Rightarrow> if oget (ww_values w) n = Bool True
        then each_do (\<lambda>m. ww_check m False) (takeWhile (\<lambda>m. m \<noteq> n) (radio_group g)) w else w
    | _ \<Rightarrow> w)"

definition ww_show_options :: "watch_window \<Rightarrow> watch_window" where
  "ww_show_options w = (if ww_options_shown w then w
     else each_do ww_render_radio (List.map fst option_fields) (w\<lparr> ww_options_shown := True \<rparr>))"

section \<open>The page with its two windows\<close>

datatype which_window = AddWin | EditWin

datatype ad_effect =
    ReqWatchdirs | ReqAddWatch "jsval obj" | ReqSetWatch "string option" "jsval obj" | ReqRemoveWatch string
  | ReqEnableWatch string | ReqDisableWatch string | ReqCoreConfig | ReqPluginsOn | ReqLabels | ReqIsAdmin
  | ReqAccounts | ReqAuthUser | ShowIncompatible string

record auto_add =
  ad_list :: list_page
  ad_watchdirs :: "(string \<times> jsval obj) list"
  ad_add :: "watch_window option"
  ad_edit :: "watch_window option"
  ad_last :: which_window
  ad_tab :: options_tab
  ad_boxes :: "(string \<times> bool) list"
  ad_labels :: bool
  ad_trace :: "ad_effect list"

text \<open>\<open>ad_last\<close> is the window created last; \<open>ad_tab\<close> the Options tab of the details and \<open>ad_boxes\<close> its two check boxes.\<close>

definition ad_new :: "options_tab \<Rightarrow> (string \<times> bool) list \<Rightarrow> auto_add" where
  "ad_new tab boxes = \<lparr> ad_list = list_new, ad_watchdirs = [], ad_add = None, ad_edit = None, ad_last = AddWin, ad_tab = tab,
     ad_boxes = boxes, ad_labels = True, ad_trace = [] \<rparr>"

definition ad_emit :: "ad_effect \<Rightarrow> auto_add \<Rightarrow> auto_add" where
  "ad_emit e s = s\<lparr> ad_trace := ad_trace s @ [e] \<rparr>"

definition ad_foreign :: "string list" where
  "ad_foreign = [''stop_at_ratio'', ''move_completed'']"

text \<open>A check box of the details: \<open>check\<close> reaches the options manager it is bound to, then its handler runs.\<close>

definition tab_check :: "string \<Rightarrow> bool \<Rightarrow> auto_add \<Rightarrow> auto_add" where
  "tab_check n b s = (if map_of (ad_boxes s) n = Some b then s
     else (let t = (ad_tab s)\<lparr> ot_manager := mo_update (Str n) (Bool b) (ot_manager (ad_tab s)) \<rparr> in
       s\<lparr> ad_boxes := put n b (ad_boxes s),
          ad_tab := (if n = ''stop_at_ratio'' then ot_on_stop_ratio_checked b t else ot_on_move_completed_checked b t) \<rparr>))"

definition ad_window :: "which_window \<Rightarrow> auto_add \<Rightarrow> watch_window option" where
  "ad_window x s = (case x of AddWin \<Rightarrow> ad_add s | EditWin \<Rightarrow> ad_edit s)"

definition ad_put_window :: "which_window \<Rightarrow> watch_window \<Rightarrow> auto_add \<Rightarrow> auto_add" where
  "ad_put_window x w s = (case x of AddWin \<Rightarrow> s\<lparr> ad_add := Some w \<rparr> | EditWin \<Rightarrow> s\<lparr> ad_edit := Some w \<rparr>)"

definition on_window :: "which_window \<Rightarrow> (watch_window \<Rightarrow> watch_window) \<Rightarrow> auto_add \<Rightarrow> auto_add" where
  "on_window x f s = (case ad_window x s of None \<Rightarrow> s | Some w \<Rightarrow> ad_put_window x (f w) s)"

text \<open>\<open>Ext.getCmp(n).setValue(v)\<close> and \<open>getValue()\<close>.\<close>

definition ad_set :: "string \<Rightarrow> jsval \<Rightarrow> auto_add \<Rightarrow> auto_add" where
  "ad_set n v s = (if n \<in> set ad_foreign then tab_check n (box_value v) s else on_window (ad_last s) (ww_set n v) s)"

definition ad_get :: "string \<Rightarrow> auto_add \<Rightarrow> jsval" where
  "ad_get n s = (if n \<in> set ad_foreign then (case map_of (ad_boxes s) n of None \<Rightarrow> Undef | Some b \<Rightarrow> Bool b)
     else (case ad_window (ad_last s) s of None \<Rightarrow> Undef | Some w \<Rightarrow> oget (ww_values w) n))"

section \<open>Loading and reading the options\<close>

definition spin_ids :: "string list" where
  "spin_ids = [''max_download_speed'', ''max_upload_speed'', ''stop_ratio'']"

definition spin_int_ids :: "string list" where
  "spin_int_ids = [''max_upload_slots'', ''max_connections'']"

definition chk_ids :: "string list" where
  "chk_ids = [''stop_at_ratio'', ''remove_at_ratio'', ''move_completed'', ''add_paused'', ''auto_managed'', ''queue_to_top'']"

definition toggle_ids :: "string list" where
  "toggle_ids = [''append_extension_toggle'', ''download_location_toggle'', ''label_toggle'', ''copy_torrent_toggle'',
     ''delete_copy_torrent_toggle'', ''seed_mode'']"

definition opt_or :: "jsval obj \<Rightarrow> string \<Rightarrow> jsval \<Rightarrow> jsval" where
  "opt_or options k d = (if oget options k \<noteq> Undef then oget options k else d)"

text \<open>The fields \<open>loadOptions\<close> sets, in order.\<close>

definition load_plan :: "jsval obj \<Rightarrow> (string \<times> jsval) list" where
  "load_plan ob =
    [(''enabled'', opt_or ob ''enabled'' (Bool True)), (''isnt_append_extension'', Bool True)]
    @ [(''append_extension_toggle'', opt_or ob ''append_extension_toggle'' (Bool False)),
       (''append_extension'', opt_or ob ''append_extension'' (Str ''.added''))]
    @ List.map (\<lambda>n. (n, opt_or ob n (Bool False)))
        [''download_location_toggle'', ''copy_torrent_toggle'', ''delete_copy_torrent_toggle'', ''seed_mode'']
    @ [(''label'', opt_or ob ''label'' (Str [])), (''label_toggle'', opt_or ob ''label_toggle'' (Bool False))]
    @ concat (List.map (\<lambda>n. [(n, opt_or ob n (JInt 0)), (n @ ''_toggle'', opt_or ob (n @ ''_toggle'') (Bool False))]) spin_ids)
    @ concat (List.map (\<lambda>n. [(n, opt_or ob n (Bool True)), (n @ ''_toggle'', opt_or ob (n @ ''_toggle'') (Bool False))]) chk_ids)
    @ concat (List.map (\<lambda>n. if truthy (opt_or ob n (Bool True)) then [] else [(''not_'' @ n, Bool True)])
        [''add_paused'', ''queue_to_top'', ''auto_managed''])
    @ List.map (\<lambda>n. (n, opt_or ob n (Str []))) [''move_completed_path'', ''path'', ''download_location'', ''copy_torrent'']"

definition ad_load :: "jsval obj \<Rightarrow> auto_add \<Rightarrow> auto_add" where
  "ad_load ob s = for_in ad_set (load_plan ob) s"

definition ad_load_options :: "jsval obj \<Rightarrow> auto_add \<Rightarrow> auto_add" where
  "ad_load_options ob s = each_do ad_emit ((if ob = [] then [ReqCoreConfig] else []) @ [ReqPluginsOn, ReqIsAdmin]) (ad_load ob s)"

definition watch_keys :: "string list" where
  "watch_keys = [''enabled'', ''path'', ''download_location'', ''move_completed_path'', ''copy_torrent'', ''label'',
     ''append_extension'', ''owner''] @ toggle_ids
    @ concat (List.map (\<lambda>n. [n, n @ ''_toggle'']) (spin_ids @ spin_int_ids @ chk_ids))"

text \<open>\<open>getOptions\<close>; \<open>None\<close> is the exception about the two directories.\<close>

definition ad_get_options :: "auto_add \<Rightarrow> jsval obj option" where
  "ad_get_options s = (let ob = List.map (\<lambda>k. (k, ad_get k s)) watch_keys in
     if truthy (oget ob ''copy_torrent_toggle'') \<and> strict_eq (oget ob ''path'') (oget ob ''copy_torrent'') then None else Some ob)"

text \<open>The reply with the configuration of the daemon, asked for when a new folder is added.\<close>

definition ad_on_core_config :: "jsval obj \<Rightarrow> auto_add \<Rightarrow> auto_add" where
  "ad_on_core_config config s = for_in ad_set
     ([(''download_location'', oget config ''download_location'')]
      @ (if truthy (oget config ''move_completed'')
         then [(''move_completed_toggle'', Bool False), (''move_completed_path'', oget config ''move_completed_path'')] else [])
      @ (if truthy (oget config ''copy_torrent_file'')
         then [(''copy_torrent_toggle'', Bool True), (''copy_torrent'', oget config ''torrentfiles_location'')] else [])
      @ (if truthy (oget config ''del_copy_torrent_file'') then [(''delete_copy_torrent_toggle'', Bool True)] else [])) s"

definition ad_on_plugins :: "string list \<Rightarrow> auto_add \<Rightarrow> auto_add" where
  "ad_on_plugins plugins s = (if ''Label'' \<in> set plugins then ad_emit ReqLabels (s\<lparr> ad_labels := True \<rparr>) else s\<lparr> ad_labels := False \<rparr>)"

text \<open>The accounts: an administrator chooses among all, another user is fixed.\<close>

definition ad_on_is_admin :: "bool \<Rightarrow> auto_add \<Rightarrow> auto_add" where
  "ad_on_is_admin admin s = ad_emit (if admin then ReqAccounts else ReqAuthUser) s"

definition ad_disable :: "string \<Rightarrow> bool \<Rightarrow> auto_add \<Rightarrow> auto_add" where
  "ad_disable n b s = on_window (ad_last s) (\<lambda>w. w\<lparr> ww_disabled := put n b (ww_disabled w) \<rparr>) s"

definition ad_on_accounts_user :: "jsval obj \<Rightarrow> string \<Rightarrow> auto_add \<Rightarrow> auto_add" where
  "ad_on_accounts_user ob user s = ad_disable ''owner'' False (ad_set ''owner'' (opt_or ob ''owner'' (Str user)) s)"

definition ad_on_accounts_failure :: "auto_add \<Rightarrow> auto_add" where
  "ad_on_accounts_failure s = ad_emit ReqAuthUser s"

definition ad_on_failure_user :: "string \<Rightarrow> auto_add \<Rightarrow> auto_add" where
  "ad_on_failure_user user s = ad_disable ''owner'' True (ad_set ''owner'' (Str user) s)"

section \<open>The windows\<close>

text \<open>A window is created when it is first wanted, and its components are registered.\<close>

definition ad_create :: "which_window \<Rightarrow> auto_add \<Rightarrow> auto_add" where
  "ad_create x s = (if ad_window x s = None then (ad_put_window x ww_new s)\<lparr> ad_last := x \<rparr> else s)"

definition ad_on_add_click :: "auto_add \<Rightarrow> auto_add" where
  "ad_on_add_click s = ad_load_options [] (on_window AddWin (\<lambda>w. w\<lparr> ww_visible := True \<rparr>) (ad_create AddWin s))"

definition ad_on_edit_click :: "auto_add \<Rightarrow> auto_add result" where
  "ad_on_edit_click s = (case li_selected (ad_list s) of None \<Rightarrow> Inl TypeError
     | Some i \<Rightarrow> Inr (ad_load_options (case map_of (ad_watchdirs s) i of None \<Rightarrow> [] | Some ob \<Rightarrow> ob)
         (on_window EditWin (\<lambda>w. w\<lparr> ww_visible := True, ww_id := Some i \<rparr>) (ad_create EditWin s))))"

definition ad_hide :: "which_window \<Rightarrow> auto_add \<Rightarrow> auto_add" where
  "ad_hide x s = on_window x (\<lambda>w. w\<lparr> ww_visible := False \<rparr>) s"

definition ad_on_cancel :: "which_window \<Rightarrow> auto_add \<Rightarrow> auto_add" where
  "ad_on_cancel x s = ad_hide x s"

definition same_directory :: string where
  "same_directory = ''\"Watch Folder\" directory and \"Copy of .torrent files to\" directory cannot be the same!''"

text \<open>Save catches the exception, shows it and hides the window all the same; Add does not catch it.\<close>

definition ad_save :: "auto_add \<Rightarrow> auto_add" where
  "ad_save s = ad_hide EditWin (case ad_get_options s of
       Some ob \<Rightarrow> ad_emit (ReqSetWatch (case ad_edit s of None \<Rightarrow> None | Some w \<Rightarrow> ww_id w) ob) s
     | None \<Rightarrow> ad_emit (ShowIncompatible same_directory) s)"

definition ad_add_folder :: "auto_add \<Rightarrow> auto_add" where
  "ad_add_folder s = (case ad_get_options s of Some ob \<Rightarrow> ad_emit (ReqAddWatch ob) s | None \<Rightarrow> s)"

definition ad_update :: "auto_add \<Rightarrow> auto_add" where
  "ad_update s = ad_emit ReqWatchdirs s"

definition ad_on_added :: "auto_add \<Rightarrow> auto_add" where
  "ad_on_added s = ad_hide AddWin (ad_update s)"

definition ad_on_add_failed :: "string \<Rightarrow> auto_add \<Rightarrow> auto_add" where
  "ad_on_add_failed message s = ad_emit (ShowIncompatible message) s"

definition ad_on_saved :: "auto_add \<Rightarrow> auto_add" where
  "ad_on_saved s = ad_update s"

section \<open>The list\<close>

definition ad_on_watchdirs :: "(string \<times> jsval obj) list \<Rightarrow> auto_add \<Rightarrow> auto_add" where
  "ad_on_watchdirs dirs s = s\<lparr> ad_watchdirs := dirs, ad_list := list_load
     (List.map (\<lambda>(i, d). (i, [(''id'', Str i), (''enabled'', oget d ''enabled''),
        (''owner'', if truthy (oget d ''owner'') then oget d ''owner'' else Str ''localclient''), (''path'', oget d ''path'')])) dirs) (ad_list s) \<rparr>"

definition ad_on_selection_change :: "string option \<Rightarrow> auto_add \<Rightarrow> auto_add" where
  "ad_on_selection_change x s = s\<lparr> ad_list := list_select x (ad_list s) \<rparr>"

definition ad_on_remove_click :: "auto_add \<Rightarrow> auto_add result" where
  "ad_on_remove_click s = (case li_selected (ad_list s) of None \<Rightarrow> Inl TypeError | Some i \<Rightarrow> Inr (ad_emit (ReqRemoveWatch i) s))"

text \<open>A click on the box of a row, drawn for the row as it was: the other state is asked for, then the list.\<close>

definition ad_on_active_click :: "string \<Rightarrow> auto_add \<Rightarrow> auto_add" where
  "ad_on_active_click i s = (case map_of (li_rows (ad_list s)) i of None \<Rightarrow> s
     | Some r \<Rightarrow> ad_update (ad_emit (if truthy (oget r ''enabled'') then ReqDisableWatch i else ReqEnableWatch i) s))"

section \<open>Reading a field after setting one\<close>

lemma ad_kinds:
  "ad_kind_of ''path'' = Some AText" "ad_kind_of ''enabled'' = Some ABox"
  "ad_kind_of ''isnt_append_extension'' = Some (ARadio ''torrent_action'')"
  "ad_kind_of ''append_extension_toggle'' = Some (ARadio ''torrent_action'')"
  "ad_kind_of ''append_extension'' = Some AText" "ad_kind_of ''copy_torrent_toggle'' = Some (ARadio ''torrent_action'')"
  "ad_kind_of ''copy_torrent'' = Some AText" "ad_kind_of ''delete_copy_torrent_toggle'' = Some ABox"
  "ad_kind_of ''download_location_toggle'' = Some ABox" "ad_kind_of ''download_location'' = Some AText"
  "ad_kind_of ''move_completed_toggle'' = Some ABox" "ad_kind_of ''move_completed_path'' = Some AText"
  "ad_kind_of ''label_toggle'' = Some ABox" "ad_kind_of ''label'' = Some AText" "ad_kind_of ''owner'' = Some AText"
  "ad_kind_of ''max_download_speed_toggle'' = Some ABox" "ad_kind_of ''max_download_speed'' = Some ANum"
  "ad_kind_of ''max_upload_speed_toggle'' = Some ABox" "ad_kind_of ''max_upload_speed'' = Some ANum"
  "ad_kind_of ''max_connections_toggle'' = Some ABox" "ad_kind_of ''max_connections'' = Some ANum"
  "ad_kind_of ''max_upload_slots_toggle'' = Some ABox" "ad_kind_of ''max_upload_slots'' = Some ANum"
  "ad_kind_of ''add_paused_toggle'' = Some ABox" "ad_kind_of ''add_paused'' = Some (ARadio ''add_paused'')"
  "ad_kind_of ''not_add_paused'' = Some (ARadio ''add_paused'')"
  "ad_kind_of ''queue_to_top_toggle'' = Some ABox" "ad_kind_of ''queue_to_top'' = Some (ARadio ''queue_to_top'')"
  "ad_kind_of ''not_queue_to_top'' = Some (ARadio ''queue_to_top'')"
  "ad_kind_of ''auto_managed_toggle'' = Some ABox" "ad_kind_of ''auto_managed'' = Some (ARadio ''auto_managed'')"
  "ad_kind_of ''not_auto_managed'' = Some (ARadio ''auto_managed'')"
  "ad_kind_of ''stop_at_ratio_toggle'' = Some ABox" "ad_kind_of ''stop_ratio'' = Some ANum"
  "ad_kind_of ''remove_at_ratio'' = Some ABox" "ad_kind_of ''remove_at_ratio_toggle'' = Some ABox"
  "ad_kind_of ''stop_ratio_toggle'' = Some ABox" "ad_kind_of ''seed_mode'' = Some ABox"
  "ad_kind_of ''stop_at_ratio'' = None" "ad_kind_of ''move_completed'' = None"
  by code_simp+

lemma radio_group_iff: "m \<in> set (radio_group g) \<longleftrightarrow> ad_kind_of m = Some (ARadio g)"
proof -
  have "distinct (List.map fst ad_fields)" by code_simp
  then have "map_of ad_fields m = Some x \<longleftrightarrow> (m, x) \<in> set ad_fields" for x by simp
  then show ?thesis by (force simp: radio_group_def ad_kind_of_def)
qed

definition ad_conv :: "ad_kind \<Rightarrow> jsval \<Rightarrow> jsval" where
  "ad_conv k v = (case k of ANum \<Rightarrow> v | AText \<Rightarrow> Str (field_text v) | _ \<Rightarrow> Bool (box_value v))"

lemma ww_on_check_values [simp]:
  "ww_values (ww_on_check n b w) = ww_values w" "ww_options_shown (ww_on_check n b w) = ww_options_shown w"
  by (auto simp: ww_on_check_def split: option.splits)

lemma ww_check_get [simp]:
  "oget (ww_values (ww_check n b w)) m = (if m = n then Bool b else oget (ww_values w) m)"
  "ww_options_shown (ww_check n b w) = ww_options_shown w"
  by (auto simp: ww_check_def)

lemma ww_checks_get [simp]:
  "oget (ww_values (each_do (\<lambda>m. ww_check m b) ms w)) k = (if k \<in> set ms then Bool b else oget (ww_values w) k)"
  "ww_options_shown (each_do (\<lambda>m. ww_check m b) ms w) = ww_options_shown w"
  by (induction ms arbitrary: w) auto

text \<open>Setting \<open>n\<close> takes a chosen \<open>m\<close> of the same radio buttons back.\<close>

definition takes_back :: "bool \<Rightarrow> string \<Rightarrow> jsval \<Rightarrow> string \<Rightarrow> bool" where
  "takes_back shown n v m = (case ad_kind_of n of
     Some (ARadio g) \<Rightarrow> ad_kind_of m = Some (ARadio g) \<and> box_value v \<and> (g = ''torrent_action'' \<or> shown) | _ \<Rightarrow> False)"

lemma ww_set_get:
  assumes "ad_kind_of n = Some k"
  shows "oget (ww_values (ww_set n v w)) m = (if m = n then ad_conv k v
      else if takes_back (ww_options_shown w) n v m then Bool False else oget (ww_values w) m)"
    and "ww_options_shown (ww_set n v w) = ww_options_shown w"
  using assms by (auto simp: ww_set_def ad_conv_def takes_back_def ww_rendered_def radio_group_iff Let_def split: ad_kind.splits)

text \<open>What the fields of the page read: the window created last and the two boxes of the details.\<close>

definition ad_ready :: "bool \<Rightarrow> auto_add \<Rightarrow> bool" where
  "ad_ready shown s = (\<exists>w. ad_window (ad_last s) s = Some w \<and> ww_options_shown w = shown)"

lemma ad_window_put [simp]: "ad_window x (ad_put_window y w s) = (if x = y then Some w else ad_window x s)"
  by (cases x; cases y) (simp_all add: ad_window_def ad_put_window_def)

lemma ad_put_fields [simp]:
  "ad_last (ad_put_window y w s) = ad_last s" "ad_boxes (ad_put_window y w s) = ad_boxes s" "ad_tab (ad_put_window y w s) = ad_tab s"
  "ad_trace (ad_put_window y w s) = ad_trace s"
  by (cases y; simp add: ad_put_window_def)+

lemma tab_check_fields [simp]:
  "ad_window x (tab_check n b s) = ad_window x s" "ad_last (tab_check n b s) = ad_last s" "ad_trace (tab_check n b s) = ad_trace s"
  "map_of (ad_boxes (tab_check n b s)) m = (if m = n then Some b else map_of (ad_boxes s) m)"
  by (cases x) (auto simp: tab_check_def ad_window_def Let_def lookup_put)

lemma ad_set_last [simp]: "ad_last (ad_set n v s) = ad_last s" "ad_trace (ad_set n v s) = ad_trace s"
  by (auto simp: ad_set_def on_window_def split: option.splits)

lemma ad_set_ready: "ad_ready shown s \<Longrightarrow> ad_kind_of n \<noteq> None \<or> n \<in> set ad_foreign \<Longrightarrow> ad_ready shown (ad_set n v s)"
  by (auto simp: ad_ready_def ad_set_def on_window_def ww_set_get(2))

lemma ad_get_set:
  assumes "ad_ready shown s" and "ad_kind_of n \<noteq> None \<or> n \<in> set ad_foreign"
  shows "ad_get m (ad_set n v s) =
    (if m = n then ad_conv (case ad_kind_of n of Some k \<Rightarrow> k | None \<Rightarrow> ABox) v
     else if takes_back shown n v m then Bool False else ad_get m s)"
proof (cases "n \<in> set ad_foreign")
  case True
  then have "ad_kind_of n = None" by (auto simp: ad_foreign_def ad_kinds)
  then show ?thesis using True by (simp add: ad_get_def ad_set_def takes_back_def ad_conv_def)
next
  case False
  obtain w where w: "ad_window (ad_last s) s = Some w" "ww_options_shown w = shown" using assms(1) by (auto simp: ad_ready_def)
  obtain k where k: "ad_kind_of n = Some k" using assms(2) False by auto
  show ?thesis
  proof (cases "m \<in> set ad_foreign")
    case True
    then have "ad_kind_of m = None" by (auto simp: ad_foreign_def ad_kinds)
    then show ?thesis using True False k w by (auto simp: ad_get_def ad_set_def on_window_def takes_back_def split: ad_kind.splits)
  next
    case False
    then show ?thesis using \<open>n \<notin> set ad_foreign\<close> k w by (simp add: ad_get_def ad_set_def on_window_def ww_set_get)
  qed
qed

text \<open>Only the assignments to a field and to its radio buttons matter for what it reads.\<close>

definition touches :: "string \<Rightarrow> string \<Rightarrow> bool" where
  "touches m n = (n = m \<or> (case ad_kind_of n of Some (ARadio g) \<Rightarrow> ad_kind_of m = Some (ARadio g) | _ \<Rightarrow> False))"

definition known_ids :: "(string \<times> jsval) list \<Rightarrow> bool" where
  "known_ids plan = (\<forall>(n, v) \<in> set plan. ad_kind_of n \<noteq> None \<or> n \<in> set ad_foreign)"

lemma ad_get_plan:
  assumes "ad_ready shown s" and "known_ids plan"
  shows "ad_get m (for_in ad_set plan s) = ad_get m (for_in ad_set (List.filter (\<lambda>(n, v). touches m n) plan) s)"
proof -
  have "ad_ready shown s \<Longrightarrow> ad_ready shown t \<Longrightarrow> known_ids plan \<Longrightarrow> ad_get m s = ad_get m t \<Longrightarrow>
      ad_get m (for_in ad_set plan s) = ad_get m (for_in ad_set (List.filter (\<lambda>(n, v). touches m n) plan) t)" for s t
  proof (induction plan arbitrary: s t)
    case (Cons x plan)
    obtain n v where x: "x = (n, v)" by (cases x)
    have n: "ad_kind_of n \<noteq> None \<or> n \<in> set ad_foreign" and p: "known_ids plan" using Cons.prems(3) x by (auto simp: known_ids_def)
    note set = ad_get_set[OF Cons.prems(1) n, of m v] ad_get_set[OF Cons.prems(2) n, of m v]
    show ?case
    proof (cases "touches m n")
      case True
      then show ?thesis
        using Cons.IH[OF ad_set_ready[OF Cons.prems(1) n] ad_set_ready[OF Cons.prems(2) n] p, of v v] set Cons.prems(4) by (simp add: x)
    next
      case False
      then have "\<not> takes_back shown n v m" and "m \<noteq> n" by (auto simp: touches_def takes_back_def split: option.splits ad_kind.splits)
      then have "ad_get m (ad_set n v s) = ad_get m t" using set(1) Cons.prems(4) by simp
      then show ?thesis using Cons.IH[OF ad_set_ready[OF Cons.prems(1) n] Cons.prems(2) p, of v] False by (simp add: x)
    qed
  qed simp
  from this[OF assms(1,1,2) refl] show ?thesis .
qed

section \<open>The options of a watch folder come back\<close>

text \<open>The options that are loaded, with the values for those that are missing.\<close>

definition load_defaults :: "(string \<times> jsval) list" where
  "load_defaults =
    [(''enabled'', Bool True), (''append_extension_toggle'', Bool False), (''append_extension'', Str ''.added''),
     (''download_location_toggle'', Bool False), (''copy_torrent_toggle'', Bool False), (''delete_copy_torrent_toggle'', Bool False),
     (''seed_mode'', Bool False), (''label'', Str []), (''label_toggle'', Bool False),
     (''max_download_speed'', JInt 0), (''max_download_speed_toggle'', Bool False),
     (''max_upload_speed'', JInt 0), (''max_upload_speed_toggle'', Bool False), (''stop_ratio'', JInt 0), (''stop_ratio_toggle'', Bool False),
     (''stop_at_ratio'', Bool True), (''stop_at_ratio_toggle'', Bool False), (''remove_at_ratio'', Bool True), (''remove_at_ratio_toggle'', Bool False),
     (''move_completed'', Bool True), (''move_completed_toggle'', Bool False), (''add_paused'', Bool True), (''add_paused_toggle'', Bool False),
     (''auto_managed'', Bool True), (''auto_managed_toggle'', Bool False), (''queue_to_top'', Bool True), (''queue_to_top_toggle'', Bool False),
     (''move_completed_path'', Str []), (''path'', Str []), (''download_location'', Str []), (''copy_torrent'', Str [])]"

definition ad_kind_or_box :: "string \<Rightarrow> ad_kind" where
  "ad_kind_or_box n = (case ad_kind_of n of Some k \<Rightarrow> k | None \<Rightarrow> ABox)"

definition ad_typed :: "jsval obj \<Rightarrow> bool" where
  "ad_typed ob = (\<forall>(k, d) \<in> set load_defaults. ad_conv (ad_kind_or_box k) (opt_or ob k d) = opt_or ob k d)"

lemmas plan_simps = load_plan_def spin_ids_def chk_ids_def touches_def ad_kinds takes_back_def ad_foreign_def

lemma known_plan: "known_ids (load_plan ob)"
  by (auto simp: known_ids_def load_plan_def spin_ids_def chk_ids_def ad_kinds ad_foreign_def)

text \<open>Fields set once, by kind.\<close>

lemma ad_load_once:
  assumes "ad_ready shown s" and "List.filter (\<lambda>(n, v). touches m n) (load_plan ob) = [(m, v)]"
  shows "ad_get m (ad_load ob s) = ad_conv (ad_kind_or_box m) v"
proof -
  have "(m, v) \<in> set (load_plan ob)"
    using assms(2) by (metis filter_is_subset list.set_intros(1) subsetD)
  then have m: "ad_kind_of m \<noteq> None \<or> m \<in> set ad_foreign" using known_plan[of ob] by (auto simp: known_ids_def)
  show ?thesis
    unfolding ad_load_def ad_get_plan[OF assms(1) known_plan] assms(2)
    using ad_get_set[OF assms(1) m, of m v] by (simp add: ad_kind_or_box_def)
qed

definition once_keys :: "(string \<times> jsval) list" where
  "once_keys = List.filter (\<lambda>(k, d). k \<notin> {''append_extension_toggle'', ''copy_torrent_toggle'', ''add_paused'', ''auto_managed'', ''queue_to_top''}) load_defaults"

text \<open>The names of the plan are distinct, and a key that is no radio button is only touched by its own entry.\<close>

definition plan_names :: "bool \<Rightarrow> bool \<Rightarrow> bool \<Rightarrow> string list" where
  "plan_names a b c = [''enabled'', ''isnt_append_extension'', ''append_extension_toggle'', ''append_extension'',
     ''download_location_toggle'', ''copy_torrent_toggle'', ''delete_copy_torrent_toggle'', ''seed_mode'', ''label'', ''label_toggle'']
    @ concat (List.map (\<lambda>n. [n, n @ ''_toggle'']) (spin_ids @ chk_ids))
    @ (if a then [] else [''not_add_paused'']) @ (if b then [] else [''not_queue_to_top'']) @ (if c then [] else [''not_auto_managed''])
    @ [''move_completed_path'', ''path'', ''download_location'', ''copy_torrent'']"

lemma plan_names: "\<exists>a b c. List.map fst (load_plan ob) = plan_names a b c"
proof -
  let ?t = "\<lambda>n. truthy (opt_or ob n (Bool True))"
  have "List.map fst (load_plan ob) = plan_names (?t ''add_paused'') (?t ''queue_to_top'') (?t ''auto_managed'')"
    by (simp add: load_plan_def plan_names_def map_concat comp_def)
  then show ?thesis by blast
qed

lemma plan_distinct: "distinct (List.map fst (load_plan ob))"
proof -
  have "distinct (plan_names False False False)" by code_simp
  then have "distinct (plan_names a b c)" for a b c by (auto simp: plan_names_def)
  then show ?thesis using plan_names[of ob] by metis
qed

lemma once_in_plan: "(k, d) \<in> set once_keys \<Longrightarrow> (k, opt_or ob k d) \<in> set (load_plan ob)"
  unfolding once_keys_def load_defaults_def
  by (simp, elim disjE conjE) (simp_all add: load_plan_def spin_ids_def chk_ids_def)

lemma filter_key: "distinct (List.map fst ps) \<Longrightarrow> (k, v) \<in> set ps \<Longrightarrow> List.filter (\<lambda>(n, w). n = k) ps = [(k, v)]"
proof (induction ps)
  case (Cons p ps)
  show ?case
  proof (cases "fst p = k")
    case True
    then have "k \<notin> fst ` set ps" using Cons.prems(1) by simp
    then have "List.filter (\<lambda>(n, w). n = k) ps = []" "(k, v) \<notin> set ps" by (auto simp: filter_empty_conv image_iff)
    then show ?thesis using Cons.prems(2) True by auto
  next
    case False
    then show ?thesis using Cons by auto
  qed
qed simp

lemma once_no_radio: "(k, d) \<in> set once_keys \<Longrightarrow> touches k n = (n = k)"
proof -
  have "list_all (\<lambda>(k, d). case ad_kind_of k of Some (ARadio g) \<Rightarrow> False | _ \<Rightarrow> True) once_keys" by code_simp
  then show "(k, d) \<in> set once_keys \<Longrightarrow> touches k n = (n = k)"
    by (fastforce simp: touches_def list_all_iff split: option.splits ad_kind.splits)
qed

lemma once_filtered: "(k, d) \<in> set once_keys \<Longrightarrow> List.filter (\<lambda>(n, v). touches k n) (load_plan ob) = [(k, opt_or ob k d)]"
  using filter_key[OF plan_distinct once_in_plan] by (simp add: once_no_radio cong: filter_cong)

lemma box_typed: "ad_conv ABox v = v \<longleftrightarrow> (\<exists>b. v = Bool b)" "ad_conv (ARadio g) v = v \<longleftrightarrow> (\<exists>b. v = Bool b)"
  by (cases v; simp add: ad_conv_def)+

lemma ad_load_action:
  assumes "ad_ready shown s" and "opt_or ob ''append_extension_toggle'' (Bool False) = Bool a" and "opt_or ob ''copy_torrent_toggle'' (Bool False) = Bool c"
  shows "ad_get ''append_extension_toggle'' (ad_load ob s) = Bool (a \<and> \<not> c)"
    and "ad_get ''copy_torrent_toggle'' (ad_load ob s) = Bool c"
proof -
  have f: "List.filter (\<lambda>(n, v). touches ''append_extension_toggle'' n) (load_plan ob) = [(''isnt_append_extension'', Bool True),
      (''append_extension_toggle'', Bool a), (''copy_torrent_toggle'', Bool c)]"
    "List.filter (\<lambda>(n, v). touches ''copy_torrent_toggle'' n) (load_plan ob) = [(''isnt_append_extension'', Bool True),
      (''append_extension_toggle'', Bool a), (''copy_torrent_toggle'', Bool c)]"
    using assms(2,3) by (simp_all add: plan_simps)
  have r: "ad_ready shown (ad_set n v t)" if "ad_ready shown t" "ad_kind_of n \<noteq> None" for n v t
    using ad_set_ready that by blast
  show "ad_get ''append_extension_toggle'' (ad_load ob s) = Bool (a \<and> \<not> c)" "ad_get ''copy_torrent_toggle'' (ad_load ob s) = Bool c"
    unfolding ad_load_def ad_get_plan[OF assms(1) known_plan] f
    by (simp_all add: ad_get_set[where shown = shown] r assms(1) ad_kinds takes_back_def ad_conv_def)
qed

lemma ad_load_queue:
  assumes "ad_ready shown s" and "n \<in> {''add_paused'', ''queue_to_top'', ''auto_managed''}" and "opt_or ob n (Bool True) = Bool b"
  shows "ad_get n (ad_load ob s) = Bool b"
proof -
  define m where "m = ''not_'' @ n"
  have f: "List.filter (\<lambda>(m, v). touches n m) (load_plan ob) = (n, Bool b) # (if b then [] else [(m, Bool True)])"
    unfolding m_def using assms(2,3) by (elim insertE emptyE) (simp_all add: plan_simps)
  have k: "ad_kind_of n = Some (ARadio n)" "ad_kind_of m = Some (ARadio n)" "n \<noteq> m"
    using assms(2) by (auto simp: ad_kinds m_def)
  have r: "ad_ready shown (ad_set n (Bool b) s)" by (rule ad_set_ready[OF assms(1)]) (simp add: k)
  show ?thesis
    unfolding ad_load_def ad_get_plan[OF assms(1) known_plan] f
    using ad_get_set[OF assms(1), of n n "Bool b"] ad_get_set[OF r, of m n "Bool True"] k
    by (cases b) (simp_all add: takes_back_def ad_conv_def)
qed

lemma ad_load_values:
  assumes "ad_ready shown s" and "ad_typed ob"
    and "opt_or ob ''append_extension_toggle'' (Bool False) = Bool False \<or> opt_or ob ''copy_torrent_toggle'' (Bool False) = Bool False"
    and "(k, d) \<in> set load_defaults"
  shows "ad_get k (ad_load ob s) = opt_or ob k d"
proof -
  have typed: "ad_conv (ad_kind_or_box k) (opt_or ob k d) = opt_or ob k d" if "(k, d) \<in> set load_defaults" for k d
    using assms(2) that by (auto simp: ad_typed_def)
  have radio: "\<exists>b. opt_or ob k d = Bool b" if "(k, d) \<in> set load_defaults" "ad_kind_of k = Some (ARadio g)" for k d g
    using typed[OF that(1)] that(2) by (simp add: ad_kind_or_box_def box_typed)
  show ?thesis
  proof (cases "(k, d) \<in> set once_keys")
    case True
    then show ?thesis using ad_load_once[OF assms(1) once_filtered[OF True]] typed[OF assms(4)] by simp
  next
    case False
    have "k \<in> {''append_extension_toggle'', ''copy_torrent_toggle''} \<or> k \<in> {''add_paused'', ''queue_to_top'', ''auto_managed''}"
      using False assms(4) by (auto simp: once_keys_def)
    then show ?thesis
    proof
      assume "k \<in> {''append_extension_toggle'', ''copy_torrent_toggle''}"
      then have "d = Bool False" using assms(4) by (auto simp: load_defaults_def)
      obtain a c where "opt_or ob ''append_extension_toggle'' (Bool False) = Bool a" "opt_or ob ''copy_torrent_toggle'' (Bool False) = Bool c"
        using radio[of "''append_extension_toggle''" "Bool False" "''torrent_action''"] radio[of "''copy_torrent_toggle''" "Bool False" "''torrent_action''"]
        by (auto simp: load_defaults_def ad_kinds)
      then show ?thesis
        using ad_load_action[OF assms(1)] assms(3) \<open>d = Bool False\<close> \<open>k \<in> {''append_extension_toggle'', ''copy_torrent_toggle''}\<close> by auto
    next
      assume q: "k \<in> {''add_paused'', ''queue_to_top'', ''auto_managed''}"
      then have "d = Bool True" using assms(4) by (auto simp: load_defaults_def)
      moreover obtain b where "opt_or ob k d = Bool b" using radio[OF assms(4)] q by (auto simp: ad_kinds)
      ultimately show ?thesis using ad_load_queue[OF assms(1) q] by simp
    qed
  qed
qed

lemma watch_keys_loaded: "fst ` set load_defaults \<subseteq> set watch_keys"
  by (auto simp: load_defaults_def watch_keys_def toggle_ids_def spin_ids_def spin_int_ids_def chk_ids_def)

lemma oget_keys: "oget (List.map (\<lambda>k. (k, f k)) ks) k = (if k \<in> set ks then f k else Undef)"
  by (induction ks) (auto simp: oget_def)


definition sample_watch :: "jsval obj" where
  "sample_watch = [(''path'', Str ''/in''), (''copy_torrent_toggle'', Bool True), (''copy_torrent'', Str ''/out''), (''queue_to_top'', Bool False)]"

definition sample_page :: auto_add where
  "sample_page = ad_create AddWin (ad_new ot_new [(''stop_at_ratio'', False), (''move_completed'', False)])"

lemma sample_page_ready: "ad_ready False sample_page"
  by (simp add: ad_ready_def sample_page_def ad_create_def ad_new_def ad_window_def ad_put_window_def ww_new_def)


section \<open>What goes wrong\<close>

text \<open>The two options in whole numbers are sent but never loaded: whatever folder is shown, they and their boxes stay as
  they were left for the folder before, and are saved with it.\<close>

theorem whole_number_options_not_loaded:
  assumes "ad_ready shown s" and "n \<in> set spin_int_ids" and "k = n \<or> k = n @ ''_toggle''"
  shows "ad_get k (ad_load ob s) = ad_get k s
    \<and> (\<forall>ob'. ad_get_options (ad_load ob s) = Some ob' \<longrightarrow> oget ob' k = ad_get k s)"
proof -
  have "k \<in> {''max_upload_slots'', ''max_connections'', ''max_upload_slots_toggle'', ''max_connections_toggle''}"
    using assms(2,3) by (auto simp: spin_int_ids_def)
  then have "List.filter (\<lambda>(n, v). touches k n) (load_plan ob) = []" and key: "k \<in> set watch_keys"
    by (elim insertE emptyE; simp add: plan_simps watch_keys_def spin_int_ids_def)+
  then have same: "ad_get k (ad_load ob s) = ad_get k s"
    unfolding ad_load_def ad_get_plan[OF assms(1) known_plan] by simp
  have "oget ob' k = ad_get k s" if "ad_get_options (ad_load ob s) = Some ob'" for ob'
    using that key same by (auto simp: ad_get_options_def oget_keys Let_def split: if_splits)
  then show ?thesis using same by blast
qed

theorem whole_number_options_not_loaded_witness:
  "ad_get ''max_connections'' (ad_load [(''max_connections'', JInt 50)] (ad_set ''max_connections'' (JInt 7) sample_page)) = JInt 7"
proof -
  have r: "ad_ready False (ad_set ''max_connections'' (JInt 7) sample_page)"
    by (rule ad_set_ready[OF sample_page_ready]) (simp add: ad_kinds)
  have "ad_get ''max_connections'' (ad_set ''max_connections'' (JInt 7) sample_page) = JInt 7"
    using ad_get_set[OF sample_page_ready, of "''max_connections''"] by (simp add: ad_kinds ad_conv_def)
  then show ?thesis
    using whole_number_options_not_loaded[OF r, of "''max_connections''" "''max_connections''"] by (simp add: spin_int_ids_def)
qed

lemma ad_tab_window [simp]: "ad_tab (on_window x f s) = ad_tab s" "ad_boxes (on_window x f s) = ad_boxes s"
  "ad_last (on_window x f s) = ad_last s" "ad_trace (on_window x f s) = ad_trace s"
  by (simp_all add: on_window_def split: option.splits)

text \<open>Of a sequence of assignments only those to the two boxes reach the details.\<close>

lemma ad_tab_plan:
  "ad_tab (for_in ad_set plan s) = ad_tab (for_in ad_set (List.filter (\<lambda>(n, v). n \<in> set ad_foreign) plan) s)
    \<and> ad_boxes (for_in ad_set plan s) = ad_boxes (for_in ad_set (List.filter (\<lambda>(n, v). n \<in> set ad_foreign) plan) s)"
proof -
  have "ad_tab s = ad_tab t \<Longrightarrow> ad_boxes s = ad_boxes t \<Longrightarrow>
      ad_tab (for_in ad_set plan s) = ad_tab (for_in ad_set (List.filter (\<lambda>(n, v). n \<in> set ad_foreign) plan) t)
      \<and> ad_boxes (for_in ad_set plan s) = ad_boxes (for_in ad_set (List.filter (\<lambda>(n, v). n \<in> set ad_foreign) plan) t)" for s t
  proof (induction plan arbitrary: s t)
    case (Cons x plan)
    obtain n v where x: "x = (n, v)" by (cases x)
    show ?case
    proof (cases "n \<in> set ad_foreign")
      case True
      have "ad_tab (ad_set n v s) = ad_tab (ad_set n v t)" "ad_boxes (ad_set n v s) = ad_boxes (ad_set n v t)"
        using True Cons.prems by (simp_all add: ad_set_def tab_check_def Let_def)
      then show ?thesis using Cons.IH True by (simp add: x)
    next
      case False
      then show ?thesis using Cons by (simp add: x ad_set_def)
    qed
  qed simp
  then show ?thesis by simp
qed

lemma plan_foreign:
  "List.filter (\<lambda>(n, v). n \<in> set ad_foreign) (load_plan ob)
    = [(''stop_at_ratio'', opt_or ob ''stop_at_ratio'' (Bool True)), (''move_completed'', opt_or ob ''move_completed'' (Bool True))]"
  by (simp add: plan_simps)

lemma mo_update_switch:
  assumes "mo_get_default m k = Bool False" and "oget (mo_get_dirty m) k = Undef"
  shows "mo_get_dirty (mo_update (Str k) (Bool True) m) = put k (Bool True) (mo_get_dirty m)"
    and "mo_get_default (mo_update (Str k) (Bool True) m) = mo_get_default m"
proof -
  define s where "s = (if mo_cur_changed m = None then m\<lparr> mo_changed := put (mo_key m) [] (mo_changed m) \<rparr> else m)"
  have s: "mo_get_dirty s = mo_get_dirty m" "mo_get_default s = mo_get_default m" "\<exists>ch. mo_cur_changed s = Some ch"
    by (auto simp: s_def mo_get_dirty_def)
  have nd: "\<not> mo_is_dirty s k" using assms(2) s(1,3) by (auto simp: mo_is_dirty_def mo_get_dirty_def)
  then have old: "mo_get s k = Bool False" using assms(1) s(2) by (simp add: mo_get_def)
  have eq: "mo_update (Str k) (Bool True) m
      = om_fire k (Bool True) (Bool False) (s\<lparr> mo_changed := put (mo_key s) (put k (Bool True) (mo_get_dirty s)) (mo_changed s) \<rparr>)"
    using old assms(1) s(2)
    by (simp add: mo_update_def mo_update_one_def s_def[symmetric] Let_def loose_eq_def convert_value_type_def)
  show "mo_get_dirty (mo_update (Str k) (Bool True) m) = put k (Bool True) (mo_get_dirty m)"
    unfolding eq om_fire_eq by (simp add: mo_get_dirty_def[of "_\<lparr> om_trace := _ \<rparr>"] s(1))
  show "mo_get_default (mo_update (Str k) (Bool True) m) = mo_get_default m"
    unfolding eq om_fire_eq by (simp add: s(2))
qed

lemma emit_field [simp]:
  "ad_tab (ad_emit e s) = ad_tab s" "ad_boxes (ad_emit e s) = ad_boxes s" "ad_last (ad_emit e s) = ad_last s"
  by (simp_all add: ad_emit_def)

lemma emit_window [simp]: "ad_window x (ad_emit e s) = ad_window x s"
  by (cases x) (simp_all add: ad_emit_def ad_window_def)

lemma emit_fields [simp]:
  "ad_tab (each_do ad_emit es s) = ad_tab s" "ad_window x (each_do ad_emit es s) = ad_window x s"
  "ad_last (each_do ad_emit es s) = ad_last s"
  by (induction es arbitrary: s) simp_all

lemma plan_ready: "ad_ready shown s \<Longrightarrow> known_ids plan \<Longrightarrow> ad_ready shown (for_in ad_set plan s)"
proof (induction plan arbitrary: s)
  case (Cons x plan)
  obtain n v where x: "x = (n, v)" by (cases x)
  have "ad_ready shown (ad_set n v s)" using Cons.prems x by (intro ad_set_ready) (auto simp: known_ids_def)
  then show ?case using Cons x by (simp add: known_ids_def)
qed simp

text \<open>C30: Opening the window for a new watch folder changes the torrent selected in the details: its boxes for stopping at
  a ratio and moving on completion are checked, and Apply sends both for the torrent.\<close>

theorem new_folder_changes_torrent:
  assumes "map_of (ad_boxes s) ''stop_at_ratio'' = Some False" and "map_of (ad_boxes s) ''move_completed'' = Some False"
    and "ot_torrent (ad_tab s) = Some t" and "mo_get_dirty (ot_manager (ad_tab s)) = []"
    and "mo_get_default (ot_manager (ad_tab s)) ''stop_at_ratio'' = Bool False"
    and "mo_get_default (ot_manager (ad_tab s)) ''move_completed'' = Bool False"
  shows "\<exists>fs. ot_trace (ot_on_apply (ad_tab (ad_on_add_click s)))
    = fs @ [ReqSetOptions (Some t) [(''stop_at_ratio'', Bool True), (''move_completed'', Bool True)]]"
proof -
  define u where "u = on_window AddWin (\<lambda>w. w\<lparr> ww_visible := True \<rparr>) (ad_create AddWin s)"
  have tab: "ad_tab u = ad_tab s" "ad_boxes u = ad_boxes s" by (simp_all add: u_def ad_create_def)
  define m1 where "m1 = mo_update (Str ''stop_at_ratio'') (Bool True) (ot_manager (ad_tab s))"
  define m2 where "m2 = mo_update (Str ''move_completed'') (Bool True) m1"
  have m1: "mo_get_dirty m1 = [(''stop_at_ratio'', Bool True)]" "mo_get_default m1 = mo_get_default (ot_manager (ad_tab s))"
    using mo_update_switch[of "ot_manager (ad_tab s)" "''stop_at_ratio''"] assms(4,5) by (simp_all add: m1_def)
  have "mo_get_dirty m2 = put ''move_completed'' (Bool True) (mo_get_dirty m1)"
    unfolding m2_def by (rule mo_update_switch(1)) (simp_all add: m1 assms(6) oget_def)
  then have m2: "mo_get_dirty m2 = [(''stop_at_ratio'', Bool True), (''move_completed'', Bool True)]" by (simp add: m1)
  have "ad_tab (ad_on_add_click s) = ad_tab (for_in ad_set [(''stop_at_ratio'', Bool True), (''move_completed'', Bool True)] u)"
    using conjunct1[OF ad_tab_plan[of "load_plan []" u]] plan_foreign[of "[]"]
    unfolding ad_on_add_click_def ad_load_options_def ad_load_def u_def[symmetric] emit_fields by (simp add: opt_or_def)
  also have "ot_torrent \<dots> = Some t \<and> ot_manager \<dots> = m2"
    using assms(1-3)
    by (simp add: ad_set_def ad_foreign_def tab_check_def tab Let_def lookup_put ot_on_stop_ratio_checked_def ot_on_move_completed_checked_def
        set_disabled_def ot_emit_def m1_def m2_def)
  finally show ?thesis using m2 by (auto simp: ot_on_apply_def ot_emit_def)
qed

definition tab_of_torrent :: options_tab where
  "tab_of_torrent = ot_update (Some ''t1'') ot_new"

theorem new_folder_changes_torrent_witness:
  "\<exists>fs. ot_trace (ot_on_apply (ad_tab (ad_on_add_click (ad_new tab_of_torrent [(''stop_at_ratio'', False), (''move_completed'', False)]))))
    = fs @ [ReqSetOptions (Some ''t1'') [(''stop_at_ratio'', Bool True), (''move_completed'', Bool True)]]"
proof (rule new_folder_changes_torrent)
  show "ot_torrent (ad_tab (ad_new tab_of_torrent [(''stop_at_ratio'', False), (''move_completed'', False)])) = Some ''t1''"
    by (simp add: ad_new_def) code_simp
  show "mo_get_dirty (ot_manager (ad_tab (ad_new tab_of_torrent [(''stop_at_ratio'', False), (''move_completed'', False)]))) = []"
    by (simp add: ad_new_def) code_simp
  show "mo_get_default (ot_manager (ad_tab (ad_new tab_of_torrent [(''stop_at_ratio'', False), (''move_completed'', False)]))) ''stop_at_ratio'' = Bool False"
    by (simp add: ad_new_def) code_simp
  show "mo_get_default (ot_manager (ad_tab (ad_new tab_of_torrent [(''stop_at_ratio'', False), (''move_completed'', False)]))) ''move_completed'' = Bool False"
    by (simp add: ad_new_def) code_simp
qed (simp_all add: ad_new_def)

lemma ad_window_on [simp]:
  "ad_window x (on_window y f s) = (if x = y then map_option f (ad_window x s) else ad_window x s)"
  by (cases "ad_window y s") (auto simp: on_window_def)

lemma ad_window_plan: "x \<noteq> ad_last s \<Longrightarrow> ad_window x (for_in ad_set plan s) = ad_window x s \<and> ad_last (for_in ad_set plan s) = ad_last s"
proof (induction plan arbitrary: s)
  case (Cons p plan)
  obtain n v where p: "p = (n, v)" by (cases p)
  have "ad_window x (ad_set n v s) = ad_window x s" using Cons.prems by (simp add: ad_set_def)
  then show ?case using Cons p by simp
qed simp

text \<open>Once both windows exist, the one created first is dead: opening it fills the fields of the other one, and what is
  typed into its own fields is not in the options that are sent.\<close>

theorem older_window_is_dead:
  assumes "ad_window AddWin s = Some a" and "ad_window EditWin s = Some e" and "ad_last s = EditWin"
  shows "ad_window AddWin (ad_on_add_click s) = Some (a\<lparr> ww_visible := True \<rparr>)
    \<and> ad_get_options (on_window AddWin f (ad_on_add_click s)) = ad_get_options (ad_on_add_click s)
    \<and> (k \<notin> set ad_foreign \<longrightarrow> (\<exists>e'. ad_window EditWin (ad_on_add_click s) = Some e' \<and> ad_get k (ad_on_add_click s) = oget (ww_values e') k))"
proof -
  define u where "u = on_window AddWin (\<lambda>w. w\<lparr> ww_visible := True \<rparr>) s"
  have u: "ad_last u = EditWin" "ad_window AddWin u = Some (a\<lparr> ww_visible := True \<rparr>)" "ad_window EditWin u = Some e"
    using assms by (simp_all add: u_def)
  have eq: "ad_on_add_click s = each_do ad_emit [ReqCoreConfig, ReqPluginsOn, ReqIsAdmin] (ad_load [] u)"
    using assms(1) by (simp add: ad_on_add_click_def ad_create_def ad_load_options_def u_def)
  have add: "ad_window AddWin (ad_on_add_click s) = Some (a\<lparr> ww_visible := True \<rparr>)" and last: "ad_last (ad_on_add_click s) = EditWin"
    unfolding eq emit_fields ad_load_def using ad_window_plan[of AddWin u "load_plan []"] u by simp_all
  have "ad_ready (ww_options_shown e) u" using u by (simp add: ad_ready_def)
  from plan_ready[OF this known_plan] obtain e' where e': "ad_window EditWin (ad_load [] u) = Some e'"
    using last[unfolded eq emit_fields] unfolding ad_ready_def ad_load_def by metis
  have "ad_get m (on_window AddWin f (ad_on_add_click s)) = ad_get m (ad_on_add_click s)" for m
    using last by (simp add: ad_get_def)
  then have "ad_get_options (on_window AddWin f (ad_on_add_click s)) = ad_get_options (ad_on_add_click s)"
    by (simp add: ad_get_options_def)
  moreover have "ad_window EditWin (ad_on_add_click s) = Some e'" unfolding eq emit_fields by (rule e')
  moreover have "k \<notin> set ad_foreign \<Longrightarrow> ad_get k (ad_on_add_click s) = oget (ww_values e') k"
    using calculation(2) last by (simp add: ad_get_def)
  ultimately show ?thesis using add by blast
qed

theorem older_window_is_dead_witness:
  "ad_window AddWin (ad_on_add_click (ad_create EditWin sample_page)) = Some (ww_new\<lparr> ww_visible := True \<rparr>)"
  using older_window_is_dead[of "ad_create EditWin sample_page" ww_new ww_new]
  by (simp add: sample_page_def ad_create_def ad_new_def) (simp add: ad_window_def ad_put_window_def)

text \<open>When the folder for copies is the watch folder, Save shows the message and closes the window, so that what was
  entered is not saved; Add does nothing at all, without a message.\<close>

theorem same_folder_lost:
  assumes "ad_get ''copy_torrent_toggle'' s = Bool True" and "ad_get ''path'' s = Str d" and "ad_get ''copy_torrent'' s = Str d"
  shows "ad_trace (ad_save s) = ad_trace s @ [ShowIncompatible same_directory]
    \<and> ad_window EditWin (ad_save s) = map_option (\<lambda>w. w\<lparr> ww_visible := False \<rparr>) (ad_edit s) \<and> ad_add_folder s = s"
proof -
  have "ad_get_options s = None"
    using assms by (simp add: ad_get_options_def oget_keys Let_def) (simp add: watch_keys_def toggle_ids_def)
  then show ?thesis by (simp add: ad_save_def ad_hide_def ad_emit_def ad_add_folder_def) (simp add: ad_window_def)
qed

theorem same_folder_lost_witness:
  "ad_add_folder (ad_load [(''copy_torrent_toggle'', Bool True)] sample_page) = ad_load [(''copy_torrent_toggle'', Bool True)] sample_page"
proof -
  let ?ob = "[(''copy_torrent_toggle'', Bool True)]"
  have typed: "ad_typed ?ob"
    by (simp add: ad_typed_def load_defaults_def opt_or_def oget_def ad_kind_or_box_def ad_kinds ad_conv_def)
  have no: "opt_or ?ob ''append_extension_toggle'' (Bool False) = Bool False \<or> opt_or ?ob ''copy_torrent_toggle'' (Bool False) = Bool False"
    by (simp add: opt_or_def oget_def)
  note val = ad_load_values[OF sample_page_ready typed no]
  have "ad_get ''copy_torrent_toggle'' (ad_load ?ob sample_page) = Bool True" "ad_get ''path'' (ad_load ?ob sample_page) = Str []"
    "ad_get ''copy_torrent'' (ad_load ?ob sample_page) = Str []"
    using val[of "''copy_torrent_toggle''" "Bool False"] val[of "''path''" "Str []"] val[of "''copy_torrent''" "Str []"]
    by (simp_all add: load_defaults_def opt_or_def oget_def)
  then show ?thesis using same_folder_lost by blast
qed

text \<open>A choice among radio buttons of a tab that was not shown yet can turn over when it is: the button No of the folder loaded
  before is still chosen and takes Yes back.\<close>

theorem hidden_choice_turns_over:
  "let s = ad_load [(''queue_to_top'', Bool True)] (ad_load [(''queue_to_top'', Bool False)] sample_page) in
    ad_get ''queue_to_top'' s = Bool True \<and> ad_get ''queue_to_top'' (on_window AddWin ww_show_options s) = Bool False"
  by code_simp

end
