(* ===== verification/DoubleBounds.thy ===== *)
theory DoubleBounds
  imports JSValue
begin

text \<open>
  Bounds on rounding to doubles that the geometry of the grid and the spinners need.
\<close>

text \<open>Rounding does not cross a whole number.\<close>

lemma rne_ge_int: "of_int n \<le> x \<Longrightarrow> n \<le> rne x"
  unfolding rne_def Let_def by (auto simp: le_floor_iff split: if_splits) linarith+

lemma rne_le_int: "x \<le> of_int n \<Longrightarrow> rne x \<le> n"
  unfolding rne_def Let_def by (auto split: if_splits) linarith+

lemma whole_power:
  assumes "e \<le> 0"
  shows "(of_int n :: rat) / 2 powi e = of_int (n * 2 ^ nat (- e))"
proof -
  have "(2::rat) powi e * 2 ^ nat (- e) = 2 powi (e + - e)"
    using assms by (subst power_int_add) (simp_all flip: power_int_of_nat)
  then have "(2::rat) ^ nat (- e) = 1 / 2 powi e" by (simp add: eq_divide_eq mult.commute)
  then show ?thesis by simp
qed

lemma fl_ge_int:
  assumes "of_int n \<le> x" and "\<bar>x\<bar> < 2 ^ 53"
  shows "of_int n \<le> fl x"
proof (cases "x = 0")
  case False
  define e where "e = ulp_exp x"
  have e: "e \<le> 0" using ulp_exp_le[of x 0] assms(2) False by (simp add: e_def)
  have "of_int n / 2 powi e \<le> x / 2 powi e" using assms(1) by (intro divide_right_mono) auto
  then have "n * 2 ^ nat (- e) \<le> rne (x / 2 powi e)"
    unfolding whole_power[OF e] by (rule rne_ge_int)
  then have "(of_int n :: rat) / 2 powi e \<le> of_int (rne (x / 2 powi e))"
    unfolding whole_power[OF e] of_int_le_iff .
  then show ?thesis using False by (simp add: fl_def e_def Let_def pos_divide_le_eq)
qed (use assms in simp)

lemma fl_le_int:
  assumes "x \<le> of_int n" and "\<bar>x\<bar> < 2 ^ 53"
  shows "fl x \<le> of_int n"
proof (cases "x = 0")
  case False
  define e where "e = ulp_exp x"
  have e: "e \<le> 0" using ulp_exp_le[of x 0] assms(2) False by (simp add: e_def)
  have "x / 2 powi e \<le> of_int n / 2 powi e" using assms(1) by (intro divide_right_mono) auto
  then have "rne (x / 2 powi e) \<le> n * 2 ^ nat (- e)"
    unfolding whole_power[OF e] by (rule rne_le_int)
  then have "of_int (rne (x / 2 powi e)) \<le> (of_int n :: rat) / 2 powi e"
    unfolding whole_power[OF e] of_int_le_iff .
  then show ?thesis using False by (simp add: fl_def e_def Let_def pos_le_divide_eq)
qed (use assms in simp)

lemma fl_pos:
  assumes "2 powi (-1074) \<le> x"
  shows "0 < fl x"
proof -
  have x: "0 < x" using assms by (rule less_le_trans[rotated]) simp
  define e where "e = ulp_exp x"
  have "(2::rat) powi (-1074) < 2 powi (ilog2 x + 1)" using assms ilog2_bounds(2)[OF x] by linarith
  then have "-1074 < ilog2 x + 1"
    using power_int_increasing[of "ilog2 x + 1" "-1074" "2::rat"] by (force simp: not_le[symmetric])
  then have "e \<le> ilog2 x" using x by (simp add: e_def ulp_exp_def)
  then have "(2::rat) powi e \<le> 2 powi ilog2 x" by (rule power_int_increasing) simp
  then have "2 powi e \<le> x" using ilog2_bounds(1)[OF x] by linarith
  then have "of_int 1 \<le> x / 2 powi e" by (simp add: pos_le_divide_eq)
  then have "1 \<le> rne (x / 2 powi e)" by (rule rne_ge_int)
  then show ?thesis using x by (simp add: fl_def e_def Let_def)
qed

end
