(* ===== verification/GridView.thy ===== *)
theory GridView
  imports RecordStore DoubleBounds
begin

text \<open>
  Which rows of the torrent grid are drawn (extjs/ext-extensions/grid/BufferView.js, the view
  of TorrentGrid.js): rows are drawn when they come into sight and emptied when they are far
  from it. A row is present or empty; its contents are those of the renderers. Lengths are in
  pixels; the quotients are rounded to doubles as the code computes them.
\<close>

section \<open>The view\<close>

record buffer_view =
  bv_row_height :: int
  bv_scroll :: rat
  bv_height :: int
  bv_rows :: "bool list"
  bv_delay :: bool
  bv_render_due :: bool
  bv_clean_due :: bool

text \<open>The cell spacing of a row and the number of rows kept on both sides.\<close>

definition bv_border :: int where
  "bv_border = 2"

definition bv_cache :: int where
  "bv_cache = 20"

definition bv_calculated_height :: "buffer_view \<Rightarrow> int" where
  "bv_calculated_height v = bv_row_height v + bv_border"

definition bv_visible_count :: "buffer_view \<Rightarrow> int" where
  "bv_visible_count v = (if bv_height v < 1 then 0 else \<lceil>fl (of_int (bv_height v) / of_int (bv_calculated_height v))\<rceil>)"

definition bv_start :: "buffer_view \<Rightarrow> int" where
  "bv_start v = (if bv_scroll v = 0 then 0 else \<lfloor>fl (bv_scroll v / of_int (bv_calculated_height v))\<rfloor> - 1)"

text \<open>\<open>getVisibleRows\<close>, for a store with \<open>n\<close> records.\<close>

definition bv_first :: "buffer_view \<Rightarrow> int" where
  "bv_first v = max (bv_start v) 0"

definition bv_last :: "nat \<Rightarrow> buffer_view \<Rightarrow> int" where
  "bv_last n v = min (bv_start v + bv_visible_count v + 2) (int n - 1)"

definition bv_visible :: "nat \<Rightarrow> buffer_view \<Rightarrow> nat \<Rightarrow> bool" where
  "bv_visible n v i = (bv_first v \<le> int i \<and> int i \<le> bv_last n v)"

text \<open>\<open>doRender\<close> for \<open>k\<close> rows from row \<open>i\<close> on: those in sight get their contents, others are place holders.\<close>

definition bv_do_render :: "nat \<Rightarrow> nat \<Rightarrow> nat \<Rightarrow> buffer_view \<Rightarrow> bool list" where
  "bv_do_render n i k v = List.map (bv_visible n v) [i..<i + k]"

section \<open>Operations\<close>

definition bv_clean :: "buffer_view \<Rightarrow> buffer_view" where
  "bv_clean v = v\<lparr> bv_clean_due := True \<rparr>"

definition bv_do_update :: "buffer_view \<Rightarrow> buffer_view" where
  "bv_do_update v = (if 0 < bv_visible_count v
     then bv_clean (v\<lparr> bv_rows := List.map (\<lambda>(i, drawn). drawn \<or> bv_visible (length (bv_rows v)) v i) (enumerate 0 (bv_rows v)) \<rparr>)
     else v)"

text \<open>\<open>update\<close>, at once or after a delay; a new call puts a delayed one off.\<close>

definition bv_update :: "buffer_view \<Rightarrow> buffer_view" where
  "bv_update v = (if bv_delay v then v\<lparr> bv_render_due := True \<rparr> else bv_do_update v)"

definition bv_render_task :: "buffer_view \<Rightarrow> buffer_view" where
  "bv_render_task v = (if bv_render_due v then bv_do_update (v\<lparr> bv_render_due := False \<rparr>) else v)"

definition bv_do_clean :: "buffer_view \<Rightarrow> buffer_view" where
  "bv_do_clean v = (if 0 < bv_visible_count v
     then (let first = bv_first v - bv_cache; last = bv_last (length (bv_rows v)) v + bv_cache;
             from = (if first \<le> 0 then last + 1 else 0) in
       v\<lparr> bv_rows := List.map (\<lambda>(i, drawn). drawn \<and> \<not> (from \<le> int i \<and> (int i < first \<or> last < int i))) (enumerate 0 (bv_rows v)) \<rparr>)
     else v)"

definition bv_clean_task :: "buffer_view \<Rightarrow> buffer_view" where
  "bv_clean_task v = (if bv_clean_due v then bv_do_clean (v\<lparr> bv_clean_due := False \<rparr>) else v)"

definition bv_sync_scroll :: "rat \<Rightarrow> buffer_view \<Rightarrow> buffer_view" where
  "bv_sync_scroll sc v = bv_update (v\<lparr> bv_scroll := sc \<rparr>)"

definition bv_layout :: "int \<Rightarrow> buffer_view \<Rightarrow> buffer_view" where
  "bv_layout h v = bv_update (v\<lparr> bv_height := h \<rparr>)"

text \<open>What the grid view does for events of the store: all rows anew, rows inserted (all of them anew when there were
  none), a row removed, a row whose record changed.\<close>

definition bv_refresh :: "nat \<Rightarrow> buffer_view \<Rightarrow> buffer_view" where
  "bv_refresh n v = bv_layout (bv_height v) (v\<lparr> bv_rows := bv_do_render n 0 n v \<rparr>)"

definition bv_insert :: "nat \<Rightarrow> nat \<Rightarrow> buffer_view \<Rightarrow> buffer_view" where
  "bv_insert i k v = (let n = length (bv_rows v) + k in
     if i = 0 \<and> bv_rows v = [] then bv_refresh n v
     else v\<lparr> bv_rows := take i (bv_rows v) @ bv_do_render n i k v @ drop i (bv_rows v) \<rparr>)"

definition bv_on_remove :: "nat \<Rightarrow> buffer_view \<Rightarrow> buffer_view" where
  "bv_on_remove i v = bv_update (v\<lparr> bv_rows := take i (bv_rows v) @ drop (i + 1) (bv_rows v) \<rparr>)"

definition bv_row_changed :: "nat \<Rightarrow> buffer_view \<Rightarrow> buffer_view" where
  "bv_row_changed i v = v\<lparr> bv_rows := (bv_rows v)[i := True] \<rparr>"

definition bv_remove_tasks :: "buffer_view \<Rightarrow> buffer_view" where
  "bv_remove_tasks v = v\<lparr> bv_clean_due := False, bv_render_due := False \<rparr>"

section \<open>Rows in sight\<close>

text \<open>A row that has a pixel in the viewport.\<close>

definition bv_in_sight :: "buffer_view \<Rightarrow> nat \<Rightarrow> bool" where
  "bv_in_sight v i = (1 \<le> bv_height v \<and> rat_of_nat i * of_int (bv_calculated_height v) < bv_scroll v + of_int (bv_height v)
     \<and> bv_scroll v < (rat_of_nat i + 1) * of_int (bv_calculated_height v))"

definition bv_sane :: "buffer_view \<Rightarrow> bool" where
  "bv_sane v = (0 < bv_row_height v \<and> bv_row_height v < 2 ^ 31 \<and> bv_height v < 2 ^ 31 \<and> 0 \<le> bv_scroll v \<and> bv_scroll v < 2 ^ 31)"

lemma fl_quotient:
  assumes "0 \<le> x" and "x < 2 ^ 31" and "1 \<le> h"
  shows "\<lfloor>x / of_int h\<rfloor> \<le> \<lfloor>fl (x / of_int h)\<rfloor>" and "fl (x / of_int h) \<le> of_int \<lfloor>x / of_int h\<rfloor> + 1"
    and "\<lceil>x / of_int h\<rceil> - 1 \<le> \<lfloor>fl (x / of_int h)\<rfloor>" and "0 \<le> fl (x / of_int h)"
proof -
  let ?q = "x / of_int h"
  have q: "0 \<le> ?q" "?q < 2 ^ 31"
    using assms by (auto simp: divide_less_eq)
  have f: "0 \<le> \<lfloor>?q\<rfloor>" "\<lfloor>?q\<rfloor> < 2 ^ 31" using q by (simp_all add: floor_less_iff)
  have big: "\<bar>?q\<bar> < 2 ^ 53" using q by simp
  show a: "\<lfloor>?q\<rfloor> \<le> \<lfloor>fl ?q\<rfloor>"
    using fl_ge_int[of "\<lfloor>?q\<rfloor>" ?q] big f by (simp add: le_floor_iff)
  have "fl ?q \<le> of_int (\<lfloor>?q\<rfloor> + 1)"
    by (rule fl_le_int) (use big floor_correct[of ?q] in \<open>simp_all add: less_imp_le\<close>)
  then show "fl ?q \<le> of_int \<lfloor>?q\<rfloor> + 1" by simp
  show "\<lceil>?q\<rceil> - 1 \<le> \<lfloor>fl ?q\<rfloor>" using a by linarith
  show "0 \<le> fl ?q" using fl_ge_int[of 0 ?q] big q by simp
qed

lemma bv_sight_visible:
  assumes "bv_sane v" and "bv_in_sight v i" and "i < n"
  shows "bv_visible n v i"
proof -
  let ?h = "bv_calculated_height v"
  let ?x = "bv_scroll v / of_int ?h" and ?y = "of_int (bv_height v) / of_int ?h :: rat"
  have h: "1 \<le> ?h" "(0::rat) < of_int ?h" using assms(1) by (simp_all add: bv_sane_def bv_calculated_height_def bv_border_def)
  have up: "rat_of_nat i < ?x + ?y" and low: "?x < rat_of_nat i + 1"
    using assms(2) h(2) by (simp_all add: bv_in_sight_def pos_less_divide_eq pos_divide_less_eq flip: add_divide_distrib)
  have x: "0 \<le> bv_scroll v" "bv_scroll v < 2 ^ 31" using assms(1) by (simp_all add: bv_sane_def)
  have y: "0 \<le> (of_int (bv_height v) :: rat)" "(of_int (bv_height v) :: rat) < 2 ^ 31" and pos: "1 \<le> bv_height v"
    using assms(1,2) by (simp_all add: bv_sane_def bv_in_sight_def)
  note qx = fl_quotient[OF x h(1)] and qy = fl_quotient[OF y h(1)]
  have start: "\<lfloor>?x\<rfloor> - 1 \<le> bv_start v" "bv_start v \<le> max \<lfloor>?x\<rfloor> 0"
    using qx(1,2) by (auto simp: bv_start_def) linarith+
  have count: "\<lfloor>?y\<rfloor> \<le> bv_visible_count v"
    using qy(1) pos by (simp add: bv_visible_count_def) linarith
  have "\<lfloor>?x\<rfloor> \<le> int i" "int i \<le> \<lfloor>?x\<rfloor> + \<lfloor>?y\<rfloor> + 1"
    using up low by linarith+
  then show ?thesis using start count assms(3) by (auto simp: bv_visible_def bv_first_def bv_last_def)
qed

section \<open>What is drawn\<close>

lemma nth_enumerate_map: "i < length xs \<Longrightarrow> List.map f (enumerate 0 xs) ! i = f (i, xs ! i)"
  by (simp add: nth_enumerate_eq split: prod.split)

lemma bv_count_pos:
  assumes "1 \<le> bv_height v" and "bv_sane v"
  shows "0 < bv_visible_count v"
proof -
  let ?h = "of_int (bv_calculated_height v) :: rat"
  have h: "0 < ?h" "?h \<le> 2 ^ 32" using assms(2) by (simp_all add: bv_sane_def bv_calculated_height_def bv_border_def)
  have "(2::rat) powi (-1074) \<le> 2 powi (-32)" by (rule power_int_increasing) simp_all
  also have "\<dots> = 1 / 2 ^ 32" by (simp only: power_int_minus power_int_numeral divide_inverse mult_1_left)
  also have "\<dots> \<le> of_int (bv_height v) / ?h" using assms(1) h by (intro frac_le) simp_all
  finally have "0 < fl (of_int (bv_height v) / ?h)" by (rule fl_pos)
  then show ?thesis using assms(1) by (simp add: bv_visible_count_def)
qed

text \<open>Every visible row is drawn: what an update leaves, and what the events that follow it keep.\<close>

definition bv_ok :: "buffer_view \<Rightarrow> bool" where
  "bv_ok v = (\<forall>i < length (bv_rows v). bv_visible (length (bv_rows v)) v i \<longrightarrow> bv_rows v ! i)"

lemma bv_visible_cong:
  "bv_scroll w = bv_scroll v \<Longrightarrow> bv_height w = bv_height v \<Longrightarrow> bv_row_height w = bv_row_height v \<Longrightarrow> bv_visible n w = bv_visible n v"
  by (rule ext) (simp add: bv_visible_def bv_first_def bv_last_def bv_start_def bv_visible_count_def bv_calculated_height_def)

lemma bv_ok_update:
  assumes "0 < bv_visible_count v"
  shows "bv_ok (bv_do_update v)"
  using assms by (simp add: bv_ok_def bv_do_update_def bv_clean_def nth_enumerate_eq bv_visible_cong[of "v\<lparr> bv_rows := x \<rparr>" v for x]
      bv_visible_cong[of "v\<lparr> bv_rows := x, bv_clean_due := y \<rparr>" v for x y])

lemma bv_rows_update: "length (bv_rows (bv_do_update v)) = length (bv_rows v)" and bv_fields_update [simp]:
  "bv_scroll (bv_do_update v) = bv_scroll v" "bv_height (bv_do_update v) = bv_height v"
  "bv_row_height (bv_do_update v) = bv_row_height v" "bv_delay (bv_do_update v) = bv_delay v"
  by (simp_all add: bv_do_update_def bv_clean_def)

lemma bv_count_cong: "bv_visible_count (bv_do_update v) = bv_visible_count v"
  by (simp add: bv_visible_count_def bv_calculated_height_def)

text \<open>Cleaning keeps what is visible, and leaves only rows near it.\<close>

lemma bv_clean_rows:
  assumes "0 < bv_visible_count v" and "i < length (bv_rows v)"
  shows "bv_rows (bv_do_clean v) ! i \<longleftrightarrow> bv_rows v ! i \<and> bv_first v - bv_cache \<le> int i
    \<and> int i \<le> bv_last (length (bv_rows v)) v + bv_cache"
  using assms by (auto simp: bv_do_clean_def nth_enumerate_eq Let_def)

lemma bv_ok_clean: "bv_ok v \<Longrightarrow> bv_ok (bv_do_clean v)"
proof (cases "0 < bv_visible_count v")
  case True
  assume ok: "bv_ok v"
  have len: "length (bv_rows (bv_do_clean v)) = length (bv_rows v)" by (simp add: bv_do_clean_def Let_def)
  have vis: "bv_visible n (bv_do_clean v) = bv_visible n v" for n
    by (rule bv_visible_cong) (simp_all add: bv_do_clean_def Let_def)
  have "bv_visible n v i \<Longrightarrow> bv_first v - bv_cache \<le> int i \<and> int i \<le> bv_last n v + bv_cache" for n i
    by (simp add: bv_visible_def bv_cache_def)
  then show ?thesis using ok by (simp add: bv_ok_def len vis bv_clean_rows[OF True])
qed (simp add: bv_do_clean_def)

text \<open>After an update every row with a pixel in the viewport is drawn, and after the cleaning that follows it still is,
  while the rows drawn are at most twenty away from those in the range of the view.\<close>

theorem rows_in_sight_drawn:
  assumes "bv_sane v" and "1 \<le> bv_height v" and "i < length (bv_rows v)"
  shows "(bv_in_sight v i \<longrightarrow> bv_rows (bv_do_update v) ! i \<and> bv_rows (bv_do_clean (bv_do_update v)) ! i)
    \<and> (bv_rows (bv_do_clean (bv_do_update v)) ! i
        \<longrightarrow> bv_first v - 20 \<le> int i \<and> int i \<le> bv_last (length (bv_rows v)) v + 20)"
proof -
  let ?u = "bv_do_update v"
  have pos: "0 < bv_visible_count v" by (rule bv_count_pos[OF assms(2,1)])
  have ok: "bv_ok ?u" "bv_ok (bv_do_clean ?u)" using bv_ok_update[OF pos] bv_ok_clean by blast+
  have len: "length (bv_rows (bv_do_clean ?u)) = length (bv_rows v)" by (simp add: bv_do_clean_def Let_def bv_rows_update)
  have vis: "bv_visible n ?u = bv_visible n v" "bv_visible n (bv_do_clean ?u) = bv_visible n v" for n
    by (rule bv_visible_cong; simp add: bv_do_clean_def Let_def)+
  have ends: "bv_first ?u = bv_first v" "bv_last n ?u = bv_last n v" for n
    by (simp_all add: bv_first_def bv_last_def bv_start_def bv_visible_count_def bv_calculated_height_def)
  show ?thesis
    using ok bv_sight_visible[OF assms(1) _ assms(3)] assms(3) bv_clean_rows[of ?u i] pos
    by (auto simp: bv_ok_def len vis bv_rows_update bv_count_cong ends bv_cache_def)
qed

section \<open>The grid of torrents\<close>

text \<open>The view of the torrent grid updates at once; its store appends records, removes and changes them, and is sorted.\<close>

definition torrent_view :: "int \<Rightarrow> buffer_view" where
  "torrent_view h = \<lparr> bv_row_height = 26, bv_scroll = 0, bv_height = h, bv_rows = [], bv_delay = False,
     bv_render_due = False, bv_clean_due = False \<rparr>"

datatype bv_event = BvScroll rat | BvLayout int | BvSorted | BvAppend nat | BvRemove nat | BvChange nat | BvCleanTask

definition bv_event_ok :: "bv_event \<Rightarrow> bool" where
  "bv_event_ok e = (case e of BvScroll sc \<Rightarrow> 0 \<le> sc \<and> sc < 2 ^ 31 | BvLayout h \<Rightarrow> h < 2 ^ 31 | _ \<Rightarrow> True)"

fun bv_step :: "bv_event \<Rightarrow> buffer_view \<Rightarrow> buffer_view" where
  "bv_step (BvScroll sc) v = bv_sync_scroll sc v"
| "bv_step (BvLayout h) v = bv_layout h v"
| "bv_step BvSorted v = bv_refresh (length (bv_rows v)) v"
| "bv_step (BvAppend k) v = bv_insert (length (bv_rows v)) k v"
| "bv_step (BvRemove i) v = bv_on_remove i v"
| "bv_step (BvChange i) v = bv_row_changed i v"
| "bv_step BvCleanTask v = bv_clean_task v"

definition bv_inv :: "buffer_view \<Rightarrow> bool" where
  "bv_inv v = (bv_sane v \<and> \<not> bv_delay v \<and> (1 \<le> bv_height v \<longrightarrow> bv_ok v))"

lemma bv_sane_update [simp]: "bv_sane (bv_do_update v) = bv_sane v"
  by (simp add: bv_sane_def)

lemma bv_fields_clean [simp]: "bv_scroll (bv_do_clean v) = bv_scroll v" "bv_height (bv_do_clean v) = bv_height v"
  "bv_row_height (bv_do_clean v) = bv_row_height v" "bv_delay (bv_do_clean v) = bv_delay v"
  "bv_sane (bv_do_clean v) = bv_sane v"
  by (simp_all add: bv_do_clean_def bv_sane_def Let_def)

lemma bv_inv_update: "bv_sane v \<Longrightarrow> \<not> bv_delay v \<Longrightarrow> bv_inv (bv_update v)"
  by (simp add: bv_inv_def bv_update_def bv_ok_update bv_count_pos)

lemma bv_inv_refresh: "bv_sane v \<Longrightarrow> \<not> bv_delay v \<Longrightarrow> bv_inv (bv_refresh n v)"
  unfolding bv_refresh_def bv_layout_def by (rule bv_inv_update) (simp_all add: bv_sane_def)

lemma bv_inv_append:
  assumes "bv_inv v"
  shows "bv_inv (bv_insert (length (bv_rows v)) k v)"
proof (cases "bv_rows v = []")
  case True
  then show ?thesis using assms bv_inv_refresh[of v] by (simp add: bv_insert_def bv_inv_def)
next
  case False
  let ?n = "length (bv_rows v)" and ?w = "bv_insert (length (bv_rows v)) k v"
  have w: "?w = v\<lparr> bv_rows := bv_rows v @ bv_do_render (?n + k) ?n k v \<rparr>" using False by (simp add: bv_insert_def Let_def)
  have vis: "bv_visible m ?w = bv_visible m v" for m by (rule bv_visible_cong) (simp_all add: w)
  have old: "bv_visible (?n + k) v i \<Longrightarrow> i < ?n \<Longrightarrow> bv_visible ?n v i" for i
    by (auto simp: bv_visible_def bv_last_def)
  have "bv_ok ?w" if "bv_ok v"
    unfolding bv_ok_def vis
  proof (intro allI impI)
    fix i assume i: "i < length (bv_rows ?w)" "bv_visible (length (bv_rows ?w)) v i"
    then show "bv_rows ?w ! i"
      using that old by (cases "i < ?n") (auto simp: w bv_ok_def nth_append bv_do_render_def)
  qed
  then show ?thesis using assms by (simp add: bv_inv_def w bv_sane_def)
qed

lemma nth_update_True: "j < length xs \<Longrightarrow> xs ! j \<Longrightarrow> xs[i := True] ! j"
  by (cases "i = j") auto

lemma bv_inv_step:
  assumes "bv_inv v" and "bv_event_ok e"
  shows "bv_inv (bv_step e v)"
proof (cases e)
  case (BvChange i)
  have vis: "bv_visible n (bv_row_changed i v) = bv_visible n v" for n by (rule bv_visible_cong) (simp_all add: bv_row_changed_def)
  show ?thesis using assms BvChange
    by (simp add: bv_inv_def bv_ok_def vis) (auto simp: bv_row_changed_def bv_sane_def nth_update_True)
next
  case BvCleanTask
  let ?c = "v\<lparr> bv_clean_due := False \<rparr>"
  have "bv_ok ?c \<longleftrightarrow> bv_ok v" by (simp add: bv_ok_def bv_visible_cong[of ?c v])
  then show ?thesis using assms BvCleanTask bv_ok_clean[of ?c]
    by (simp add: bv_inv_def bv_clean_task_def) (simp add: bv_sane_def)
qed (use assms bv_inv_append bv_inv_refresh in \<open>auto simp: bv_inv_def[of v] bv_event_ok_def bv_sync_scroll_def bv_layout_def bv_on_remove_def
    bv_sane_def intro!: bv_inv_update\<close>)

text \<open>C31: However the grid of torrents is scrolled, resized, sorted, filled, changed and cleaned, every row in sight is drawn.\<close>

theorem torrent_rows_drawn:
  assumes "h < 2 ^ 31" and "list_all bv_event_ok es" and "i < length (bv_rows (each_do bv_step es (torrent_view h)))"
    and "bv_in_sight (each_do bv_step es (torrent_view h)) i"
  shows "bv_rows (each_do bv_step es (torrent_view h)) ! i"
proof -
  have "bv_inv (torrent_view h)"
    using assms(1) by (simp add: bv_inv_def torrent_view_def bv_sane_def bv_ok_def)
  moreover have "bv_inv (each_do bv_step es v)" if "bv_inv v" "list_all bv_event_ok es" for v
    using that by (induction es arbitrary: v) (simp_all add: bv_inv_step)
  ultimately have inv: "bv_inv (each_do bv_step es (torrent_view h))" using assms(2) by blast
  then have "bv_sane (each_do bv_step es (torrent_view h))" "1 \<le> bv_height (each_do bv_step es (torrent_view h))"
    using assms(4) by (simp_all add: bv_inv_def bv_in_sight_def)
  then show ?thesis using inv bv_sight_visible[OF _ assms(4,3)] assms(3) by (simp add: bv_inv_def bv_ok_def)
qed

theorem torrent_rows_drawn_witness:
  "bv_rows (each_do bv_step [BvAppend 3, BvScroll 30] (torrent_view 40)) ! 2"
proof (rule torrent_rows_drawn)
  show "2 < length (bv_rows (each_do bv_step [BvAppend 3, BvScroll 30] (torrent_view 40)))" by code_simp
  show "bv_in_sight (each_do bv_step [BvAppend 3, BvScroll 30] (torrent_view 40)) 2" by code_simp
qed (simp_all add: bv_event_ok_def)

theorem rows_in_sight_drawn_witness:
  "bv_rows (bv_do_clean (bv_do_update ((torrent_view 300)\<lparr> bv_rows := replicate 100 False, bv_scroll := 1000 \<rparr>))) ! 40"
  by (rule rows_in_sight_drawn[THEN conjunct1, rule_format, THEN conjunct2]) (simp_all add: torrent_view_def bv_sane_def
      bv_in_sight_def bv_calculated_height_def bv_border_def)

end
