(* ===== verification/Spinner.thy ===== *)
theory Spinner
  imports DoubleBounds
begin

text \<open>
  The number fields with arrows of the preferences and dialogs
  (extjs/ext-extensions/Spinner.js, form/SpinnerField.js, form/SpinnerGroup.js). A field
  keeps the text that is shown; its number is read from the text and written back rounded to
  the decimals of the field. The text of a number denotes the number, so that
  \<open>parseFloat\<close> of a number is the number.
\<close>

section \<open>Numbers and their text\<close>

text \<open>\<open>parseFloat\<close>: the longest prefix that is a decimal number.\<close>

definition exponent_of :: "string \<Rightarrow> int" where
  "exponent_of r = (case r of [] \<Rightarrow> 0
     | c # cs \<Rightarrow> if c = CHR ''e'' \<or> c = CHR ''E'' then
         (let neg = (take 1 cs = ''-''); ds = takeWhile is_digit (if neg \<or> take 1 cs = ''+'' then drop 1 cs else cs) in
          if neg then - digits_val ds else digits_val ds)
       else 0)"

definition float_of :: "bool \<Rightarrow> string \<Rightarrow> jsnum" where
  "float_of neg u = (let a = takeWhile is_digit u; r = dropWhile is_digit u;
       b = (if take 1 r = ''.'' then takeWhile is_digit (drop 1 r) else []);
       r' = (if take 1 r = ''.'' then dropWhile is_digit (drop 1 r) else r) in
     if take 8 u = ''Infinity'' then inf_signed neg
     else if a = [] \<and> b = [] then NaN
     else let x = of_int (digits_val (a @ b)) * 10 powi (exponent_of r' - int (length b)) in
       num_of_rat (if neg then - x else x))"

definition parse_float :: "string \<Rightarrow> jsnum" where
  "parse_float s = (let t = dropWhile is_space s; neg = (take 1 t = ''-'') in
     float_of neg (if neg \<or> take 1 t = ''+'' then drop 1 t else t))"

section \<open>A field and its spinner\<close>

datatype spin_event = Spin | SpinUp | SpinDown

text \<open>No number of decimals is the value -1 of \<open>decimalPrecision\<close>.\<close>

record spin_field =
  sf_text :: string
  sf_min :: jsnum
  sf_max :: jsnum
  sf_decimals :: "nat option"
  sf_allow_decimals :: bool
  sf_disabled :: bool
  sf_read_only :: bool
  sf_focused :: bool
  sf_increment :: jsnum
  sf_alternate :: jsnum
  sf_default :: jsnum
  sf_drag_y :: int
  sf_trace :: "spin_event list"

text \<open>The defaults of the two classes; the largest double is the upper bound.\<close>

definition sf_new :: spin_field where
  "sf_new = \<lparr> sf_text = [], sf_min = NInf, sf_max = Fin max_double, sf_decimals = Some 2, sf_allow_decimals = True,
     sf_disabled = False, sf_read_only = False, sf_focused = False, sf_increment = Fin 1, sf_alternate = Fin 5,
     sf_default = Fin 0, sf_drag_y = 0, sf_trace = [] \<rparr>"

text \<open>\<open>fixPrecision\<close>, of the spinner and of the field; a value that is no number becomes the empty text.\<close>

definition fix_precision :: "spin_field \<Rightarrow> jsnum \<Rightarrow> jsnum" where
  "fix_precision f v = (case sf_decimals f of None \<Rightarrow> v
     | Some p \<Rightarrow> if \<not> sf_allow_decimals f \<or> v = NaN \<or> v = Fin 0 then v else parse_float (num_to_fixed p v))"

definition num_text :: "jsnum \<Rightarrow> string" where
  "num_text v = (if v = NaN then [] else num_str v)"

definition sf_get_value :: "spin_field \<Rightarrow> jsnum" where
  "sf_get_value f = fix_precision f (parse_float (sf_text f))"

definition sf_set_value :: "jsval \<Rightarrow> spin_field \<Rightarrow> spin_field" where
  "sf_set_value v f = f\<lparr> sf_text := num_text (fix_precision f (case v of Num n \<Rightarrow> n | _ \<Rightarrow> parse_float (to_str v))) \<rparr>"

definition fix_boundaries :: "spin_field \<Rightarrow> jsnum \<Rightarrow> jsnum" where
  "fix_boundaries f v = (let v = (if num_lt v (sf_min f) then sf_min f else v);
       v = (if num_lt (sf_max f) v then sf_max f else v) in fix_precision f v)"

definition sf_spin :: "bool \<Rightarrow> bool \<Rightarrow> spin_field \<Rightarrow> spin_field" where
  "sf_spin down alternate f = (let incr = (if alternate then sf_alternate f else sf_increment f);
       v = (if down then num_sub (sf_get_value f) incr else num_add (sf_get_value f) incr);
       v = (if v = NaN then sf_default f else v) in
     f\<lparr> sf_text := num_text (fix_boundaries f v) \<rparr>)"

definition is_spinnable :: "spin_field \<Rightarrow> bool" where
  "is_spinnable f = (\<not> sf_disabled f \<and> \<not> sf_read_only f)"

definition sf_fire :: "spin_event \<Rightarrow> spin_field \<Rightarrow> spin_field" where
  "sf_fire e f = f\<lparr> sf_trace := sf_trace f @ [Spin, e] \<rparr>"

definition on_spin_up_alternate :: "spin_field \<Rightarrow> spin_field" where
  "on_spin_up_alternate f = (if is_spinnable f then sf_fire SpinUp (sf_spin False True f) else f)"

definition on_spin_down_alternate :: "spin_field \<Rightarrow> spin_field" where
  "on_spin_down_alternate f = (if is_spinnable f then sf_fire SpinDown (sf_spin True True f) else f)"

text \<open>The shift key makes a step the alternative one.\<close>

definition on_spin_up :: "bool \<Rightarrow> spin_field \<Rightarrow> spin_field" where
  "on_spin_up shift f = (if \<not> is_spinnable f then f else if shift then on_spin_up_alternate f
     else sf_fire SpinUp (sf_spin False False f))"

definition on_spin_down :: "bool \<Rightarrow> spin_field \<Rightarrow> spin_field" where
  "on_spin_down shift f = (if \<not> is_spinnable f then f else if shift then on_spin_down_alternate f
     else sf_fire SpinDown (sf_spin True False f))"

text \<open>A click above or below the middle of the arrows, the wheel over a field with the focus, and dragging the divider.\<close>

definition get_middle :: "int \<Rightarrow> int \<Rightarrow> rat" where
  "get_middle t h = of_int t + of_int h / 2"

definition on_trigger_click :: "bool \<Rightarrow> int \<Rightarrow> rat \<Rightarrow> spin_field \<Rightarrow> spin_field" where
  "on_trigger_click shift y middle f = (if \<not> is_spinnable f then f
     else if of_int y < middle then on_spin_up shift f else on_spin_down shift f)"

definition handle_mouse_wheel :: "bool \<Rightarrow> int \<Rightarrow> spin_field \<Rightarrow> spin_field" where
  "handle_mouse_wheel shift delta f = (if \<not> sf_focused f then f
     else if 0 < delta then on_spin_up shift f else if delta < 0 then on_spin_down shift f else f)"

definition start_drag :: "int \<Rightarrow> spin_field \<Rightarrow> spin_field" where
  "start_drag y f = f\<lparr> sf_drag_y := y \<rparr>"

definition on_drag :: "bool \<Rightarrow> int \<Rightarrow> spin_field \<Rightarrow> spin_field" where
  "on_drag shift y f = (if sf_disabled f then f
     else (if y < sf_drag_y f then on_spin_up shift f else if sf_drag_y f < y then on_spin_down shift f else f)\<lparr> sf_drag_y := y \<rparr>)"

definition sf_do_enable :: "spin_field \<Rightarrow> spin_field" where
  "sf_do_enable f = f\<lparr> sf_disabled := False \<rparr>"

definition sf_do_disable :: "spin_field \<Rightarrow> spin_field" where
  "sf_do_disable f = f\<lparr> sf_disabled := True \<rparr>"

definition sf_do_focus :: "spin_field \<Rightarrow> spin_field" where
  "sf_do_focus f = f\<lparr> sf_focused := True \<rparr>"

text \<open>Leaving the field rounds what was typed; it is not brought into the bounds.\<close>

definition sf_trigger_blur :: "spin_field \<Rightarrow> spin_field" where
  "sf_trigger_blur f = (let v = parse_float (sf_text f); f = f\<lparr> sf_focused := False \<rparr> in
     if v = NaN then f else sf_set_value (Num v) f)"

section \<open>Reading back what was written\<close>

lemma digits_then: "list_all is_digit a \<Longrightarrow> \<not> is_digit c \<Longrightarrow>
    takeWhile is_digit (a @ c # cs) = a \<and> dropWhile is_digit (a @ c # cs) = c # cs"
  by (induction a) auto

lemma float_of_decimal:
  assumes "list_all is_digit a" and "a \<noteq> []" and "list_all is_digit b"
  shows "float_of neg (a @ (if b = [] then [] else CHR ''.'' # b))
    = num_of_rat ((if neg then -1 else 1) * (of_int (digits_val (a @ b)) * 10 powi (- int (length b))))"
proof -
  obtain c cs where a: "a = c # cs" using assms(2) by (cases a) auto
  have "c \<noteq> CHR ''I''" using assms(1) a digit_chars by auto
  then have inf: "take 8 (a @ y) \<noteq> ''Infinity''" for y using a by auto
  have dot: "\<not> is_digit CHR ''.''" by (simp add: is_digit_def)
  show ?thesis
  proof (cases "b = []")
    case True
    have tw: "takeWhile is_digit a = a" "dropWhile is_digit a = []" using takeWhile_digits[OF assms(1)] by blast+
    show ?thesis using True inf[of "[]"] assms(2)
      by (simp add: float_of_def Let_def exponent_of_def tw del: take_append)
  next
    case False
    have tl: "takeWhile is_digit (a @ CHR ''.'' # b) = a" "dropWhile is_digit (a @ CHR ''.'' # b) = CHR ''.'' # b"
      using digits_then[OF assms(1) dot] by simp_all
    have tw: "takeWhile is_digit b = b" "dropWhile is_digit b = []" using takeWhile_digits[OF assms(3)] by blast+
    show ?thesis using False inf[of "CHR ''.'' # b"] assms(2)
      by (simp add: float_of_def Let_def exponent_of_def tl tw del: take_append)
  qed
qed

lemma parse_float_decimal:
  assumes "list_all is_digit a" and "a \<noteq> []" and "list_all is_digit b"
  shows "parse_float ((if neg then ''-'' else []) @ a @ (if b = [] then [] else CHR ''.'' # b))
    = num_of_rat ((if neg then -1 else 1) * (of_int (digits_val (a @ b)) * 10 powi (- int (length b))))"
proof -
  obtain c cs where a: "a = c # cs" using assms(2) by (cases a) auto
  have c: "is_digit c" using assms(1) a by simp
  have "\<not> is_space c" "c \<noteq> CHR ''-''" "c \<noteq> CHR ''+''" "\<not> is_space CHR ''-''"
    using digit_chars[OF c] is_digit_not_space[OF c] by (auto simp: is_space_def)
  then have "parse_float ((if neg then ''-'' else []) @ a @ y) = float_of neg (a @ y)" for y
    by (simp add: parse_float_def a)
  then show ?thesis by (simp only: float_of_decimal[OF assms])
qed

lemma pad_left_digits: "0 \<le> n \<Longrightarrow> list_all is_digit (pad_left k (dec_str n)) \<and> k \<le> length (pad_left k (dec_str n))
    \<and> digits_val (pad_left k (dec_str n)) = n"
proof -
  assume n: "0 \<le> n"
  have z: "digits_val (replicate m CHR ''0'' @ s) = digits_val s" for m s
    by (induction m) (simp_all add: digits_val_def digit_val_def)
  have "list_all is_digit (replicate m CHR ''0'')" for m by (induction m) (simp_all add: is_digit_def)
  then show ?thesis using n by (auto simp: pad_left_def z digits_val_dec_str dec_str_digits)
qed

text \<open>The text of \<open>toFixed\<close> denotes the decimal it was made from.\<close>

lemma parse_to_fixed:
  "parse_float (to_fixed p x) = num_of_rat ((if x < 0 then -1 else 1) * (of_int (fixed_int p x) / 10 ^ p))"
proof -
  define n where "n = fixed_int p x"
  have n: "0 \<le> n" by (simp add: n_def fixed_int_def)
  have pow: "(10::rat) powi (- int p) = 1 / 10 ^ p" by (simp add: power_int_minus divide_inverse)
  show ?thesis
  proof (cases "p = 0")
    case True
    then show ?thesis
      using parse_float_decimal[of "dec_str n" "[]" "x < 0"] n
      by (simp add: to_fixed_def Let_def dec_str_digits digits_val_dec_str n_def del: dec_str.simps)
  next
    case False
    define s where "s = pad_left (p + 1) (dec_str n)"
    have s: "list_all is_digit s" "p + 1 \<le> length s" "digits_val s = n" using pad_left_digits[OF n, of "p + 1"] by (simp_all add: s_def)
    define a b where "a = take (length s - p) s" and "b = drop (length s - p) s"
    have ab: "list_all is_digit a" "list_all is_digit b" "a \<noteq> []" "length b = p" "b \<noteq> []" "a @ b = s"
      using s False by (auto simp: a_def b_def list_all_iff dest: in_set_takeD in_set_dropD)
    have "to_fixed p x = (if x < 0 then ''-'' else []) @ a @ (if b = [] then [] else CHR ''.'' # b)"
      using False ab(5) by (simp add: to_fixed_def Let_def a_def b_def s_def n_def)
    then show ?thesis using parse_float_decimal[OF ab(1,3,2), of "x < 0"] ab(4) s(3)
      by (simp only: ab(6) pow n_def[symmetric]) simp
  qed
qed

lemma fixed_int_between:
  assumes "of_int lo \<le> x" and "x \<le> of_int hi"
  shows "of_int lo \<le> (if x < 0 then -1 else 1) * (of_int (fixed_int p x) / 10 ^ p :: rat)
    \<and> (if x < 0 then -1 else 1) * (of_int (fixed_int p x) / 10 ^ p) \<le> (of_int hi :: rat)"
proof -
  have up: "of_int (fixed_int p x) / 10 ^ p \<le> (of_int b :: rat)" if "\<bar>x\<bar> \<le> of_int b" for b
  proof -
    have "\<bar>x\<bar> * 10 ^ p \<le> of_int (b * 10 ^ p)" using that by (simp add: mult_right_mono)
    then have "fixed_int p x \<le> b * 10 ^ p" unfolding fixed_int_def by linarith
    then have "(of_int (fixed_int p x) :: rat) \<le> of_int (b * 10 ^ p)" by (simp only: of_int_le_iff)
    then show ?thesis by (simp add: pos_divide_le_eq)
  qed
  have low: "(of_int b :: rat) \<le> of_int (fixed_int p x) / 10 ^ p" if "of_int b \<le> \<bar>x\<bar>" for b
  proof -
    have "of_int (b * 10 ^ p) \<le> \<bar>x\<bar> * 10 ^ p" using that by (simp add: mult_right_mono)
    then have "b * 10 ^ p \<le> fixed_int p x" unfolding fixed_int_def by linarith
    then have "of_int (b * 10 ^ p) \<le> (of_int (fixed_int p x) :: rat)" by (simp only: of_int_le_iff)
    then show ?thesis by (simp add: pos_le_divide_eq)
  qed
  show ?thesis
  proof (cases "x < 0")
    case True
    then show ?thesis using up[of "- lo"] low[of "- hi"] assms by simp
  next
    case False
    then show ?thesis using up[of hi] low[of lo] assms by simp
  qed
qed

lemma fixed_in_range:
  assumes "of_int lo \<le> x" and "x \<le> of_int hi" and "\<bar>lo\<bar> < 2 ^ 52" and "\<bar>hi\<bar> < 2 ^ 52"
  shows "\<exists>r. fix_precision f (Fin x) = Fin r \<and> of_int lo \<le> r \<and> r \<le> of_int hi"
proof (cases "sf_decimals f = None \<or> \<not> sf_allow_decimals f \<or> x = 0")
  case True
  then show ?thesis using assms(1,2) by (auto simp: fix_precision_def split: option.splits)
next
  case False
  then obtain p where p: "sf_decimals f = Some p" "sf_allow_decimals f" "x \<noteq> 0" by auto
  define q where "q = (if x < 0 then -1 else 1) * (of_int (fixed_int p x) / 10 ^ p :: rat)"
  have q: "of_int lo \<le> q" "q \<le> of_int hi" using fixed_int_between[OF assms(1,2)] by (simp_all add: q_def)
  have ends: "- (2 ^ 52) < (of_int lo :: rat)" "(of_int hi :: rat) < 2 ^ 52"
    using assms(3,4) of_int_less_iff[where 'a = rat, of "- (2 ^ 52)" lo] of_int_less_iff[where 'a = rat, of hi "2 ^ 52"] by simp_all
  then have small: "\<bar>x\<bar> < 10 ^ 21" "\<bar>q\<bar> < 2 ^ 53" using assms(1,2) q by (simp_all add: abs_if)
  have f: "of_int lo \<le> fl q" "fl q \<le> of_int hi"
    using fl_ge_int[OF q(1) small(2)] fl_le_int[OF q(2) small(2)] by simp_all
  have "\<not> double_overflow \<le> fl q" "\<not> fl q \<le> - double_overflow"
    using f ends double_overflow_big by (simp_all add: not_le)
  then have "num_of_rat q = Fin (fl q)" by (simp add: num_of_rat_def Let_def)
  moreover have "fix_precision f (Fin x) = num_of_rat q"
    using p small(1) by (simp add: fix_precision_def parse_to_fixed q_def)
  ultimately show ?thesis using f by simp
qed

definition sf_bounds :: "int \<Rightarrow> int \<Rightarrow> spin_field \<Rightarrow> bool" where
  "sf_bounds lo hi f = (sf_min f = Fin (of_int lo) \<and> sf_max f = Fin (of_int hi) \<and> lo \<le> hi \<and> \<bar>lo\<bar> < 2 ^ 52 \<and> \<bar>hi\<bar> < 2 ^ 52
     \<and> (\<exists>d. sf_default f = Fin d))"

definition sf_in_bounds :: "int \<Rightarrow> int \<Rightarrow> spin_field \<Rightarrow> bool" where
  "sf_in_bounds lo hi f = (\<exists>r. sf_text f = num_str (Fin r) \<and> of_int lo \<le> r \<and> r \<le> of_int hi)"

lemma boundaries_in_range:
  assumes "sf_bounds lo hi f" and "v \<noteq> NaN"
  shows "\<exists>r. fix_boundaries f v = Fin r \<and> of_int lo \<le> r \<and> r \<le> of_int hi"
proof -
  have b: "sf_min f = Fin (of_int lo)" "sf_max f = Fin (of_int hi)" "\<bar>lo\<bar> < 2 ^ 52" "\<bar>hi\<bar> < 2 ^ 52" "rat_of_int lo \<le> of_int hi"
    using assms(1) by (simp_all add: sf_bounds_def)
  have "\<exists>x. fix_boundaries f v = fix_precision f (Fin x) \<and> of_int lo \<le> x \<and> x \<le> of_int hi"
    using assms(2) b(5) by (cases v) (auto simp: fix_boundaries_def b(1,2) Let_def)
  then show ?thesis using fixed_in_range[OF _ _ b(3,4)] by metis
qed

lemma sf_spin_in_bounds:
  assumes "sf_bounds lo hi f"
  shows "sf_bounds lo hi (sf_spin down alt f)" and "sf_in_bounds lo hi (sf_spin down alt f)"
proof -
  obtain d where d: "sf_default f = Fin d" using assms by (auto simp: sf_bounds_def)
  show "sf_bounds lo hi (sf_spin down alt f)" using assms by (simp add: sf_bounds_def sf_spin_def Let_def)
  have "\<exists>v. v \<noteq> NaN \<and> sf_text (sf_spin down alt f) = num_text (fix_boundaries f v)"
    unfolding sf_spin_def Let_def using d by (auto intro!: exI)
  then obtain v where "v \<noteq> NaN" "sf_text (sf_spin down alt f) = num_text (fix_boundaries f v)" by blast
  with boundaries_in_range[OF assms, of v] show "sf_in_bounds lo hi (sf_spin down alt f)"
    by (auto simp: sf_in_bounds_def num_text_def)
qed

section \<open>What a user does with the arrows\<close>

datatype spin_input = KeyUp bool | KeyDown bool | PageUp | PageDown | Click bool int int int | Wheel bool int | DragStart int | Drag bool int
  | Enable | Disable | Focus

fun sf_step :: "spin_input \<Rightarrow> spin_field \<Rightarrow> spin_field" where
  "sf_step (KeyUp shift) f = on_spin_up shift f"
| "sf_step (KeyDown shift) f = on_spin_down shift f"
| "sf_step PageUp f = on_spin_up_alternate f"
| "sf_step PageDown f = on_spin_down_alternate f"
| "sf_step (Click shift y t h) f = on_trigger_click shift y (get_middle t h) f"
| "sf_step (Wheel shift delta) f = handle_mouse_wheel shift delta f"
| "sf_step (DragStart y) f = start_drag y f"
| "sf_step (Drag shift y) f = on_drag shift y f"
| "sf_step Enable f = sf_do_enable f"
| "sf_step Disable f = sf_do_disable f"
| "sf_step Focus f = sf_do_focus f"

text \<open>Nothing was changed yet, or the number shown is within the bounds.\<close>

definition sf_kept :: "int \<Rightarrow> int \<Rightarrow> spin_field \<Rightarrow> spin_field \<Rightarrow> bool" where
  "sf_kept lo hi f g = (sf_bounds lo hi g \<and> (sf_text g = sf_text f \<and> sf_trace g = sf_trace f \<or> sf_in_bounds lo hi g))"

lemma sf_kept_spins:
  assumes "sf_kept lo hi f g"
  shows "sf_kept lo hi f (on_spin_up_alternate g)" "sf_kept lo hi f (on_spin_down_alternate g)"
    "sf_kept lo hi f (on_spin_up shift g)" "sf_kept lo hi f (on_spin_down shift g)"
proof -
  have fire: "sf_bounds lo hi (sf_fire e h) = sf_bounds lo hi h" "sf_in_bounds lo hi (sf_fire e h) = sf_in_bounds lo hi h" for e h
    by (simp_all add: sf_fire_def sf_bounds_def sf_in_bounds_def)
  have spin: "sf_kept lo hi f (sf_fire e (sf_spin down alt g))" for e down alt
    using assms sf_spin_in_bounds[of lo hi g] by (simp add: sf_kept_def fire)
  show "sf_kept lo hi f (on_spin_up_alternate g)" "sf_kept lo hi f (on_spin_down_alternate g)"
    using assms spin by (simp_all add: on_spin_up_alternate_def on_spin_down_alternate_def)
  then show "sf_kept lo hi f (on_spin_up shift g)" "sf_kept lo hi f (on_spin_down shift g)"
    using assms spin by (simp_all add: on_spin_up_def on_spin_down_def)
qed

lemma sf_kept_fields: "sf_kept lo hi f (g\<lparr> sf_drag_y := y \<rparr>) = sf_kept lo hi f g"
  "sf_kept lo hi f (g\<lparr> sf_disabled := b \<rparr>) = sf_kept lo hi f g" "sf_kept lo hi f (g\<lparr> sf_focused := b \<rparr>) = sf_kept lo hi f g"
  by (simp_all add: sf_kept_def sf_bounds_def sf_in_bounds_def)

lemma sf_kept_step: "sf_kept lo hi f g \<Longrightarrow> sf_kept lo hi f (sf_step e g)"
  by (cases e) (simp_all add: sf_kept_spins sf_kept_fields on_trigger_click_def handle_mouse_wheel_def start_drag_def on_drag_def
      sf_do_enable_def sf_do_disable_def sf_do_focus_def)

text \<open>C32: Whatever is done with the keys, the arrows, the wheel and the divider of a field whose bounds are whole numbers, it
  either was not changed at all or shows a number within its bounds, also after the rounding to its decimals.\<close>

theorem spin_stays_in_bounds:
  assumes "sf_bounds lo hi f"
  shows "let g = each_do sf_step es f in (sf_text g = sf_text f \<and> sf_trace g = sf_trace f)
    \<or> (\<exists>r. sf_text g = num_str (Fin r) \<and> of_int lo \<le> r \<and> r \<le> of_int hi)"
proof -
  have "sf_kept lo hi f f" using assms by (simp add: sf_kept_def)
  then have "sf_kept lo hi f (each_do sf_step es f)"
    by (rule each_do_invariant[where P = "sf_kept lo hi f"]) (rule sf_kept_step)
  then show ?thesis by (simp add: sf_kept_def sf_in_bounds_def Let_def)
qed

definition slots_field :: spin_field where
  "slots_field = sf_new\<lparr> sf_text := ''9998.5'', sf_min := Fin (-1), sf_max := Fin 9999, sf_decimals := Some 1 \<rparr>"

theorem spin_stays_in_bounds_witness:
  "let g = each_do sf_step [KeyUp False, PageUp] slots_field in (sf_text g = ''9998.5'' \<and> sf_trace g = [])
    \<or> (\<exists>r. sf_text g = num_str (Fin r) \<and> -1 \<le> r \<and> r \<le> 9999)"
proof -
  have "sf_bounds (-1) 9999 slots_field" by (simp add: sf_bounds_def slots_field_def sf_new_def)
  from spin_stays_in_bounds[OF this, of "[KeyUp False, PageUp]"] show ?thesis
    by (simp add: slots_field_def sf_new_def del: each_do.simps)
qed

section \<open>Whole numbers\<close>

lemma parse_float_int:
  assumes "\<bar>i\<bar> < 2 ^ 53"
  shows "parse_float (int_str i) = Fin (of_int i)"
proof -
  have "num_of_rat (of_int i) = Fin (of_int i)" by (rule num_of_rat_int[OF assms])
  moreover have "parse_float ((if i < 0 then ''-'' else []) @ dec_str \<bar>i\<bar>) = num_of_rat (of_int i)"
    using parse_float_decimal[of "dec_str \<bar>i\<bar>" "[]" "i < 0"] by (simp add: dec_str_digits digits_val_dec_str)
  ultimately show ?thesis by (cases "i < 0") (simp_all add: int_str_def)
qed

lemma fix_precision_int:
  assumes "\<bar>i\<bar> < 2 ^ 53"
  shows "fix_precision f (Fin (of_int i)) = Fin (of_int i)"
proof -
  have "fixed_int p (of_int i) = \<bar>i\<bar> * 10 ^ p" for p
    unfolding fixed_int_def by (rule floor_unique) simp_all
  then have "(if of_int i < (0::rat) then -1 else 1) * (of_int (fixed_int p (of_int i)) / 10 ^ p) = (of_int i :: rat)" for p
    by simp
  moreover have "\<bar>of_int i :: rat\<bar> < 10 ^ 21"
  proof -
    have "\<bar>rat_of_int i\<bar> < 2 ^ 53" using assms by (metis of_int_abs of_int_less_iff of_int_numeral of_int_power)
    then show ?thesis by simp
  qed
  ultimately show ?thesis
    by (simp add: fix_precision_def parse_to_fixed num_of_rat_int[OF assms] split: option.split)
qed

lemma sf_get_int: "\<bar>i\<bar> < 2 ^ 53 \<Longrightarrow> sf_text f = int_str i \<Longrightarrow> sf_get_value f = Fin (of_int i)"
  by (simp add: sf_get_value_def parse_float_int fix_precision_int)

lemma sf_spin_int:
  assumes "sf_text f = int_str i" and "sf_bounds lo hi f" and "sf_increment f = Fin 1" and "j = (if down then i - 1 else i + 1)"
    and "lo \<le> j" and "j \<le> hi"
  shows "sf_spin down False f = f\<lparr> sf_text := int_str j \<rparr>"
proof -
  have b: "\<bar>lo\<bar> < 2 ^ 52" "\<bar>hi\<bar> < 2 ^ 52" "sf_min f = Fin (of_int lo)" "sf_max f = Fin (of_int hi)"
    using assms(2) by (simp_all add: sf_bounds_def)
  have i: "\<bar>i\<bar> < 2 ^ 53" and j: "\<bar>j\<bar> < 2 ^ 53" using b assms(4-6) by (auto split: if_splits)
  have "rat_of_int i + 1 = of_int (i + 1)" "rat_of_int i - 1 = of_int (i - 1)" by simp_all
  then have v: "(if down then num_sub (Fin (of_int i)) (Fin 1) else num_add (Fin (of_int i)) (Fin 1)) = Fin (of_int j)"
    using num_of_rat_int[OF j] assms(4) by (cases down) (simp_all add: num_sub_def)
  have "fix_boundaries f (Fin (of_int j)) = Fin (of_int j)"
    using assms(5,6) by (simp add: fix_boundaries_def b Let_def fix_precision_int[OF j])
  then show ?thesis
    unfolding sf_spin_def sf_get_int[OF i assms(1)] assms(3) if_False v Let_def
    by (simp add: num_text_def rat_str_int[OF j])
qed

text \<open>On a field that can be spun, a step up from a whole number below the upper bound shows the next one, and a step down
  then shows the number again.\<close>

theorem spin_up_down:
  assumes "sf_text f = int_str i" and "sf_bounds lo hi f" and "sf_increment f = Fin 1" and "is_spinnable f" and "lo \<le> i" and "i < hi"
  shows "sf_text (on_spin_up False f) = int_str (i + 1) \<and> sf_text (on_spin_down False (on_spin_up False f)) = int_str i
    \<and> sf_trace (on_spin_down False (on_spin_up False f)) = sf_trace f @ [Spin, SpinUp, Spin, SpinDown]"
proof -
  let ?g = "sf_fire SpinUp (f\<lparr> sf_text := int_str (i + 1) \<rparr>)"
  have up: "on_spin_up False f = ?g"
    using sf_spin_int[OF assms(1-3), of "i + 1" False] assms(4-6) by (simp add: on_spin_up_def)
  have g: "sf_text ?g = int_str (i + 1)" "sf_bounds lo hi ?g" "sf_increment ?g = Fin 1" "is_spinnable ?g"
    using assms(2-4) by (simp_all add: sf_fire_def sf_bounds_def is_spinnable_def)
  have "on_spin_down False ?g = sf_fire SpinDown (?g\<lparr> sf_text := int_str i \<rparr>)"
    using sf_spin_int[OF g(1-3), of i True] g(4) assms(5,6) by (simp add: on_spin_down_def)
  then show ?thesis by (simp add: up) (simp add: sf_fire_def)
qed

definition connections_field :: spin_field where
  "connections_field = sf_new\<lparr> sf_text := ''-1'', sf_min := Fin (-1), sf_max := Fin 9999, sf_decimals := Some 0 \<rparr>"

theorem spin_up_down_witness: "sf_text (on_spin_up False connections_field) = int_str 0"
proof -
  have "int_str (-1) = ''-1''" by code_simp
  then show ?thesis using spin_up_down[of connections_field "-1" "-1" 9999]
    by (simp add: connections_field_def sf_new_def sf_bounds_def is_spinnable_def)
qed

section \<open>Groups of number fields\<close>

text \<open>The fields of a group are placed in columns when it is rendered: down the columns, or row by row.\<close>

definition sg_column :: "bool \<Rightarrow> nat \<Rightarrow> nat \<Rightarrow> nat \<Rightarrow> nat" where
  "sg_column vertical n cols i = (if vertical then i div ((n + cols - 1) div cols) else i mod cols)"

definition sg_columns :: "bool \<Rightarrow> nat \<Rightarrow> 'a list \<Rightarrow> 'a list list" where
  "sg_columns vertical cols items = List.map (\<lambda>c. List.map snd
     (List.filter (\<lambda>(i, x). sg_column vertical (length items) cols i = c) (enumerate 0 items))) [0..<cols]"

lemma sg_column_less: "i < n \<Longrightarrow> 0 < cols \<Longrightarrow> sg_column vertical n cols i < cols"
proof -
  assume i: "i < n" and c: "0 < cols"
  have "n \<le> cols * ((n + cols - 1) div cols)"
    using mult_div_mod_eq[of cols "n + cols - 1"] mod_less_divisor[OF c, of "n + cols - 1"] c by linarith
  then have "i < cols * ((n + cols - 1) div cols)" using i by linarith
  then show ?thesis using c by (simp add: sg_column_def less_mult_imp_div_less)
qed

lemma partition_length:
  "(\<And>y. y \<in> set ys \<Longrightarrow> g y < m) \<Longrightarrow> (\<Sum>c\<leftarrow>[0..<m]. length (List.filter (\<lambda>y. g y = c) ys)) = length ys"
proof (induction ys)
  case (Cons y ys)
  have "(\<Sum>c\<leftarrow>[0..<m]. if g y = c then 1 else 0) = (\<Sum>c\<in>{0..<m}. if g y = c then 1 else 0::nat)"
    by (simp add: interv_sum_list_conv_sum_set_nat)
  then have "(\<Sum>c\<leftarrow>[0..<m]. if g y = c then 1 else 0) = (1::nat)" using Cons.prems[of y] by simp
  moreover have "(\<Sum>c\<leftarrow>[0..<m]. length (List.filter (\<lambda>y. g y = c) (y # ys)))
      = (\<Sum>c\<leftarrow>[0..<m]. (if g y = c then 1 else 0) + length (List.filter (\<lambda>y. g y = c) ys))"
    by (intro arg_cong[where f = sum_list] map_cong) auto
  ultimately show ?case using Cons by (simp add: sum_list_addf)
qed simp

text \<open>Every field is placed once.\<close>

lemma sg_columns_length: "0 < cols \<Longrightarrow> length (concat (sg_columns vertical cols fs)) = length fs"
  using partition_length[of "enumerate 0 fs" "\<lambda>(i, x). sg_column vertical (length fs) cols i" cols]
  by (auto simp: sg_columns_def length_concat comp_def case_prod_unfold in_set_enumerate_eq sg_column_less)

text \<open>A value set before the group is rendered is kept and set then. The fields are then those of the columns, in their order.\<close>

record spin_group =
  sg_vertical :: bool
  sg_cols :: nat
  sg_rendered :: bool
  sg_fields :: "spin_field list"
  sg_lazy :: "jsval list option"
  sg_changes :: nat

definition sg_new :: "bool \<Rightarrow> nat \<Rightarrow> spin_field list \<Rightarrow> spin_group" where
  "sg_new vertical cols fs = \<lparr> sg_vertical = vertical, sg_cols = cols, sg_rendered = False, sg_fields = fs, sg_lazy = None, sg_changes = 0 \<rparr>"

definition sg_each_set :: "jsval list \<Rightarrow> spin_field list \<Rightarrow> spin_field list" where
  "sg_each_set vs fs = List.map (\<lambda>(i, f). sf_set_value (if i < length vs then vs ! i else Undef) f) (enumerate 0 fs)"

definition sg_set_value :: "jsval list \<Rightarrow> spin_group \<Rightarrow> spin_group" where
  "sg_set_value vs g = (if sg_rendered g then g\<lparr> sg_fields := sg_each_set vs (sg_fields g) \<rparr> else g\<lparr> sg_lazy := Some vs \<rparr>)"

definition sg_on_render :: "spin_group \<Rightarrow> spin_group" where
  "sg_on_render g = (if sg_rendered g then g
     else let fs = concat (sg_columns (sg_vertical g) (sg_cols g) (sg_fields g)) in
       g\<lparr> sg_rendered := True, sg_lazy := None, sg_fields := (case sg_lazy g of None \<Rightarrow> fs | Some vs \<Rightarrow> sg_each_set vs fs) \<rparr>)"

text \<open>\<open>Number\<close> of the empty value is 0.\<close>

definition sg_get_value :: "spin_group \<Rightarrow> jsnum list" where
  "sg_get_value g = (if sg_fields g = [] then [Fin 0]
     else List.map (\<lambda>f. if sf_get_value f = NaN then Fin 0 else sf_get_value f) (sg_fields g))"

text \<open>A spin or change of one field is a change of the group.\<close>

definition sg_on_field_change :: "spin_group \<Rightarrow> spin_group" where
  "sg_on_field_change g = g\<lparr> sg_changes := sg_changes g + 1 \<rparr>"

text \<open>Whole numbers set on a group of as many fields are read back, whether they are set before or after the group is
  rendered.\<close>

theorem group_values_back:
  assumes "length is = length fs" and "fs \<noteq> []" and "0 < cols" and "list_all (\<lambda>i. \<bar>i\<bar> < 2 ^ 53) is"
  shows "sg_get_value (sg_on_render (sg_set_value (List.map JInt is) (sg_new vertical cols fs))) = List.map (\<lambda>i. Fin (of_int i)) is
    \<and> sg_get_value (sg_set_value (List.map JInt is) (sg_on_render (sg_new vertical cols fs))) = List.map (\<lambda>i. Fin (of_int i)) is"
proof -
  let ?fs = "concat (sg_columns vertical cols fs)"
  have n: "length ?fs = length is" using sg_columns_length[OF assms(3)] assms(1) by simp
  have one: "sf_get_value (sf_set_value (JInt i) f) = Fin (of_int i)" if "\<bar>i\<bar> < 2 ^ 53" for i f
    using that by (intro sf_get_int) (simp_all add: sf_set_value_def fix_precision_int num_text_def rat_str_int)
  have len: "length (sg_each_set (List.map JInt is) ?fs) = length is" using n by (simp add: sg_each_set_def)
  have "sf_get_value (sg_each_set (List.map JInt is) ?fs ! k) = Fin (of_int (is ! k))" if "k < length is" for k
  proof -
    have "sg_each_set (List.map JInt is) ?fs ! k = sf_set_value (JInt (is ! k)) (?fs ! k)"
      using that n by (simp add: sg_each_set_def nth_enumerate_eq)
    then show ?thesis using one that assms(4) by (simp add: list_all_length)
  qed
  then have "List.map (\<lambda>f. if sf_get_value f = NaN then Fin 0 else sf_get_value f) (sg_each_set (List.map JInt is) ?fs)
      = List.map (\<lambda>i. Fin (of_int i)) is"
    using len by (intro nth_equalityI) simp_all
  moreover have "sg_each_set (List.map JInt is) ?fs \<noteq> []" using len assms(1,2) by (metis length_0_conv)
  ultimately show ?thesis by (simp add: sg_get_value_def sg_on_render_def sg_set_value_def sg_new_def Let_def)
qed

theorem group_values_back_witness:
  "sg_get_value (sg_on_render (sg_set_value [JInt 6881, JInt 6891] (sg_new False 2 [slots_field, connections_field]))) = [Fin 6881, Fin 6891]"
  using group_values_back[of "[6881, 6891]" "[slots_field, connections_field]" 2 False] by simp

end
