(* ===== verification/TreeSort.thy ===== *)
theory TreeSort
  imports FileTree RecordStore "HOL-Library.Multiset"
begin

text \<open>
  The order of the nodes of the trees of files (extjs/ext-extensions/tree/TreeGridSorter.js on
  \<open>Ext.tree.TreeSorter\<close>): folders before files, then by the column whose header was clicked
  last, up or down in turn.
\<close>

section \<open>Kinds of nodes\<close>

datatype node_kind = Folder | Leaf

instantiation node_kind :: linorder
begin

definition less_eq_node_kind :: "node_kind \<Rightarrow> node_kind \<Rightarrow> bool" where
  "less_eq_node_kind k l = (k = Folder \<or> l = Leaf)"

definition less_node_kind :: "node_kind \<Rightarrow> node_kind \<Rightarrow> bool" where
  "less_node_kind k l = (k = Folder \<and> l = Leaf)"

instance
proof
  fix k l m :: node_kind
  show "(k < l) = (k \<le> l \<and> \<not> l \<le> k)" "k \<le> k" "k \<le> l \<Longrightarrow> l \<le> m \<Longrightarrow> k \<le> m"
    "k \<le> l \<Longrightarrow> l \<le> k \<Longrightarrow> k = l" "k \<le> l \<or> l \<le> k"
    by (cases k; cases l; cases m; simp add: less_eq_node_kind_def less_node_kind_def)+
qed

end

definition kind_of :: "node \<Rightarrow> node_kind" where
  "kind_of n = (if is_leaf n then Leaf else Folder)"

section \<open>The sorter\<close>

text \<open>A column has the property it shows and the direction it was sorted in last. \<open>ts_typed\<close>: the values are
  compared as they are, otherwise texts in upper case.\<close>

record tree_sorter =
  ts_property :: string
  ts_desc :: bool
  ts_typed :: bool
  ts_columns :: "(string \<times> bool) list"
  ts_disabled :: bool
  ts_icon :: "nat \<times> bool"

definition ts_new :: "string list \<Rightarrow> tree_sorter" where
  "ts_new cols = \<lparr> ts_property = (case cols of c # _ \<Rightarrow> (if c = [] then ''text'' else c) | [] \<Rightarrow> ''text''), ts_desc = False, ts_typed = False,
     ts_columns = List.map (\<lambda>c. (c, False)) cols, ts_disabled = False, ts_icon = (0, False) \<rparr>"

definition ts_value :: "tree_sorter \<Rightarrow> node \<Rightarrow> jsval" where
  "ts_value t n = (let v = oget (node_attrs n) (ts_property t) in
     if ts_typed t then v else (case v of Str s \<Rightarrow> Str (List.map upper_char s) | _ \<Rightarrow> v))"

text \<open>The comparison is negative.\<close>

definition node_before :: "tree_sorter \<Rightarrow> node \<Rightarrow> node \<Rightarrow> bool" where
  "node_before t m n = (kind_of m < kind_of n \<or> kind_of m = kind_of n
     \<and> (if ts_desc t then js_lt (ts_value t n) (ts_value t m) else js_lt (ts_value t m) (ts_value t n)))"

text \<open>The nodes below a node sorted, and the nodes of a tree at all levels.\<close>

definition sort_children :: "tree_sorter \<Rightarrow> node list \<Rightarrow> node list" where
  "sort_children t ns = stable_sort (node_before t) ns"

fun sort_below :: "tree_sorter \<Rightarrow> node \<Rightarrow> node" where
  "sort_below t (Node a l ns) = Node a l (sort_children t (List.map (sort_below t) ns))"

definition sort_tree :: "tree_sorter \<Rightarrow> node list \<Rightarrow> node list" where
  "sort_tree t ns = sort_children t (List.map (sort_below t) ns)"

text \<open>A click on a header turns the direction of its column over; a column that was never sorted is sorted downwards.\<close>

definition on_header_click :: "nat \<Rightarrow> tree_sorter \<Rightarrow> node list \<Rightarrow> tree_sorter \<times> node list" where
  "on_header_click i t ns = (if length (ts_columns t) \<le> i \<or> ts_disabled t then (t, ns)
     else let (c, desc) = ts_columns t ! i;
              t = t\<lparr> ts_property := c, ts_desc := \<not> desc, ts_typed := True, ts_columns := (ts_columns t)[i := (c, \<not> desc)],
                     ts_icon := (i, \<not> desc) \<rparr>
          in (t, sort_tree t ns))"

text \<open>The items of the menu of a header both act like a click on it.\<close>

definition on_header_menu_click :: "string \<Rightarrow> nat \<Rightarrow> tree_sorter \<Rightarrow> node list \<Rightarrow> tree_sorter \<times> node list" where
  "on_header_menu_click item i t ns = (if item = ''asc'' \<or> item = ''desc'' then on_header_click i t ns else (t, ns))"

section \<open>What a click leaves\<close>

text \<open>The values of a column are all texts or all finite numbers.\<close>

definition comparable :: "jsval set \<Rightarrow> bool" where
  "comparable vs = ((\<forall>v \<in> vs. \<exists>s. v = Str s) \<or> (\<forall>v \<in> vs. \<exists>x. v = Num (Fin x)))"

lemma str_lt_order: "weak_order str_lt A"
  unfolding weak_order_def by (metis str_lt_irrefl str_lt_linear str_lt_trans)

lemma weak_order_key: "weak_order lt (f ` A) \<Longrightarrow> weak_order (\<lambda>a b. lt (f a) (f b)) A"
  by (auto simp: weak_order_def)

lemma weak_order_flip: "weak_order lt A \<Longrightarrow> weak_order (\<lambda>a b. lt b a) A"
  unfolding weak_order_def by meson

lemma weak_order_lex:
  fixes k :: "'a \<Rightarrow> 'b::linorder"
  assumes "weak_order lt A"
  shows "weak_order (\<lambda>a b. k a < k b \<or> k a = k b \<and> lt a b) A"
  unfolding weak_order_def
proof (intro conjI ballI impI)
  fix x y assume "x \<in> A" "y \<in> A" "k x < k y \<or> k x = k y \<and> lt x y"
  then show "\<not> (k y < k x \<or> k y = k x \<and> lt y x)" using assms by (auto simp: weak_order_def)
next
  fix x y z assume xyz: "x \<in> A" "y \<in> A" "z \<in> A" and lt: "k x < k y \<or> k x = k y \<and> lt x y"
  consider "k x < k z" | "k z < k y" | "k z = k x" "k x = k y" using lt by fastforce
  then show "(k x < k z \<or> k x = k z \<and> lt x z) \<or> k z < k y \<or> k z = k y \<and> lt z y"
  proof cases
    case 3
    then have "lt x z \<or> lt z y" using lt assms xyz unfolding weak_order_def by (metis order.irrefl)
    then show ?thesis using 3 by auto
  qed simp_all
qed

lemma weak_order_cong: "(\<And>a b. a \<in> A \<Longrightarrow> b \<in> A \<Longrightarrow> lt a b = gt a b) \<Longrightarrow> weak_order lt A = weak_order gt A"
  by (simp add: weak_order_def)

lemma js_lt_weak:
  assumes "comparable vs"
  shows "weak_order js_lt vs"
  using assms unfolding comparable_def
proof
  assume strs: "\<forall>v \<in> vs. \<exists>s. v = Str s"
  have "js_lt v w = str_lt (to_str v) (to_str w)" if "v \<in> vs" "w \<in> vs" for v w
    using bspec[OF strs that(1)] bspec[OF strs that(2)] by (auto simp: js_lt_def)
  moreover have "weak_order (\<lambda>v w. str_lt (to_str v) (to_str w)) vs" by (rule weak_order_key) (rule str_lt_order)
  ultimately show ?thesis using weak_order_cong[of vs js_lt] by simp
next
  assume nums: "\<forall>v \<in> vs. \<exists>x. v = Num (Fin x)"
  let ?x = "\<lambda>v. case v of Num (Fin x) \<Rightarrow> x | _ \<Rightarrow> 0"
  have "js_lt v w = (?x v < ?x w)" if "v \<in> vs" "w \<in> vs" for v w
    using bspec[OF nums that(1)] bspec[OF nums that(2)] by (auto simp: js_lt_def)
  moreover have "weak_order (\<lambda>v w. ?x v < ?x w) vs" by (rule weak_order_key) (force simp: weak_order_def)
  ultimately show ?thesis using weak_order_cong[of vs js_lt] by simp
qed

lemma node_before_weak:
  assumes "comparable (ts_value t ` A)"
  shows "weak_order (node_before t) A"
proof -
  have "weak_order (\<lambda>m n. js_lt (ts_value t m) (ts_value t n)) A" by (rule weak_order_key[OF js_lt_weak[OF assms]])
  then have "weak_order (\<lambda>m n. if ts_desc t then js_lt (ts_value t n) (ts_value t m) else js_lt (ts_value t m) (ts_value t n)) A"
    by (cases "ts_desc t") (auto dest: weak_order_flip)
  then show ?thesis unfolding node_before_def by (rule weak_order_lex)
qed

lemma mset_insert_by: "mset (insert_by lt x ys) = add_mset x (mset ys)"
  by (induction ys) auto

lemma mset_stable_sort: "mset (stable_sort lt xs) = mset xs"
proof -
  have "mset (each_do (insert_by lt) xs acc) = mset xs + mset acc" for acc
    by (induction xs arbitrary: acc) (simp_all add: mset_insert_by)
  then show ?thesis by (simp add: stable_sort_def)
qed

lemma sort_below_attrs [simp]: "node_attrs (sort_below t n) = node_attrs n" "is_leaf (sort_below t n) = is_leaf n"
  by (cases n; simp)+

text \<open>The node that was \<open>n\<close>, with all below it.\<close>

definition attrs_below :: "node list \<Rightarrow> (jsval obj \<times> bool) multiset" where
  "attrs_below ns = mset (List.map (\<lambda>n. (node_attrs n, is_leaf n)) (all_nodes ns))"

lemma attrs_below_simps: "attrs_below [] = {#}" "attrs_below (n # ns) = attrs_below [n] + attrs_below ns"
  "attrs_below [Node a l ns] = add_mset (a, l) (attrs_below ns)"
  by (simp_all add: attrs_below_def all_nodes_def)

lemma attrs_below_sum: "attrs_below ns = (\<Sum>n\<in>#mset ns. attrs_below [n])"
proof (induction ns)
  case (Cons n ns)
  then show ?case by (subst attrs_below_simps(2)) simp
qed (simp add: attrs_below_simps(1))

lemma attrs_below_sort: "attrs_below (sort_children t ns) = attrs_below ns"
  unfolding attrs_below_sum[of "sort_children t ns"] attrs_below_sum[of ns] by (simp add: sort_children_def mset_stable_sort)

lemma attrs_below_deep: "attrs_below [sort_below t n] = attrs_below [n]"
proof (induction n)
  case (Node a l ns)
  have "(\<Sum>n\<in>#mset ns. attrs_below [sort_below t n]) = (\<Sum>n\<in>#mset ns. attrs_below [n])"
    by (intro arg_cong[where f = sum_mset] image_mset_cong) (use Node.IH in simp)
  then have "attrs_below (List.map (sort_below t) ns) = attrs_below ns"
    unfolding attrs_below_sum[of "List.map (sort_below t) ns"] attrs_below_sum[of ns]
    by (simp add: image_mset.compositionality comp_def)
  then show ?case by (simp add: attrs_below_simps(3) attrs_below_sort)
qed

lemma attrs_below_tree: "attrs_below (sort_tree t ns) = attrs_below ns"
proof -
  have "attrs_below (List.map (sort_below t) ns) = attrs_below ns"
    unfolding attrs_below_sum[of "List.map (sort_below t) ns"] attrs_below_sum[of ns]
    by (simp add: attrs_below_deep image_mset.compositionality comp_def)
  then show ?thesis by (simp add: sort_tree_def attrs_below_sort)
qed

text \<open>Every level of the tree is in order.\<close>

definition in_order :: "tree_sorter \<Rightarrow> node list \<Rightarrow> bool" where
  "in_order t ns = (sorted (List.map kind_of ns) \<and> sorted_wrt (\<lambda>m n. \<not> node_before t n m) ns)"

lemma sorted_by_kind: "sorted_wrt (\<lambda>m n. \<not> node_before t n m) ns \<Longrightarrow> sorted (List.map kind_of ns)"
  unfolding sorted_map by (rule sorted_wrt_mono_rel) (auto simp: node_before_def not_less)

lemma sort_value_below [simp]: "ts_value t (sort_below t' n) = ts_value t n"
  by (simp add: ts_value_def)

lemma sort_children_order:
  assumes "comparable (ts_value t ` set ns)"
  shows "in_order t (sort_children t ns)"
  unfolding in_order_def sort_children_def
  using sorted_stable_sort[OF node_before_weak[OF assms]] by (simp add: sorted_by_kind)

lemma comparable_subset: "comparable vs \<Longrightarrow> ws \<subseteq> vs \<Longrightarrow> comparable ws"
  by (auto simp: comparable_def)

lemma sort_below_order:
  assumes "comparable (ts_value t ` set (cascade n))" and "m \<in> set (cascade (sort_below t n))"
  shows "in_order t (node_children m)"
  using assms
proof (induction n arbitrary: m)
  case (Node a l ns)
  have sub: "comparable (ts_value t ` set (cascade k))" if "k \<in> set ns" for k
    by (rule comparable_subset[OF Node.prems(1)]) (use that in auto)
  show ?case
  proof (cases "m = sort_below t (Node a l ns)")
    case True
    have "comparable (ts_value t ` set ns)"
      by (rule comparable_subset[OF Node.prems(1)]) (use cascade_self in force)
    then show ?thesis using True by (simp add: sort_children_order image_image)
  next
    case False
    then obtain k where "k \<in> set ns" "m \<in> set (cascade (sort_below t k))"
      using Node.prems(2) by (auto simp: sort_children_def)
    then show ?thesis using Node.IH sub by blast
  qed
qed


definition sample_nodes :: "node list" where
  "sample_nodes = [Node [(''filename'', Str ''b''), (''size'', JInt 5)] True [],
     Node [(''filename'', Str ''d''), (''size'', JInt 3)] False
       [Node [(''filename'', Str ''x''), (''size'', JInt 1)] True [], Node [(''filename'', Str ''y''), (''size'', JInt 2)] True []]]"

definition files_columns :: "string list" where
  "files_columns = [''filename'', ''size'', ''progress'', ''priority'']"


end
