(* ===== verification/TreeGrid.thy ===== *)
theory TreeGrid
  imports TorrentMenu DetailsFiles AddOptions TreeSort GridRender
begin

text \<open>
  The trees of files as grids (extjs/ext-extensions/tree/TreeGrid.js, TreeGridNodeUI.js,
  TreeGridNodeUIFix.js, TreeGridRenderColumn.js, TreeGridColumnResizer.js): the columns of the
  two tabs and the texts of their cells, the widths of the columns in the header and in the
  tables of the nodes, hiding columns, and dragging their borders.
\<close>

section \<open>Texts of cells\<close>

text \<open>\<open>Ext.util.Format.htmlEncode\<close>: one replacement after the other.\<close>

definition replace_all :: "char \<Rightarrow> string \<Rightarrow> string \<Rightarrow> string" where
  "replace_all c r s = concat (List.map (\<lambda>x. if x = c then r else [x]) s)"

definition ext_html_encode :: "jsval \<Rightarrow> jsval" where
  "ext_html_encode v = (if \<not> truthy v then v
     else Str (replace_all CHR 34 ''&quot;'' (replace_all CHR ''<'' ''&lt;'' (replace_all CHR ''>'' ''&gt;''
       (replace_all CHR ''&'' ''&amp;'' (to_str v))))))"

text \<open>A missing value is the empty text in the markup that is put together.\<close>

definition joined :: "jsval \<Rightarrow> string" where
  "joined v = (if nullish v then [] else to_str v)"

definition name_cell :: "int \<Rightarrow> jsval obj \<Rightarrow> string" where
  "name_cell w a = joined (ext_html_encode (oget a ''filename''))"

definition size_cell :: "int \<Rightarrow> jsval obj \<Rightarrow> string" where
  "size_cell w a = fmt_size (oget a ''size'') False"

definition progress_cell :: "int \<Rightarrow> jsval obj \<Rightarrow> string" where
  "progress_cell w a = (let p = num_mul (to_num (oget a ''progress'')) (Fin 100) in
     progress_bar (Num p) (Fin (of_int w)) (num_to_fixed 2 p @ ''%'') (JInt 0))"

definition priority_cell :: "int \<Rightarrow> jsval obj \<Rightarrow> string" where
  "priority_cell w a = (let v = oget a ''priority'' in if to_num v = NaN then []
     else ''<div class=\"'' @ joined (oget file_priority_css (to_str v)) @ ''\">'' @ joined (oget file_priority (to_str v)) @ ''</div>'')"

definition download_cell :: "int \<Rightarrow> jsval obj \<Rightarrow> string" where
  "download_cell w a = ''<div rel=\"chkbox\" class=\"x-grid3-check-col'' @ (if truthy (oget a ''download'') then ''-on'' else []) @ ''\"> </div>''"

section \<open>Columns\<close>

text \<open>The template of a column depends on its width and on the attributes of a node; columns have no text of their own.\<close>

record tree_column =
  tc_header :: string
  tc_index :: string
  tc_width :: int
  tc_hidden :: bool
  tc_tpl :: "(int \<Rightarrow> jsval obj \<Rightarrow> string) option"

definition tpl_column :: "string \<Rightarrow> int \<Rightarrow> string \<Rightarrow> (int \<Rightarrow> jsval obj \<Rightarrow> string) \<Rightarrow> tree_column" where
  "tpl_column h w i f = \<lparr> tc_header = h, tc_index = i, tc_width = w, tc_hidden = False, tc_tpl = Some f \<rparr>"

definition details_columns :: "tree_column list" where
  "details_columns = [tpl_column ''Filename'' 330 ''filename'' name_cell, tpl_column ''Size'' 150 ''size'' size_cell,
     tpl_column ''Progress'' 150 ''progress'' progress_cell, tpl_column ''Priority'' 150 ''priority'' priority_cell]"

definition add_columns :: "tree_column list" where
  "add_columns = [tpl_column ''Filename'' 295 ''filename'' name_cell, tpl_column ''Size'' 60 ''size'' size_cell,
     tpl_column ''Download'' 65 ''download'' download_cell]"

text \<open>The cell of a node that is rendered, and of one that is updated; the first column has a branch of its own.\<close>

definition render_cell :: "bool \<Rightarrow> tree_column \<Rightarrow> jsval obj \<Rightarrow> string" where
  "render_cell first c a = (case tc_tpl c of Some f \<Rightarrow> f (tc_width c) a
     | None \<Rightarrow> if first \<and> \<not> truthy (oget a (tc_index c)) then [] else joined (oget a (tc_index c)))"

definition refreshed_cell :: "tree_column \<Rightarrow> jsval obj \<Rightarrow> string" where
  "refreshed_cell c a = (case tc_tpl c of Some f \<Rightarrow> f (tc_width c) a
     | None \<Rightarrow> if truthy (oget a (tc_index c)) then to_str (oget a (tc_index c)) else ''undefined'')"

section \<open>The grid\<close>

text \<open>The row of a node: its attributes, its cells, and the widths in the table for its children.\<close>

record tree_row =
  tr_attrs :: "jsval obj"
  tr_cells :: "string list"
  tr_group :: "int list"

text \<open>The widths in the header and in the table of the root; \<open>tgd_saved\<close>, \<open>tgd_proxy\<close> and \<open>tgd_max\<close> belong to the
  column that is dragged, \<open>tgd_restores\<close> are the timers that set \<open>headersDisabled\<close> back.\<close>

record tree_grid =
  tgd_columns :: "tree_column list"
  tgd_head :: "int list"
  tgd_head_hidden :: "bool list"
  tgd_root :: "int list"
  tgd_rows :: "tree_row list"
  tgd_offset :: int
  tgd_head_width :: int
  tgd_table_width :: int
  tgd_ctx :: nat
  tgd_headers_off :: bool
  tgd_active :: "nat option"
  tgd_drag_hd :: "nat option"
  tgd_dragging :: bool
  tgd_saved :: bool
  tgd_proxy :: int
  tgd_max :: int
  tgd_restores :: "bool list"

definition tgd_new :: "tree_column list \<Rightarrow> tree_grid" where
  "tgd_new cs = \<lparr> tgd_columns = cs, tgd_head = [], tgd_head_hidden = List.map (\<lambda>c. False) cs, tgd_root = List.map tc_width cs,
     tgd_rows = [], tgd_offset = 0, tgd_head_width = 0, tgd_table_width = 0, tgd_ctx = 0, tgd_headers_off = False,
     tgd_active = None, tgd_drag_hd = None, tgd_dragging = False, tgd_saved = False, tgd_proxy = 0, tgd_max = 0, tgd_restores = [] \<rparr>"

definition shown_width :: "tree_column \<Rightarrow> int" where
  "shown_width c = (if tc_hidden c then 0 else tc_width c)"

definition tgd_visible_columns :: "tree_grid \<Rightarrow> tree_column list" where
  "tgd_visible_columns g = List.filter (\<lambda>c. \<not> tc_hidden c) (tgd_columns g)"

definition tgd_total_width :: "tree_grid \<Rightarrow> int" where
  "tgd_total_width g = sum_list (List.map tc_width (tgd_visible_columns g))"

definition tgd_update_widths :: "tree_grid \<Rightarrow> tree_grid" where
  "tgd_update_widths g = (let ws = List.map shown_width (tgd_columns g); t = tgd_total_width g in
     g\<lparr> tgd_head := ws, tgd_root := ws, tgd_rows := List.map (\<lambda>r. r\<lparr> tr_group := ws \<rparr>) (tgd_rows g),
        tgd_head_hidden := List.map tc_hidden (tgd_columns g), tgd_head_width := t + tgd_offset g, tgd_table_width := t \<rparr>)"

definition tgd_set_scroll_offset :: "int \<Rightarrow> tree_grid \<Rightarrow> tree_grid" where
  "tgd_set_scroll_offset sw g = tgd_update_widths (g\<lparr> tgd_offset := sw \<rparr>)"

definition tgd_set_visible :: "nat \<Rightarrow> bool \<Rightarrow> tree_grid \<Rightarrow> tree_grid" where
  "tgd_set_visible i v g = tgd_update_widths (g\<lparr> tgd_columns := (tgd_columns g)[i := (tgd_columns g ! i)\<lparr> tc_hidden := \<not> v \<rparr>] \<rparr>)"

text \<open>A new root: its table gets the widths of all columns. The tabs of the interface set theirs once, before rendering.\<close>

definition tgd_set_root :: "tree_grid \<Rightarrow> tree_grid" where
  "tgd_set_root g = g\<lparr> tgd_rows := [], tgd_root := List.map tc_width (tgd_columns g) \<rparr>"

definition render_row :: "tree_column list \<Rightarrow> jsval obj \<Rightarrow> tree_row" where
  "render_row cs a = \<lparr> tr_attrs = a, tr_cells = List.map (\<lambda>(i, c). render_cell (i = 0) c a) (enumerate 0 cs),
     tr_group = List.map shown_width cs \<rparr>"

definition tgd_render :: "nat \<Rightarrow> jsval obj \<Rightarrow> tree_grid \<Rightarrow> tree_grid" where
  "tgd_render i a g = g\<lparr> tgd_rows := take i (tgd_rows g) @ render_row (tgd_columns g) a # drop i (tgd_rows g) \<rparr>"

text \<open>The attributes of a node changed, and its row brought up to date by \<open>updateColumns\<close>.\<close>

definition tgd_update_columns :: "nat \<Rightarrow> jsval obj \<Rightarrow> tree_grid \<Rightarrow> tree_grid" where
  "tgd_update_columns i a g = (if i < length (tgd_rows g)
     then g\<lparr> tgd_rows := (tgd_rows g)[i := (tgd_rows g ! i)\<lparr> tr_attrs := a, tr_cells := List.map (\<lambda>c. refreshed_cell c a) (tgd_columns g) \<rparr>] \<rparr>
     else g)"

definition tgd_remove :: "nat \<Rightarrow> tree_grid \<Rightarrow> tree_grid" where
  "tgd_remove i g = g\<lparr> tgd_rows := take i (tgd_rows g) @ drop (i + 1) (tgd_rows g) \<rparr>"

section \<open>Dragging the border of a column\<close>

text \<open>The last column before a position whose header is not hidden.\<close>

fun shown_before :: "bool list \<Rightarrow> nat \<Rightarrow> nat option" where
  "shown_before hs 0 = None"
| "shown_before hs (Suc i) = (if i < length hs \<and> hs ! i then shown_before hs i else Some i)"

text \<open>The pointer over the header of a column, with its distances to the left and the right border.\<close>

definition tgd_header_move :: "nat \<Rightarrow> int \<Rightarrow> int \<Rightarrow> tree_grid \<Rightarrow> tree_grid" where
  "tgd_header_move i dl dr g = (if dl \<le> 5 \<and> i \<noteq> 0
     then (case shown_before (tgd_head_hidden g) i of Some j \<Rightarrow> g\<lparr> tgd_active := Some j \<rparr> | None \<Rightarrow> g)
     else if dr \<le> 5
     then (case shown_before (tgd_head_hidden g) (Suc i) of Some j \<Rightarrow> g\<lparr> tgd_active := Some j \<rparr> | None \<Rightarrow> g)
     else g\<lparr> tgd_active := None \<rparr>)"

definition tgd_before_start :: "tree_grid \<Rightarrow> tree_grid" where
  "tgd_before_start g = g\<lparr> tgd_drag_hd := tgd_active g \<rparr>"

definition min_width :: int where
  "min_width = 14"

text \<open>The proxy shows the width, from the left border of the column to the pointer; an element is not narrower than 0.\<close>

definition tgd_on_start :: "int \<Rightarrow> int \<Rightarrow> tree_grid \<Rightarrow> tree_grid" where
  "tgd_on_start w m g = g\<lparr> tgd_dragging := True, tgd_saved := tgd_headers_off g, tgd_headers_off := True,
     tgd_proxy := max 0 w, tgd_max := m \<rparr>"

definition constrain :: "int \<Rightarrow> int \<Rightarrow> int \<Rightarrow> int" where
  "constrain w lo hi = min (max w lo) hi"

definition tgd_on_drag :: "int \<Rightarrow> tree_grid \<Rightarrow> tree_grid" where
  "tgd_on_drag w g = g\<lparr> tgd_proxy := max 0 (constrain w min_width (tgd_max g)) \<rparr>"

definition tgd_on_end :: "nat \<Rightarrow> tree_grid \<Rightarrow> tree_grid" where
  "tgd_on_end i g = (let g = tgd_update_widths (g\<lparr> tgd_dragging := False, tgd_drag_hd := None,
       tgd_columns := (tgd_columns g)[i := (tgd_columns g ! i)\<lparr> tc_width := tgd_proxy g \<rparr>] \<rparr>)
     in g\<lparr> tgd_restores := tgd_restores g @ [tgd_saved g] \<rparr>)"

definition tgd_restore :: "tree_grid \<Rightarrow> tree_grid" where
  "tgd_restore g = (case tgd_restores g of [] \<Rightarrow> g | b # bs \<Rightarrow> g\<lparr> tgd_headers_off := b, tgd_restores := bs \<rparr>)"

section \<open>Clicks on the header\<close>

text \<open>The menu of a header, with the columns that can be hidden.\<close>

definition tgd_header_button :: "nat \<Rightarrow> tree_grid \<Rightarrow> tree_grid" where
  "tgd_header_button i g = g\<lparr> tgd_ctx := i \<rparr>"

definition tgd_column_menu :: "tree_grid \<Rightarrow> (string \<times> string \<times> bool) list" where
  "tgd_column_menu g = List.map (\<lambda>(i, c). (''col-'' @ int_str (int i), tc_header c, \<not> tc_hidden c)) (enumerate 1 (tl (tgd_columns g)))"

definition item_column :: "string \<Rightarrow> nat option" where
  "item_column item = (let s = drop 4 item in
     if s \<noteq> [] \<and> list_all is_digit s \<and> 0 < digits_val s then Some (nat (digits_val s)) else None)"

definition tgd_header_click :: "nat \<Rightarrow> tree_grid \<Rightarrow> tree_sorter \<Rightarrow> node list \<Rightarrow> tree_sorter \<times> node list" where
  "tgd_header_click i g t ns = on_header_click i (t\<lparr> ts_disabled := tgd_headers_off g \<rparr>) ns"

text \<open>The items to sort are handled by the sorter, which ends the event.\<close>

definition tgd_menu_click :: "string \<Rightarrow> bool \<Rightarrow> tree_grid \<Rightarrow> tree_grid" where
  "tgd_menu_click item checked g = (if item = ''asc'' \<or> item = ''desc'' then g
     else (case item_column item of Some i \<Rightarrow> if i < length (tgd_columns g) then tgd_set_visible i (\<not> checked) g else g | None \<Rightarrow> g))"

section \<open>Events\<close>

datatype tg_event = TgMove nat int int | TgPress | TgStart int int | TgDrag int | TgEnd | TgRestore | TgOffset int | TgRoot
  | TgRender nat "jsval obj" | TgUpdate nat "jsval obj" | TgRemove nat | TgMenu string bool

text \<open>The tracker of the mouse starts a drag when there is a border below the pointer, and ends what it started.\<close>

fun tg_step :: "tg_event \<Rightarrow> tree_grid \<Rightarrow> tree_grid" where
  "tg_step (TgMove i dl dr) g = (if i < length (tgd_columns g) then tgd_header_move i dl dr g else g)"
| "tg_step TgPress g = (if tgd_dragging g then g else tgd_before_start g)"
| "tg_step (TgStart w m) g = (if tgd_dragging g \<or> tgd_drag_hd g = None then g else tgd_on_start w m g)"
| "tg_step (TgDrag w) g = (if tgd_dragging g then tgd_on_drag w g else g)"
| "tg_step TgEnd g = (case tgd_drag_hd g of Some i \<Rightarrow> if tgd_dragging g then tgd_on_end i g else g | None \<Rightarrow> g)"
| "tg_step TgRestore g = tgd_restore g"
| "tg_step (TgOffset w) g = tgd_set_scroll_offset w g"
| "tg_step TgRoot g = tgd_set_root g"
| "tg_step (TgRender i a) g = tgd_render i a g"
| "tg_step (TgUpdate i a) g = tgd_update_columns i a g"
| "tg_step (TgRemove i) g = tgd_remove i g"
| "tg_step (TgMenu item checked) g = tgd_menu_click item checked g"

section \<open>What cells show\<close>

definition encoded_char :: "char \<Rightarrow> string" where
  "encoded_char c = (if c = CHR ''&'' then ''&amp;'' else if c = CHR ''>'' then ''&gt;'' else if c = CHR ''<'' then ''&lt;''
     else if c = CHR 34 then ''&quot;'' else [c])"

lemma replace_all_append: "replace_all c r (s @ t) = replace_all c r s @ replace_all c r t"
  by (simp add: replace_all_def)

lemma replace_all_simps [simp]:
  "replace_all c r [] = []" "replace_all c r (x # s) = (if x = c then r else [x]) @ replace_all c r s"
  by (simp_all add: replace_all_def)

text \<open>The replacements one after the other are one replacement of each character.\<close>

lemma encode_at_once:
  "replace_all CHR 34 ''&quot;'' (replace_all CHR ''<'' ''&lt;'' (replace_all CHR ''>'' ''&gt;'' (replace_all CHR ''&'' ''&amp;'' s)))
    = concat (List.map encoded_char s)"
  by (induction s) (auto simp: encoded_char_def replace_all_append)

lemma name_cell_str: "oget a ''filename'' = Str s \<Longrightarrow> name_cell w a = concat (List.map encoded_char s)"
  by (cases "s = []") (simp_all add: name_cell_def ext_html_encode_def encode_at_once joined_def)

text \<open>Reading an encoded text back, character by character.\<close>

fun decode :: "string \<Rightarrow> string" where
  "decode [] = []"
| "decode (c # cs) = (if c \<noteq> CHR ''&'' then c # decode cs
     else if take 4 cs = ''amp;'' then CHR ''&'' # decode (drop 4 cs)
     else if take 3 cs = ''gt;'' then CHR ''>'' # decode (drop 3 cs)
     else if take 3 cs = ''lt;'' then CHR ''<'' # decode (drop 3 cs)
     else CHR 34 # decode (drop 5 cs))"

lemma decode_encoded: "decode (encoded_char c @ s) = c # decode s"
  by (simp add: encoded_char_def)

lemma decode_text: "decode (concat (List.map encoded_char s)) = s"
  by (induction s) (simp_all add: decode_encoded)



text \<open>Columns with templates.\<close>

lemma template_cells: "tc_tpl c \<noteq> None \<Longrightarrow> refreshed_cell c a = render_cell first c a"
  by (auto simp: refreshed_cell_def render_cell_def)

lemma template_rows: "\<forall>c \<in> set cs. tc_tpl c \<noteq> None \<Longrightarrow> List.map (\<lambda>c. refreshed_cell c a) cs = tr_cells (render_row cs a)"
  by (rule nth_equalityI) (simp_all add: render_row_def nth_enumerate_eq template_cells)

section \<open>Widths\<close>

text \<open>Header, root and nodes have the widths of the columns, hidden ones none, and the tables are as wide as the columns together.\<close>

definition tgd_node_ok :: "tree_grid \<Rightarrow> bool" where
  "tgd_node_ok g = ((\<forall>r \<in> set (tgd_rows g). tr_group r = List.map shown_width (tgd_columns g))
     \<and> tgd_head g = List.map shown_width (tgd_columns g) \<and> tgd_head_hidden g = List.map tc_hidden (tgd_columns g)
     \<and> tgd_table_width g = sum_list (tgd_head g) \<and> tgd_head_width g = tgd_table_width g + tgd_offset g)"

definition tgd_ok :: "tree_grid \<Rightarrow> bool" where
  "tgd_ok g = (tgd_node_ok g \<and> tgd_root g = List.map shown_width (tgd_columns g))"

lemma total_width: "tgd_total_width g = sum_list (List.map shown_width (tgd_columns g))"
proof -
  have "sum_list (List.map tc_width (List.filter (\<lambda>c. \<not> tc_hidden c) cs)) = sum_list (List.map shown_width cs)" for cs
    by (induction cs) (simp_all add: shown_width_def)
  then show ?thesis by (simp add: tgd_total_width_def tgd_visible_columns_def)
qed

lemma update_widths_ok: "tgd_ok (tgd_update_widths g)"
  by (auto simp: tgd_ok_def tgd_node_ok_def tgd_update_widths_def Let_def total_width)

lemma update_widths_columns [simp]: "tgd_columns (tgd_update_widths g) = tgd_columns g"
  by (simp add: tgd_update_widths_def Let_def)

lemma tgd_ok_more:
  "tgd_ok (g\<lparr> tgd_active := a \<rparr>) = tgd_ok g" "tgd_ok (g\<lparr> tgd_drag_hd := a \<rparr>) = tgd_ok g" "tgd_ok (g\<lparr> tgd_proxy := p \<rparr>) = tgd_ok g"
  "tgd_ok (g\<lparr> tgd_restores := bs \<rparr>) = tgd_ok g" "tgd_ok (g\<lparr> tgd_headers_off := b \<rparr>) = tgd_ok g"
  "tgd_ok (tgd_on_start w m g) = tgd_ok g"
  by (simp_all add: tgd_ok_def tgd_node_ok_def tgd_on_start_def)

lemma tg_step_ok:
  assumes "tgd_ok g" and "e = TgRoot \<Longrightarrow> \<forall>c \<in> set (tgd_columns g). \<not> tc_hidden c"
  shows "tgd_ok (tg_step e g)"
proof (cases e)
  case (TgRender i a)
  have "set (take i xs) \<union> set (drop i xs) = set xs" for xs :: "tree_row list" by (metis append_take_drop_id set_append)
  then show ?thesis using assms(1) TgRender
    by (auto simp: tgd_ok_def tgd_node_ok_def tgd_render_def render_row_def dest: in_set_takeD in_set_dropD)
next
  case (TgUpdate i a)
  then show ?thesis using assms(1)
    by (auto simp: tgd_ok_def tgd_node_ok_def tgd_update_columns_def dest!: set_update_subset_insert[THEN subsetD])
next
  case (TgRemove i)
  then show ?thesis using assms(1)
    by (auto simp: tgd_ok_def tgd_node_ok_def tgd_remove_def dest: in_set_takeD in_set_dropD)
next
  case TgRoot
  then show ?thesis using assms by (simp add: tgd_ok_def tgd_node_ok_def tgd_set_root_def shown_width_def)
qed (use assms(1) update_widths_ok in \<open>auto simp: tgd_ok_more tgd_header_move_def tgd_before_start_def tgd_on_drag_def tgd_on_end_def
  tgd_restore_def tgd_set_scroll_offset_def tgd_menu_click_def tgd_set_visible_def Let_def split: option.split list.split\<close>)

text \<open>What events do to the hidden columns: only the menu of the header changes them.\<close>

lemma tg_step_hidden:
  assumes "\<nexists>item checked. e = TgMenu item checked"
  shows "List.map tc_hidden (tgd_columns (tg_step e g)) = List.map tc_hidden (tgd_columns g)"
proof -
  have "List.map tc_hidden (cs[i := (cs ! i)\<lparr> tc_width := w \<rparr>]) = List.map tc_hidden cs" for cs i w
    by (cases "i < length cs") (simp_all add: map_update list_update_same_conv list_update_beyond)
  then show ?thesis using assms
    by (cases e) (auto simp: tgd_header_move_def tgd_before_start_def tgd_on_start_def tgd_on_drag_def tgd_on_end_def tgd_restore_def
        tgd_set_scroll_offset_def tgd_set_root_def tgd_render_def tgd_update_columns_def tgd_remove_def Let_def
        split: option.split list.split)
qed

text \<open>C35: The widths of the columns agree in the header, in the table of the root and in those of the nodes, hidden columns take
  no room and the tables are as wide as the columns together, whatever the user and the program do, as long as no new root is set
  while a column may be hidden.\<close>

theorem widths_agree:
  assumes "tgd_ok g"
    and "TgRoot \<in> set es \<Longrightarrow> (\<forall>c \<in> set (tgd_columns g). \<not> tc_hidden c) \<and> (\<forall>item checked. TgMenu item checked \<notin> set es)"
  shows "tgd_ok (each_do tg_step es g)"
  using assms
proof (induction es arbitrary: g)
  case (Cons e es)
  have ok: "tgd_ok (tg_step e g)" using Cons.prems by (intro tg_step_ok) auto
  have "(\<forall>c \<in> set (tgd_columns (tg_step e g)). \<not> tc_hidden c) \<and> (\<forall>item checked. TgMenu item checked \<notin> set es)" if "TgRoot \<in> set es"
  proof -
    have p: "\<forall>c \<in> set (tgd_columns g). \<not> tc_hidden c" "\<forall>item checked. TgMenu item checked \<notin> set (e # es)"
      using Cons.prems(2) that by auto
    then have "List.map tc_hidden (tgd_columns (tg_step e g)) = List.map tc_hidden (tgd_columns g)"
      by (intro tg_step_hidden) auto
    then have "set (List.map tc_hidden (tgd_columns (tg_step e g))) \<subseteq> {False}" using p(1) by auto
    then show ?thesis using p(2) by auto
  qed
  then show ?case using Cons.IH[OF ok] by simp
qed simp

definition details_grid :: tree_grid where
  "details_grid = tgd_set_scroll_offset 0 (tgd_new details_columns)"

theorem widths_agree_witness:
  "tgd_ok (each_do tg_step [TgMove 1 90 3, TgPress, TgStart 150 400, TgDrag 60, TgEnd, TgMenu ''col-2'' True, TgRender 0 []] details_grid)"
  by (rule widths_agree) (simp_all add: details_grid_def tgd_set_scroll_offset_def update_widths_ok)

text \<open>When a root is set while a column is hidden, the table of the root has the column again at its full width, while the
  header hides it. (The two tabs set their root before they are rendered.)\<close>

theorem hidden_column_returns:
  assumes "i < length (tgd_columns g)"
  shows "let h = tgd_set_root (tgd_set_visible i False g) in
    tgd_root h ! i = tc_width (tgd_columns g ! i) \<and> tgd_head h ! i = 0 \<and> tgd_head_hidden h ! i"
  using assms by (simp add: Let_def tgd_set_root_def tgd_set_visible_def tgd_update_widths_def shown_width_def)

theorem hidden_column_returns_witness:
  "tgd_root (tgd_set_root (tgd_set_visible 1 False (tgd_new add_columns))) ! 1 = 60"
  using hidden_column_returns[of 1 "tgd_new add_columns"] by (simp add: Let_def tgd_new_def add_columns_def tpl_column_def)

text \<open>A dragged border gives its column a width between 14 pixels and the room there is, and leaves the other columns and what
  is hidden alone.\<close>

theorem drag_bounds:
  assumes "tgd_drag_hd g = Some i" and "\<not> tgd_dragging g" and "i < length (tgd_columns g)" and "min_width \<le> m"
  shows "let h = each_do tg_step ([TgStart w m] @ List.map TgDrag (ws @ [v]) @ [TgEnd]) g in
    tgd_columns h = (tgd_columns g)[i := (tgd_columns g ! i)\<lparr> tc_width := max min_width (min v m) \<rparr>] \<and> tgd_ok h \<and> \<not> tgd_dragging h"
proof -
  have d: "each_do tg_step (List.map TgDrag us) (tgd_on_start w m g)
      = (tgd_on_start w m g)\<lparr> tgd_proxy := (if us = [] then max 0 w else max 0 (constrain (last us) min_width m)) \<rparr>" for us
    by (induction us rule: rev_induct) (simp_all add: tgd_on_start_def tgd_on_drag_def)
  have "max 0 (constrain v min_width m) = max min_width (min v m)" using assms(4) by (auto simp: constrain_def min_width_def)
  then have e: "each_do tg_step (List.map TgDrag (ws @ [v])) (tgd_on_start w m g)
      = (tgd_on_start w m g)\<lparr> tgd_proxy := max min_width (min v m) \<rparr>" using d[of "ws @ [v]"] by simp
  have s: "tg_step (TgStart w m) g = tgd_on_start w m g" using assms(1,2) by simp
  have "each_do tg_step ([TgStart w m] @ List.map TgDrag (ws @ [v]) @ [TgEnd]) g
      = tgd_on_end i ((tgd_on_start w m g)\<lparr> tgd_proxy := max min_width (min v m) \<rparr>)"
    using e s assms(1) by (simp add: tgd_on_start_def del: map_append)
  then show ?thesis using update_widths_ok
    by (simp add: Let_def tgd_on_end_def tgd_on_start_def tgd_ok_more) (simp add: tgd_update_widths_def Let_def)
qed

theorem drag_bounds_witness:
  "tc_width (tgd_columns (each_do tg_step ([TgStart 335 700] @ List.map TgDrag ([200] @ [3]) @ [TgEnd])
     (each_do tg_step [TgMove 0 300 4, TgPress] details_grid)) ! 0) = 14"
proof -
  define k where "k = each_do tg_step [TgMove 0 300 4, TgPress] details_grid"
  have g: "tgd_drag_hd k = Some 0" "\<not> tgd_dragging k" "length (tgd_columns k) = 4"
    by (simp_all add: k_def details_grid_def tgd_set_scroll_offset_def tgd_new_def details_columns_def tpl_column_def tgd_header_move_def
        tgd_before_start_def tgd_update_widths_def Let_def)
  show ?thesis using drag_bounds[OF g(1,2), of 700 335 "[200]" 3] g(3) unfolding k_def[symmetric]
    by (simp add: Let_def min_width_def del: each_do.simps tg_step.simps list.map append.simps)
qed

section \<open>Dragging and sorting\<close>

text \<open>Clicks do not sort while a border is dragged, nor in the tenth of a second after it.\<close>

text \<open>States reached without starting a drag while a timer of the last one is pending.\<close>

inductive calm :: "tree_grid \<Rightarrow> bool" where
  calm_new: "calm (tgd_new cs)"
| calm_step: "calm g \<Longrightarrow> (\<And>w m. e = TgStart w m \<Longrightarrow> tgd_restores g = []) \<Longrightarrow> calm (tg_step e g)"

definition drag_state :: "tree_grid \<Rightarrow> bool \<times> bool \<times> bool \<times> bool list" where
  "drag_state g = (tgd_headers_off g, tgd_dragging g, tgd_saved g, tgd_restores g)"

lemma drag_state_update [simp]: "drag_state (tgd_update_widths g) = drag_state g"
  by (simp add: drag_state_def tgd_update_widths_def Let_def)

text \<open>The events that change whether clicks on headers count.\<close>

lemma drag_state_step:
  "drag_state (tg_step e g) = (case e of
     TgStart w m \<Rightarrow> if tgd_dragging g \<or> tgd_drag_hd g = None then drag_state g else (True, True, tgd_headers_off g, tgd_restores g)
   | TgEnd \<Rightarrow> if tgd_drag_hd g \<noteq> None \<and> tgd_dragging g
       then (tgd_headers_off g, False, tgd_saved g, tgd_restores g @ [tgd_saved g]) else drag_state g
   | TgRestore \<Rightarrow> (case tgd_restores g of [] \<Rightarrow> drag_state g | b # bs \<Rightarrow> (b, tgd_dragging g, tgd_saved g, bs))
   | _ \<Rightarrow> drag_state g)"
  by (cases e) (simp_all add: drag_state_def tgd_header_move_def tgd_before_start_def tgd_on_start_def tgd_on_drag_def tgd_on_end_def
      tgd_restore_def tgd_set_scroll_offset_def tgd_set_root_def tgd_render_def tgd_update_columns_def tgd_remove_def
      tgd_menu_click_def tgd_set_visible_def tgd_update_widths_def Let_def split: option.split list.split)

lemma calm_drag_state:
  "calm g \<Longrightarrow> tgd_dragging g \<and> tgd_headers_off g \<and> \<not> tgd_saved g \<and> tgd_restores g = []
    \<or> \<not> tgd_dragging g \<and> \<not> tgd_headers_off g \<and> tgd_restores g = [] \<or> \<not> tgd_dragging g \<and> tgd_headers_off g \<and> tgd_restores g = [False]"
proof (induction rule: calm.induct)
  case (calm_step g e)
  then show ?case using drag_state_step[of e g] by (cases e; auto simp: drag_state_def split: if_splits list.splits)
qed (simp add: tgd_new_def)

text \<open>C36: As long as no drag is started while the timer of the last one is pending, a click on a header sorts the tree exactly when
  no border is dragged and no timer is pending, and does nothing otherwise.\<close>

theorem clicks_sort_between_drags:
  assumes "calm g"
  shows "tgd_header_click i g t ns = (if tgd_dragging g \<or> tgd_restores g \<noteq> [] then (t\<lparr> ts_disabled := True \<rparr>, ns)
    else on_header_click i (t\<lparr> ts_disabled := False \<rparr>) ns)"
proof -
  have "tgd_headers_off g = (tgd_dragging g \<or> tgd_restores g \<noteq> [])" using calm_drag_state[OF assms] by auto
  then show ?thesis by (simp add: tgd_header_click_def on_header_click_def)
qed

theorem clicks_sort_between_drags_witness:
  "fst (tgd_header_click 0 (tgd_new details_columns) (ts_new [''filename'']) []) = fst (on_header_click 0 (ts_new [''filename'']) [])"
  using clicks_sort_between_drags[OF calm_new, of 0 details_columns "ts_new [''filename'']" "[]"]
  by (simp add: tgd_new_def ts_new_def)

lemma begin_drag: "drag_state g = (off, False, saved, bs) \<Longrightarrow> tgd_active g = Some i \<Longrightarrow>
    h = tg_step (TgStart w m) (tg_step TgPress g) \<Longrightarrow> drag_state h = (True, True, off, bs) \<and> tgd_drag_hd h = Some i \<and> tgd_active h = Some i"
  by (simp add: drag_state_def tgd_before_start_def tgd_on_start_def)

lemma end_drag: "drag_state g = (off, True, saved, bs) \<Longrightarrow> tgd_drag_hd g = Some i \<Longrightarrow> h = tg_step TgEnd g \<Longrightarrow>
    drag_state h = (off, False, saved, bs @ [saved]) \<and> tgd_active h = tgd_active g"
  using drag_state_step[of TgEnd g] by (simp add: drag_state_def tgd_on_end_def tgd_update_widths_def Let_def)

lemma restore_drag: "drag_state g = (off, dragging, saved, b # bs) \<Longrightarrow> h = tg_step TgRestore g \<Longrightarrow>
    drag_state h = (b, dragging, saved, bs) \<and> tgd_drag_hd h = tgd_drag_hd g"
  by (simp add: drag_state_def tgd_restore_def)

definition stuck :: "tree_grid \<Rightarrow> bool" where
  "stuck g = (case drag_state g of (off, dragging, saved, bs) \<Rightarrow> off \<and> (dragging \<longrightarrow> saved) \<and> list_all id bs)"

lemma stuck_step: "stuck g \<Longrightarrow> stuck (tg_step e g)"
  unfolding stuck_def drag_state_step by (cases e; cases "tgd_restores g"; simp add: drag_state_def)

text \<open>C37: A second drag that starts before the timer of the first has fired saves the disabled state of the first: from then on no
  click on a header sorts any more, whatever happens.\<close>

theorem quick_drags_stop_sorting:
  assumes "tgd_active g = Some i" and "\<not> tgd_dragging g" and "tgd_restores g = []"
  shows "tgd_header_click j (each_do tg_step es
      (each_do tg_step [TgPress, TgStart w m, TgEnd, TgPress, TgStart v n, TgRestore, TgEnd, TgRestore] g)) t ns
    = (t\<lparr> ts_disabled := True \<rparr>, ns)"
proof -
  let ?h = "each_do tg_step [TgPress, TgStart w m, TgEnd, TgPress, TgStart v n, TgRestore, TgEnd, TgRestore] g"
  define a where "a = tg_step (TgStart w m) (tg_step TgPress g)"
  define b where "b = tg_step TgEnd a"
  define c where "c = tg_step (TgStart v n) (tg_step TgPress b)"
  define d where "d = tg_step TgRestore c"
  define e where "e = tg_step TgEnd d"
  define h where "h = tg_step TgRestore e"
  have a: "drag_state a = (True, True, tgd_headers_off g, [])" "tgd_drag_hd a = Some i" "tgd_active a = Some i"
    using begin_drag[OF _ assms(1) a_def] assms(2,3) by (simp_all add: drag_state_def)
  have b: "drag_state b = (True, False, tgd_headers_off g, [tgd_headers_off g])" "tgd_active b = Some i"
    using end_drag[OF a(1,2) b_def] a(3) by simp_all
  have c: "drag_state c = (True, True, True, [tgd_headers_off g])" "tgd_drag_hd c = Some i"
    using begin_drag[OF b c_def] by simp_all
  have d: "drag_state d = (tgd_headers_off g, True, True, [])" "tgd_drag_hd d = Some i"
    using restore_drag[OF c(1) d_def] c(2) by simp_all
  have "drag_state e = (tgd_headers_off g, False, True, [True])" using end_drag[OF d e_def] by simp
  from restore_drag[OF this h_def] have "drag_state h = (True, False, True, [])" by simp
  then have "stuck (each_do tg_step es h)" by (intro each_do_invariant[where P = stuck] stuck_step) (simp_all add: stuck_def)
  moreover have "?h = h" by (simp only: each_do.simps a_def b_def c_def d_def e_def h_def)
  ultimately show ?thesis by (simp only: tgd_header_click_def on_header_click_def stuck_def drag_state_def) simp
qed

theorem quick_drags_stop_sorting_witness:
  "tgd_header_click 0 (each_do tg_step [TgMove 0 200 90, TgRestore]
      (each_do tg_step [TgPress, TgStart 150 400, TgEnd, TgPress, TgStart 150 400, TgRestore, TgEnd, TgRestore]
        (tgd_header_move 1 90 3 details_grid))) (ts_new [''filename'']) []
    = ((ts_new [''filename''])\<lparr> ts_disabled := True \<rparr>, [])"
  by (rule quick_drags_stop_sorting[where i = 1])
    (simp_all add: details_grid_def tgd_header_move_def tgd_set_scroll_offset_def tgd_update_widths_def Let_def tgd_new_def
      details_columns_def tpl_column_def numeral_2_eq_2)

section \<open>Rows brought up to date, and the menu of columns\<close>

text \<open>In a grid whose columns all have templates, as those of both tabs have, a row that is brought up to date shows what a node
  with these attributes would show when rendered anew; other rows are left alone.\<close>

theorem updated_row_as_rendered:
  assumes "\<forall>c \<in> set (tgd_columns g). tc_tpl c \<noteq> None" and "tgd_ok g" and "i < length (tgd_rows g)"
  shows "tgd_rows (tgd_update_columns i a g) = (tgd_rows g)[i := render_row (tgd_columns g) a]"
proof -
  have "(tgd_rows g ! i)\<lparr> tr_attrs := a, tr_cells := List.map (\<lambda>c. refreshed_cell c a) (tgd_columns g) \<rparr> = render_row (tgd_columns g) a"
    using assms template_rows[OF assms(1), of a] by (simp add: render_row_def tgd_ok_def tgd_node_ok_def)
  then show ?thesis using assms(3) by (simp add: tgd_update_columns_def)
qed

theorem updated_row_as_rendered_witness:
  "tgd_rows (tgd_update_columns 0 [(''filename'', Str ''b'')] (tgd_render 0 [] details_grid))
    = [render_row details_columns [(''filename'', Str ''b'')]]"
proof -
  define g where "g = tgd_render 0 [] details_grid"
  have "tgd_ok g" using tg_step_ok[of details_grid "TgRender 0 []"] by (simp add: g_def details_grid_def tgd_set_scroll_offset_def update_widths_ok)
  moreover have "tgd_columns g = details_columns" "length (tgd_rows g) = 1"
    by (simp_all add: g_def tgd_render_def details_grid_def tgd_set_scroll_offset_def tgd_update_widths_def tgd_new_def Let_def)
  ultimately show ?thesis using updated_row_as_rendered[of g 0 "[(''filename'', Str ''b'')]"] unfolding g_def[symmetric]
    by (auto simp: details_columns_def tpl_column_def length_Suc_conv)
qed

lemma item_column_menu: "0 < i \<Longrightarrow> item_column (''col-'' @ int_str (int i)) = Some i"
  by (simp add: item_column_def int_str_def Let_def digits_val_dec_str dec_str_digits)

text \<open>An item of the menu of columns hides or shows its own column and no other, the first column is not offered, and the same
  item brings the columns back as they were.\<close>

theorem menu_item_turns_column:
  assumes "k < length (tgd_column_menu g)" and "tgd_column_menu g ! k = (item, header, checked)"
  shows "let h = tgd_menu_click item checked g in
    tgd_columns h = (tgd_columns g)[k + 1 := (tgd_columns g ! (k + 1))\<lparr> tc_hidden := checked \<rparr>]
    \<and> tgd_column_menu h = (tgd_column_menu g)[k := (item, header, \<not> checked)] \<and> tgd_columns (tgd_menu_click item (\<not> checked) h) = tgd_columns g"
proof -
  let ?cs = "tgd_columns g" and ?h = "tgd_menu_click item checked g"
  have n: "k + 1 < length ?cs" using assms(1) by (simp add: tgd_column_menu_def)
  have m: "tgd_column_menu g ! j = (''col-'' @ int_str (int (j + 1)), tc_header (tgd_columns g ! (j + 1)), \<not> tc_hidden (tgd_columns g ! (j + 1)))"
    if "j + 1 < length (tgd_columns g)" for g j
    using that by (simp add: tgd_column_menu_def nth_enumerate_eq nth_tl)
  have item: "item = ''col-'' @ int_str (int (k + 1))" "header = tc_header (?cs ! (k + 1))" "checked = (\<not> tc_hidden (?cs ! (k + 1)))"
    using m[OF n] assms(2) by simp_all
  have col: "item_column item = Some (k + 1)" using item_column_menu[of "k + 1"] item(1) by simp
  have click: "tgd_columns (tgd_menu_click item c f) = (tgd_columns f)[k + 1 := (tgd_columns f ! (k + 1))\<lparr> tc_hidden := c \<rparr>]"
    if "length (tgd_columns f) = length ?cs" for c f
    using col n that item(1) by (simp add: tgd_menu_click_def tgd_set_visible_def)
  have h: "tgd_columns ?h = ?cs[k + 1 := (?cs ! (k + 1))\<lparr> tc_hidden := checked \<rparr>]" using click by simp
  have "tgd_column_menu ?h = (tgd_column_menu g)[k := (item, header, \<not> checked)]"
  proof (rule nth_equalityI)
    show "length (tgd_column_menu ?h) = length ((tgd_column_menu g)[k := (item, header, \<not> checked)])"
      using h by (simp add: tgd_column_menu_def)
    show "tgd_column_menu ?h ! j = (tgd_column_menu g)[k := (item, header, \<not> checked)] ! j" if "j < length (tgd_column_menu ?h)" for j
      using that m[of j ?h] m[of j g] h n item by (simp add: tgd_column_menu_def nth_list_update)
  qed
  moreover have "tgd_columns (tgd_menu_click item (\<not> checked) ?h) = ?cs" using click[of ?h "\<not> checked"] h n item(3) by simp
  ultimately show ?thesis using h by (simp add: Let_def)
qed

theorem menu_item_turns_column_witness:
  "tc_hidden (tgd_columns (tgd_menu_click ''col-2'' True details_grid) ! 2)"
proof -
  have i: "int_str 2 = ''2''" by code_simp
  have c: "tgd_columns details_grid = details_columns" by (simp add: details_grid_def tgd_set_scroll_offset_def tgd_new_def)
  then have "tgd_column_menu details_grid ! 1 = (''col-2'', ''Progress'', True)" "1 < length (tgd_column_menu details_grid)"
    using i by (simp_all add: tgd_column_menu_def details_columns_def tpl_column_def numeral_2_eq_2)
  from menu_item_turns_column[OF this(2,1)] show ?thesis using c by (simp add: Let_def details_columns_def numeral_2_eq_2)
qed

end
