(* ===== verification/PluginLife.thy ===== *)
theory PluginLife
  imports Preferences
begin

text \<open>
  Plugins that add a page to the preferences (plugins/*/data/*.js, the plugin classes at the
  end of each file): enabling adds the page to the window, disabling removes it. The page
  of AutoAdd is kept outside of its instances, because its four scripts create and enable
  one instance each.
\<close>

section \<open>Enabling and disabling\<close>

text \<open>The titles of the pages, and whether they take part in Apply and OK.\<close>

definition plugin_pages :: "(string \<times> bool) list" where
  "plugin_pages = [(''AutoAdd'', False), (''Blocklist'', True), (''Execute'', False), (''Extractor'', True), (''Label'', False),
     (''Notifications'', True), (''Scheduler'', True)]"

definition page_hooks :: "string \<Rightarrow> bool" where
  "page_hooks n = (map_of plugin_pages n = Some True)"

definition pl_on_enable :: "string \<Rightarrow> pref_window \<Rightarrow> pref_window" where
  "pl_on_enable n w = pw_add_page n (page_hooks n) (page_hooks n) w"

definition pl_on_disable :: "string \<Rightarrow> pref_window \<Rightarrow> pref_window" where
  "pl_on_disable n w = pw_remove_page n w"

text \<open>AutoAdd: the page that was added, if any, and the window; without a page there is no title to read.\<close>

definition aa_on_enable :: "string option \<times> pref_window \<Rightarrow> string option \<times> pref_window" where
  "aa_on_enable = (\<lambda>(page, w). if page = None then (Some ''AutoAdd'', pl_on_enable ''AutoAdd'' w) else (page, w))"

definition aa_on_disable :: "string option \<times> pref_window \<Rightarrow> string option \<times> pref_window" where
  "aa_on_disable = (\<lambda>(page, w). case page of None \<Rightarrow> (None, pw_emit (PrefThrow TypeError) w)
     | Some n \<Rightarrow> (None, pw_remove_page n w))"

section \<open>Pages come and go\<close>

text \<open>No row of the list begins like the title, and the title names no page or card.\<close>

definition title_free :: "string \<Rightarrow> pref_window \<Rightarrow> bool" where
  "title_free n w = (find_prefix n (pw_rows w) = None \<and> n \<notin> set (pw_cards w) \<and> map_of (pw_pages w) n = None)"

lemma find_prefix_last: "find_prefix n xs = None \<Longrightarrow> find_prefix n (xs @ [n]) = Some (length xs)"
proof -
  have "take (length n) (lower n) = lower n" by simp
  then show "find_prefix n xs = None \<Longrightarrow> find_prefix n (xs @ [n]) = Some (length xs)"
    by (induction xs) (auto split: if_splits)
qed

lemma del_put_absent: "map_of ob k = None \<Longrightarrow> del k (put k v ob) = ob"
  by (induction ob) (auto split: if_splits)

lemma disable_after_enable:
  assumes "title_free n w" and "pw_selected w \<noteq> Some (length (pw_rows w))"
  shows "pl_on_disable n (pl_on_enable n w) = w\<lparr> pw_selected := (case pw_selected w of None \<Rightarrow> None
    | Some j \<Rightarrow> if length (pw_rows w) < j then Some (j - 1) else Some j) \<rparr>"
proof -
  have f: "find_prefix n (pw_rows w @ [n]) = Some (length (pw_rows w))" using assms(1) by (simp add: title_free_def find_prefix_last)
  have c: "remove1 n (pw_cards w @ [n]) = pw_cards w" using assms(1) by (simp add: title_free_def remove1_append)
  have p: "del n (put n v (pw_pages w)) = pw_pages w" for v using assms(1) by (simp add: title_free_def del_put_absent)
  show ?thesis using assms(2)
    by (simp add: pl_on_disable_def pl_on_enable_def pw_add_page_def pw_remove_page_def f c p Let_def split: option.splits)
qed

lemma disable_restores:
  assumes "title_free n w" and "\<forall>j. pw_selected w = Some j \<longrightarrow> j < length (pw_rows w)"
  shows "pl_on_disable n (pl_on_enable n w) = w"
proof -
  have "pw_selected w \<noteq> Some (length (pw_rows w))" using assms(2) by auto
  moreover have "(case pw_selected w of None \<Rightarrow> None | Some j \<Rightarrow> if length (pw_rows w) < j then Some (j - 1) else Some j) = pw_selected w"
    using assms(2) by (auto split: option.split)
  ultimately show ?thesis using disable_after_enable[OF assms(1)] by simp
qed

lemma new_window:
  "pw_rows pw_new = List.map fst page_order" "pw_cards pw_new = List.map fst page_order" "pw_selected pw_new = None"
  "keys_of (pw_pages pw_new) = List.map fst page_order"
  by (simp_all add: pw_new_def page_order_def pw_add_page_def keys_of_put has_key_put has_key_def keys_of_def)

lemma new_window_free:
  assumes "find_prefix n (List.map fst page_order) = None" and "n \<notin> set (List.map fst page_order)"
  shows "title_free n pw_new"
proof -
  have "\<not> has_key (pw_pages pw_new) n" using assms(2) new_window(4) set_keys_of[of "pw_pages pw_new"] by auto
  then show ?thesis using assms by (simp add: title_free_def new_window has_key_def)
qed

text \<open>A plugin that is enabled and disabled again leaves the window of the preferences as it was, unless its page is
  selected then.\<close>

theorem plugin_page_comes_and_goes:
  assumes "title_free n w" and "\<forall>j. pw_selected w = Some j \<longrightarrow> j < length (pw_rows w)"
  shows "pw_rows (pl_on_enable n w) = pw_rows w @ [n] \<and> pl_on_disable n (pl_on_enable n w) = w"
  using disable_restores[OF assms] by (simp add: pl_on_enable_def pw_add_page_def)

theorem plugin_page_comes_and_goes_witness: "pl_on_disable ''Scheduler'' (pl_on_enable ''Scheduler'' pw_new) = pw_new"
proof -
  have "title_free ''Scheduler'' pw_new" by (rule new_window_free) (simp_all add: page_order_def lower_def lower_char_def)
  then show ?thesis using new_window(3) plugin_page_comes_and_goes[of "''Scheduler''" pw_new] by simp
qed



text \<open>A plugin whose page is selected when it is disabled leaves the page behind: the row goes, the error ends the
  removal, and card and page stay and still take part in Apply.\<close>

theorem selected_page_left_behind:
  assumes "title_free n w"
  shows "let v = pl_on_disable n ((pl_on_enable n w)\<lparr> pw_selected := Some (length (pw_rows w)) \<rparr>) in
    pw_rows v = pw_rows w \<and> pw_trace v = pw_trace w @ [PrefThrow TypeError] \<and> pw_cards v = pw_cards w @ [n]
    \<and> map_of (pw_pages v) n = Some \<lparr> pg_index = -1, pg_on_apply = page_hooks n, pg_on_ok = page_hooks n \<rparr>"
proof -
  have f: "find_prefix n (pw_rows w @ [n]) = Some (length (pw_rows w))" using assms by (simp add: title_free_def find_prefix_last)
  show ?thesis
    by (simp add: pl_on_disable_def pl_on_enable_def pw_add_page_def pw_remove_page_def f pw_on_page_select_def Let_def pw_emit_def lookup_put)
qed

theorem selected_page_left_behind_witness:
  "pw_cards (pl_on_disable ''Label'' ((pl_on_enable ''Label'' pw_new)\<lparr> pw_selected := Some 11 \<rparr>)) = pw_cards pw_new @ [''Label'']"
proof -
  have "title_free ''Label'' pw_new" by (rule new_window_free) (simp_all add: page_order_def lower_def lower_char_def)
  moreover have "length (pw_rows pw_new) = 11" by (simp add: new_window page_order_def)
  ultimately show ?thesis using selected_page_left_behind[of "''Label''" pw_new] by (simp add: Let_def)
qed

end
