(* ===== verification/InfoWindows.thy ===== *)
theory InfoWindows
  imports JSValue
begin

text \<open>
  Three small parts of the interface: the window with the magnet link of a torrent
  (CopyMagnetWindow.js), the window about the program (AboutWindow.js) and the status
  element of the status bar (extjs/ext-extensions/StatusBar.js) with its deferred clearing.
\<close>

section \<open>Copying the magnet link\<close>

datatype magnet_effect = ReqMagnet string | Copied string | MagnetThrow js_error

record magnet_window =
  mg_visible :: bool
  mg_uri :: string
  mg_trace :: "magnet_effect list"

definition mg_new :: magnet_window where
  "mg_new = \<lparr> mg_visible = False, mg_uri = [], mg_trace = [] \<rparr>"

definition mg_emit :: "magnet_effect \<Rightarrow> magnet_window \<Rightarrow> magnet_window" where
  "mg_emit e w = w\<lparr> mg_trace := mg_trace w @ [e] \<rparr>"

text \<open>The torrent selected in the grid; without one its id cannot be read, after the window was shown.\<close>

definition mg_show :: "string option \<Rightarrow> magnet_window \<Rightarrow> magnet_window" where
  "mg_show sel w = mg_emit (case sel of None \<Rightarrow> MagnetThrow TypeError | Some i \<Rightarrow> ReqMagnet i) (w\<lparr> mg_visible := True \<rparr>)"

definition mg_on_request_complete :: "string \<Rightarrow> magnet_window \<Rightarrow> magnet_window" where
  "mg_on_request_complete uri w = w\<lparr> mg_uri := uri \<rparr>"

definition mg_on_copy :: "magnet_window \<Rightarrow> magnet_window" where
  "mg_on_copy w = mg_emit (Copied (mg_uri w)) w"

definition mg_on_close :: "magnet_window \<Rightarrow> magnet_window" where
  "mg_on_close w = w\<lparr> mg_visible := False \<rparr>"

text \<open>The window keeps the link of the torrent shown before until the reply arrives: Copy then copies the link of another
  torrent.\<close>

theorem magnet_of_other_torrent:
  "mg_trace (mg_on_copy (mg_show (Some j) (mg_on_close (mg_on_request_complete uri (mg_show (Some i) w)))))
    = mg_trace w @ [ReqMagnet i, ReqMagnet j, Copied uri]"
  by (simp add: mg_show_def mg_on_copy_def mg_on_close_def mg_on_request_complete_def mg_emit_def)

section \<open>About\<close>

datatype about_effect = ReqConnected | ReqServerVersion | ReqLibtorrent

text \<open>The text made so far, the text of the label, whether \<open>show\<close> waits for the event, and what is asked for.\<close>

record about_window =
  ab_comment :: string
  ab_label :: string
  ab_waiting :: bool
  ab_visible :: bool
  ab_pending :: "about_effect option"

definition ab_intro :: string where
  "ab_intro = ''A peer-to-peer file sharing program<br/>utilizing the BitTorrent protocol.''"

definition ab_new :: "string \<Rightarrow> about_window" where
  "ab_new client = (let c = ab_intro @ ''<br/><br/>Client: '' @ client @ ''<br/>'' in
     \<lparr> ab_comment = c, ab_label = c, ab_waiting = False, ab_visible = False, ab_pending = Some ReqConnected \<rparr>)"

definition ab_build_ready :: "about_window \<Rightarrow> about_window" where
  "ab_build_ready w = (if ab_waiting w then w\<lparr> ab_visible := True \<rparr> else w)"

definition ab_show :: "about_window \<Rightarrow> about_window" where
  "ab_show w = w\<lparr> ab_waiting := True \<rparr>"

definition ab_on_connected :: "bool \<Rightarrow> about_window \<Rightarrow> about_window" where
  "ab_on_connected c w = (if c then w\<lparr> ab_pending := Some ReqServerVersion \<rparr> else ab_build_ready (w\<lparr> ab_pending := None \<rparr>))"

definition ab_on_connected_failed :: "about_window \<Rightarrow> about_window" where
  "ab_on_connected_failed w = ab_build_ready (w\<lparr> ab_pending := None \<rparr>)"

definition ab_on_server_version :: "string \<Rightarrow> about_window \<Rightarrow> about_window" where
  "ab_on_server_version v w = w\<lparr> ab_comment := ab_comment w @ ''Server: '' @ v @ ''<br/>'', ab_pending := Some ReqLibtorrent \<rparr>"

definition ab_on_libtorrent :: "string \<Rightarrow> about_window \<Rightarrow> about_window" where
  "ab_on_libtorrent v w = (let c = ab_comment w @ ''<br/>libtorrent: '' @ v in
     ab_build_ready (w\<lparr> ab_comment := c, ab_label := c, ab_pending := None \<rparr>))"

text \<open>Replies and failures of what is asked for; the versions have no handler of a failure.\<close>

datatype about_reply = AbConnected bool | AbText string | AbFailed

definition ab_reply :: "about_reply \<Rightarrow> about_window \<Rightarrow> about_window" where
  "ab_reply r w = (case (ab_pending w, r) of
      (Some ReqConnected, AbConnected c) \<Rightarrow> ab_on_connected c w
    | (Some ReqConnected, AbFailed) \<Rightarrow> ab_on_connected_failed w
    | (Some ReqServerVersion, AbText v) \<Rightarrow> ab_on_server_version v w
    | (Some ReqLibtorrent, AbText v) \<Rightarrow> ab_on_libtorrent v w
    | (Some _, AbFailed) \<Rightarrow> w\<lparr> ab_pending := None \<rparr>
    | _ \<Rightarrow> w)"

text \<open>The window about the program appears once all replies have arrived, with every version in its text; without a
  daemon it appears with that of the client; and when asking for a version fails it never appears.\<close>

theorem about_appears_when_built:
  "ab_visible (each_do ab_reply [AbConnected True, AbText sv, AbText lv] (ab_show (ab_new cv)))
   \<and> ab_label (each_do ab_reply [AbConnected True, AbText sv, AbText lv] (ab_show (ab_new cv)))
      = ab_intro @ ''<br/><br/>Client: '' @ cv @ ''<br/>Server: '' @ sv @ ''<br/><br/>libtorrent: '' @ lv
   \<and> \<not> ab_visible (each_do ab_reply [AbConnected True, AbText sv] (ab_show (ab_new cv)))
   \<and> ab_visible (ab_reply (AbConnected False) (ab_show (ab_new cv))) \<and> ab_visible (ab_reply AbFailed (ab_show (ab_new cv)))
   \<and> \<not> ab_visible (each_do ab_reply (AbConnected True # AbFailed # rs) (ab_show (ab_new cv)))"
proof -
  have stuck: "each_do ab_reply rs w = w" if "ab_pending w = None" for w
    using that by (induction rs) (simp_all add: ab_reply_def)
  show ?thesis
    by (simp add: ab_reply_def ab_show_def ab_new_def ab_on_connected_def ab_on_connected_failed_def ab_on_server_version_def
        ab_on_libtorrent_def ab_build_ready_def stuck Let_def)
qed

section \<open>The status element\<close>

text \<open>How a status is cleared: the count of changes it was set at (none for a call from outside), the defaults or nothing,
  faded out or at once.\<close>

record clear_options =
  cl_thread :: "nat option"
  cl_defaults :: bool
  cl_anim :: bool

record status_options =
  so_text :: "string option"
  so_icon :: "string option"
  so_clear :: "clear_options option"

record status_element =
  sw_text :: string
  sw_icon :: string
  sw_thread :: nat
  sw_default_text :: "string option"
  sw_default_icon :: string
  sw_deferred :: "clear_options list"
  sw_fading :: "status_options list"

definition sw_new :: "string option \<Rightarrow> string \<Rightarrow> status_element" where
  "sw_new t i = \<lparr> sw_text = (case t of None \<Rightarrow> [] | Some s \<Rightarrow> s), sw_icon = i, sw_thread = 0, sw_default_text = t,
     sw_default_icon = i, sw_deferred = [], sw_fading = [] \<rparr>"

definition sw_set_text :: "string \<Rightarrow> status_element \<Rightarrow> status_element" where
  "sw_set_text t s = s\<lparr> sw_thread := sw_thread s + 1, sw_text := t \<rparr>"

definition sw_set_icon :: "string \<Rightarrow> status_element \<Rightarrow> status_element" where
  "sw_set_icon c s = s\<lparr> sw_thread := sw_thread s + 1, sw_icon := c \<rparr>"

text \<open>Clearing later is a call of \<open>clearStatus\<close> that is put off.\<close>

definition sw_set_status :: "status_options \<Rightarrow> status_element \<Rightarrow> status_element" where
  "sw_set_status o1 s = (let s = (case so_text o1 of None \<Rightarrow> s | Some t \<Rightarrow> sw_set_text t s);
       s = (case so_icon o1 of None \<Rightarrow> s | Some c \<Rightarrow> sw_set_icon c s) in
     (case so_clear o1 of None \<Rightarrow> s | Some c \<Rightarrow> s\<lparr> sw_deferred := sw_deferred s @ [c\<lparr> cl_thread := Some (sw_thread s) \<rparr>] \<rparr>))"

text \<open>What a status is cleared to: without a default text the text is not touched.\<close>

definition cleared_to :: "clear_options \<Rightarrow> status_element \<Rightarrow> status_options" where
  "cleared_to c s = \<lparr> so_text = (if cl_defaults c then sw_default_text s else Some ''&nbsp;''),
     so_icon = Some (if cl_defaults c then sw_default_icon s else []), so_clear = None \<rparr>"

definition sw_clear_status :: "clear_options \<Rightarrow> status_element \<Rightarrow> status_element" where
  "sw_clear_status c s =
     (if (case cl_thread c of None \<Rightarrow> False | Some t \<Rightarrow> t \<noteq> 0 \<and> t \<noteq> sw_thread s) then s
      else if cl_anim c then s\<lparr> sw_fading := sw_fading s @ [cleared_to c s] \<rparr>
      else sw_set_status (cleared_to c s) s)"

definition sw_deferred_fires :: "nat \<Rightarrow> status_element \<Rightarrow> status_element" where
  "sw_deferred_fires i s = (if i < length (sw_deferred s)
     then sw_clear_status (sw_deferred s ! i) (s\<lparr> sw_deferred := take i (sw_deferred s) @ drop (Suc i) (sw_deferred s) \<rparr>) else s)"

text \<open>The end of a fade.\<close>

definition sw_faded :: "nat \<Rightarrow> status_element \<Rightarrow> status_element" where
  "sw_faded i s = (if i < length (sw_fading s)
     then sw_set_status (sw_fading s ! i) (s\<lparr> sw_fading := take i (sw_fading s) @ drop (Suc i) (sw_fading s) \<rparr>) else s)"

definition sw_show_busy :: "status_options \<Rightarrow> status_element \<Rightarrow> status_element" where
  "sw_show_busy o1 s = sw_set_status (o1\<lparr> so_text := (case so_text o1 of None \<Rightarrow> Some ''Loading...'' | t \<Rightarrow> t),
     so_icon := (case so_icon o1 of None \<Rightarrow> Some ''x-status-busy'' | c \<Rightarrow> c) \<rparr>) s"

lemma set_status_fields:
  "sw_thread (sw_set_status o1 s) = sw_thread s + (if so_text o1 = None then 0 else 1) + (if so_icon o1 = None then 0 else 1)"
  "sw_deferred (sw_set_status o1 s) = sw_deferred s @ (case so_clear o1 of None \<Rightarrow> []
    | Some c \<Rightarrow> [c\<lparr> cl_thread := Some (sw_thread (sw_set_status o1 s)) \<rparr>])"
  "sw_text (sw_set_status o1 s) = (case so_text o1 of None \<Rightarrow> sw_text s | Some t \<Rightarrow> t)"
  "sw_icon (sw_set_status o1 s) = (case so_icon o1 of None \<Rightarrow> sw_icon s | Some k \<Rightarrow> k)"
  "sw_fading (sw_set_status o1 s) = sw_fading s" "sw_default_text (sw_set_status o1 s) = sw_default_text s"
  by (simp_all add: sw_set_status_def sw_set_text_def sw_set_icon_def Let_def split: option.split)

text \<open>The clearing of a status that was put off spares whatever statuses were set since, if any of them had a text or an icon.\<close>

theorem clearing_spares_newer:
  assumes "so_clear o1 = Some c" and "so_text o1 = Some t" and "sw_deferred s = []"
    and "\<exists>o2 \<in> set os. so_text o2 \<noteq> None \<or> so_icon o2 \<noteq> None"
  shows "let u = each_do sw_set_status os (sw_set_status o1 s); v = sw_deferred_fires 0 u in
    sw_text v = sw_text u \<and> sw_icon v = sw_icon u \<and> sw_fading v = sw_fading s \<and> length (sw_deferred u) = length (sw_deferred v) + 1"
proof -
  let ?s = "sw_set_status o1 s" and ?u = "each_do sw_set_status os (sw_set_status o1 s)"
  have grow: "sw_thread w \<le> sw_thread (each_do sw_set_status os w) \<and> sw_fading (each_do sw_set_status os w) = sw_fading w
      \<and> (\<exists>ds. sw_deferred (each_do sw_set_status os w) = sw_deferred w @ ds)
      \<and> ((\<exists>o2 \<in> set os. so_text o2 \<noteq> None \<or> so_icon o2 \<noteq> None) \<longrightarrow> sw_thread w < sw_thread (each_do sw_set_status os w))" for w os
  proof (induction os arbitrary: w)
    case (Cons o1 os)
    show ?case using Cons.IH[of "sw_set_status o1 w"] by (auto simp: set_status_fields)
  qed simp
  obtain ds where u: "sw_deferred ?u = c\<lparr> cl_thread := Some (sw_thread ?s) \<rparr> # ds" "sw_thread ?s < sw_thread ?u" "sw_fading ?u = sw_fading s"
    using grow[of ?s os] assms by (auto simp: set_status_fields)
  moreover have "0 < sw_thread ?s" using assms(2) by (simp add: set_status_fields)
  ultimately show ?thesis by (simp add: sw_deferred_fires_def sw_clear_status_def Let_def)
qed

text \<open>When the clearing is a fade that has begun, its end overwrites a status set meanwhile.\<close>

theorem fade_overwrites_newer:
  assumes "so_clear o1 = Some c" and "cl_anim c" and "cl_defaults c" and "sw_default_text s = Some d" and "sw_deferred s = []"
    and "sw_fading s = []" and "so_clear o2 = None"
  shows "sw_text (sw_faded 0 (sw_set_status o2 (sw_deferred_fires 0 (sw_set_status o1 s)))) = d"
proof -
  let ?s = "sw_set_status o1 s" and ?f = "sw_deferred_fires 0 (sw_set_status o1 s)"
  have "sw_deferred ?s = [c\<lparr> cl_thread := Some (sw_thread ?s) \<rparr>]" using assms by (simp add: set_status_fields)
  then have "sw_fading ?f = [cleared_to c s]" using assms(2-4,6)
    by (simp add: sw_deferred_fires_def sw_clear_status_def set_status_fields)
      (simp add: cleared_to_def set_status_fields, simp add: sw_set_status_def sw_set_text_def sw_set_icon_def Let_def split: option.split)
  then show ?thesis using assms(3,4) by (simp add: sw_faded_def set_status_fields) (simp add: cleared_to_def)
qed

definition ready_status :: status_options where
  "ready_status = \<lparr> so_text = Some ''Ready'', so_icon = None, so_clear = Some \<lparr> cl_thread = None, cl_defaults = True, cl_anim = True \<rparr> \<rparr>"

definition failed_status :: status_options where
  "failed_status = \<lparr> so_text = Some ''Failed'', so_icon = None, so_clear = None \<rparr>"

theorem clearing_spares_newer_witness:
  "sw_text (sw_deferred_fires 0 (each_do sw_set_status [failed_status] (sw_set_status ready_status (sw_new None [])))) = ''Failed''"
  using clearing_spares_newer[of ready_status _ "''Ready''" "sw_new None []" "[failed_status]"]
  by (simp add: ready_status_def failed_status_def sw_new_def set_status_fields Let_def)

theorem fade_overwrites_newer_witness:
  "sw_text (sw_faded 0 (sw_set_status failed_status (sw_deferred_fires 0 (sw_set_status ready_status (sw_new (Some ''Idle'') [])))))
    = ''Idle''"
  using fade_overwrites_newer [of ready_status "\<lparr> cl_thread = None, cl_defaults = True, cl_anim = True \<rparr>"
      "sw_new (Some ''Idle'') []" "''Idle''" failed_status]
  by (simp add: ready_status_def failed_status_def sw_new_def)

end
