(* ===== verification/FormWidgets.thy ===== *)
theory FormWidgets
  imports Options ExtForm PrefPages
begin

text \<open>
  Three fields of forms (extjs/ext-extensions/form): the choice of files
  (FileUploadField.js) with the window that installs plugins (InstallPluginWindow.js), the
  field with a switch (ToggleField.js), and the group of radio buttons (RadioGroupFix.js)
  with the options manager it is bound to.
\<close>

section \<open>Choosing files\<close>

text \<open>The files the browser holds for the current input element, and the text of the box beside the button.\<close>

record upload_field =
  uf_multiple :: bool
  uf_files :: "string list"
  uf_input_disabled :: bool
  uf_disabled :: bool
  uf_text :: string
  uf_selected :: "string list list"

definition uf_new :: "bool \<Rightarrow> upload_field" where
  "uf_new m = \<lparr> uf_multiple = m, uf_files = [], uf_input_disabled = False, uf_disabled = False, uf_text = [], uf_selected = [] \<rparr>"

text \<open>The user has chosen files; a browser without lists of files (\<open>listed\<close> is false) gives the path of one. The list is set as the
  value of the box, whose text is that of an object.\<close>

definition uf_change :: "bool \<Rightarrow> string list \<Rightarrow> upload_field \<Rightarrow> upload_field" where
  "uf_change listed names f = (let f = f\<lparr> uf_files := names \<rparr> in
     f\<lparr> uf_text := (if listed then ''[object FileList]'' else (case names of [] \<Rightarrow> [] | n # _ \<Rightarrow> ''C:'' @ [CHR 0x5C] @ ''fakepath'' @ [CHR 0x5C] @ n)),
        uf_selected := uf_selected f @ [names] \<rparr>)"

definition uf_set_value :: "string \<Rightarrow> upload_field \<Rightarrow> upload_field" where
  "uf_set_value t f = f\<lparr> uf_text := t \<rparr>"

text \<open>A new input element is made; it is not disabled.\<close>

definition uf_reset :: "upload_field \<Rightarrow> upload_field" where
  "uf_reset f = f\<lparr> uf_files := [], uf_input_disabled := False, uf_text := [] \<rparr>"

definition uf_do_disable :: "bool \<Rightarrow> upload_field \<Rightarrow> upload_field" where
  "uf_do_disable b f = f\<lparr> uf_input_disabled := b \<rparr>"

definition uf_on_disable :: "upload_field \<Rightarrow> upload_field" where
  "uf_on_disable f = uf_do_disable True (f\<lparr> uf_disabled := True \<rparr>)"

definition uf_on_enable :: "upload_field \<Rightarrow> upload_field" where
  "uf_on_enable f = uf_do_disable False (f\<lparr> uf_disabled := False \<rparr>)"

text \<open>The window: the upload has succeeded, the name of the plugin is the text of the box, which is then emptied.\<close>

definition ipw_upload_done :: "bool \<Rightarrow> string list \<Rightarrow> upload_field \<times> plugins_page \<Rightarrow> upload_field \<times> plugins_page" where
  "ipw_upload_done ok files = (\<lambda>(f, s). (if ok then uf_set_value [] f else f, ipw_on_upload_success ok files (uf_text f) s))"

text \<open>In a browser that lists the chosen files every plugin is installed under the name of the list object instead of its own;
  in one without such lists it has the name of the chosen file.\<close>

theorem plugin_name_lost:
  assumes "CHR 0x5C \<notin> set n"
  shows "pp_trace (snd (ipw_upload_done True (path # ps) (uf_change True ns f, s))) = pp_trace s @ [ReqUploadPlugin ''[object FileList]'' (Some path)]
    \<and> pp_trace (snd (ipw_upload_done True (path # ps) (uf_change False [n] f, s))) = pp_trace s @ [ReqUploadPlugin n (Some path)]"
proof -
  have "after_backslash acc n = acc @ n" for acc using assms by (induction n arbitrary: acc) auto
  then show ?thesis by (simp add: ipw_upload_done_def ipw_on_upload_success_def uf_change_def pp_emit_def Let_def)
qed

theorem plugin_name_lost_witness:
  "pp_trace (snd (ipw_upload_done True [''/tmp/x''] (uf_change True [''Stats.egg''] (uf_new False), s)))
    = pp_trace s @ [ReqUploadPlugin ''[object FileList]'' (Some ''/tmp/x'')]"
  using plugin_name_lost[of "''Stats.egg''" "''/tmp/x''" "[]" "[''Stats.egg'']" "uf_new False" s] by simp

text \<open>Resetting a disabled field leaves it with an input element that takes files.\<close>

theorem reset_enables_input:
  "uf_disabled (uf_reset (uf_on_disable f)) \<and> \<not> uf_input_disabled (uf_reset (uf_on_disable f))"
  by (simp add: uf_reset_def uf_on_disable_def uf_do_disable_def)

section \<open>Fields with a switch\<close>

record toggle_field =
  tf_checked :: bool
  tf_disabled :: bool
  tf_input :: string

definition tf_new :: toggle_field where
  "tf_new = \<lparr> tf_checked = False, tf_disabled = True, tf_input = [] \<rparr>"

definition tf_on_toggle_check :: "bool \<Rightarrow> toggle_field \<Rightarrow> toggle_field" where
  "tf_on_toggle_check c t = t\<lparr> tf_disabled := \<not> c \<rparr>"

text \<open>The check box takes a value and fires \<open>check\<close> when it changes.\<close>

definition tf_toggle :: "jsval \<Rightarrow> toggle_field \<Rightarrow> toggle_field" where
  "tf_toggle v t = (let c = box_value v in
     if c = tf_checked t then t else tf_on_toggle_check c (t\<lparr> tf_checked := c \<rparr>))"

definition tf_set_input :: "jsval \<Rightarrow> toggle_field \<Rightarrow> toggle_field" where
  "tf_set_input v t = t\<lparr> tf_input := field_text v \<rparr>"

datatype tf_event = Toggle jsval | Input jsval

fun tf_step :: "tf_event \<Rightarrow> toggle_field \<Rightarrow> toggle_field" where
  "tf_step (Toggle v) t = tf_toggle v t"
| "tf_step (Input v) t = tf_set_input v t"

text \<open>The text of the field can be edited exactly when its box is checked.\<close>

theorem toggle_input_enabled: "tf_disabled (each_do tf_step es tf_new) = (\<not> tf_checked (each_do tf_step es tf_new))"
proof -
  have "(\<lambda>t. tf_disabled t = (\<not> tf_checked t)) (each_do tf_step es tf_new)"
  proof (rule each_do_invariant)
    show "tf_disabled (tf_step e t) = (\<not> tf_checked (tf_step e t))" if "tf_disabled t = (\<not> tf_checked t)" for e t
      using that by (cases e) (auto simp: tf_toggle_def tf_on_toggle_check_def tf_set_input_def Let_def)
  qed (simp add: tf_new_def)
  then show ?thesis .
qed

section \<open>Groups of radio buttons\<close>

text \<open>A button has the value of its element, the property \<open>checked\<close> of the component and that of the element.\<close>

record choice_item =
  ci_value :: string
  ci_checked :: bool
  ci_dom :: bool

record choice_group =
  cg_items :: "choice_item list"
  cg_rendered :: bool
  cg_lazy :: "jsval option"
  cg_pending :: bool

definition cg_new :: "(string \<times> bool) list \<Rightarrow> choice_group" where
  "cg_new its = \<lparr> cg_items = List.map (\<lambda>(v, c). \<lparr> ci_value = v, ci_checked = c, ci_dom = False \<rparr>) its, cg_rendered = False,
     cg_lazy = None, cg_pending = False \<rparr>"

text \<open>A checked button that is rendered takes the ones rendered before it back.\<close>

definition cg_render_item :: "nat \<Rightarrow> choice_item list \<Rightarrow> choice_item list" where
  "cg_render_item i its = (if i < length its \<and> ci_checked (its ! i)
     then List.map (\<lambda>(j, r). if j = i then r\<lparr> ci_dom := True \<rparr> else if j < i then r\<lparr> ci_checked := False, ci_dom := False \<rparr> else r) (enumerate 0 its)
     else its[i := (its ! i)\<lparr> ci_checked := ci_dom (its ! i) \<rparr>])"

text \<open>\<open>setValue\<close> sets the elements only; before the group is rendered the value is kept.\<close>

definition cg_set_value :: "jsval \<Rightarrow> choice_group \<Rightarrow> choice_group" where
  "cg_set_value v g = (if cg_rendered g
     then g\<lparr> cg_items := List.map (\<lambda>r. r\<lparr> ci_dom := (ci_value r = to_str v) \<rparr>) (cg_items g) \<rparr>
     else g\<lparr> cg_lazy := Some v \<rparr>)"

definition cg_after_render :: "choice_group \<Rightarrow> choice_group" where
  "cg_after_render g = (case cg_lazy g of None \<Rightarrow> g | Some v \<Rightarrow> (cg_set_value v g)\<lparr> cg_lazy := None \<rparr>)"

definition cg_render :: "choice_group \<Rightarrow> choice_group" where
  "cg_render g = (if cg_rendered g then g
     else cg_after_render (g\<lparr> cg_rendered := True, cg_items := each_do cg_render_item [0..<length (cg_items g)] (cg_items g) \<rparr>))"

definition cg_get_value :: "choice_group \<Rightarrow> jsval" where
  "cg_get_value g = (case find ci_dom (cg_items g) of Some r \<Rightarrow> Str (ci_value r) | None \<Rightarrow> Null)"

text \<open>A click: the browser checks the element and takes the others back; the component takes this over, and tells the group
  a little later, if its own property differs.\<close>

definition cg_click :: "nat \<Rightarrow> choice_group \<Rightarrow> choice_group" where
  "cg_click i g = (if length (cg_items g) \<le> i \<or> \<not> cg_rendered g then g
     else if ci_checked (cg_items g ! i) then g\<lparr> cg_items := List.map (\<lambda>(j, r). r\<lparr> ci_dom := (j = i) \<rparr>) (enumerate 0 (cg_items g)) \<rparr>
     else g\<lparr> cg_items := List.map (\<lambda>(j, r). r\<lparr> ci_checked := (j = i), ci_dom := (j = i) \<rparr>) (enumerate 0 (cg_items g)), cg_pending := True \<rparr>)"

text \<open>The group is field \<open>f\<close> of an options manager: its change updates the option, and what the manager writes to the field is set.\<close>

definition writes_to :: "nat \<Rightarrow> om_event list \<Rightarrow> jsval list" where
  "writes_to f es = concat (List.map (\<lambda>e. case e of SetValue g v \<Rightarrow> if g = f then [v] else [] | _ \<Rightarrow> []) es)"

definition cg_buffer_checked :: "nat \<Rightarrow> choice_group \<times> om \<Rightarrow> choice_group \<times> om" where
  "cg_buffer_checked f = (\<lambda>(g, s). if \<not> cg_pending g then (g, s)
     else let s' = om_on_field_change f (cg_get_value g) s in
       (each_do cg_set_value (writes_to f (drop (length (om_trace s)) (om_trace s'))) (g\<lparr> cg_pending := False \<rparr>), s'))"

definition at_ratio :: choice_group where
  "at_ratio = cg_new [(''false'', True), (''true'', False)]"

lemma cg_get_set:
  assumes "cg_rendered g" and "to_str v \<in> ci_value ` set (cg_items g)"
  shows "cg_get_value (cg_set_value v g) = Str (to_str v)"
proof -
  have "find ci_dom (List.map (\<lambda>r. r\<lparr> ci_dom := (ci_value r = to_str v) \<rparr>) its) = None \<longleftrightarrow> to_str v \<notin> ci_value ` set its"
    "find ci_dom (List.map (\<lambda>r. r\<lparr> ci_dom := (ci_value r = to_str v) \<rparr>) its) = Some r \<Longrightarrow> ci_value r = to_str v" for its r
    by (induction its) (auto split: if_splits)
  then show ?thesis using assms by (auto simp: cg_get_value_def cg_set_value_def split: option.split)
qed

lemma cg_render_item_values: "i < length its \<Longrightarrow> List.map ci_value (cg_render_item i its) = List.map ci_value its"
  by (rule nth_equalityI) (auto simp: cg_render_item_def nth_enumerate_eq nth_list_update)

lemma cg_render_values: "List.map ci_value (each_do cg_render_item [0..<n] its) = List.map ci_value its"
  if "n \<le> length its" for n
  using that
proof (induction n)
  case (Suc n)
  then have "length (each_do cg_render_item [0..<n] its) = length its" by (metis Suc_leD length_map)
  then show ?case using Suc by (simp add: cg_render_item_values)
qed simp

text \<open>A value of one of the buttons is read back as its text, whether it was set before or after the group was rendered.\<close>

theorem choice_value_back:
  assumes "to_str v \<in> fst ` set its"
  shows "cg_get_value (cg_set_value v (cg_render (cg_new its))) = Str (to_str v) \<and> cg_get_value (cg_render (cg_set_value v (cg_new its))) = Str (to_str v)"
proof -
  let ?is = "each_do cg_render_item [0..<length its] (cg_items (cg_new its))"
  have "List.map ci_value ?is = List.map fst its"
    using cg_render_values[of "length its" "cg_items (cg_new its)"] by (simp add: cg_new_def comp_def case_prod_unfold)
  then have v: "to_str v \<in> ci_value ` set ?is" using assms by (metis image_set)
  let ?g = "(cg_new its)\<lparr> cg_rendered := True, cg_items := ?is \<rparr>"
  have "cg_render (cg_new its) = ?g" by (simp add: cg_render_def cg_after_render_def cg_new_def)
  moreover have "cg_render (cg_set_value v (cg_new its)) = cg_set_value v ?g"
    by (simp add: cg_render_def cg_after_render_def cg_new_def cg_set_value_def)
  ultimately show ?thesis using cg_get_set[of ?g v] v by simp
qed

theorem choice_value_back_witness: "cg_get_value (cg_render (cg_set_value (Bool True) at_ratio)) = Str ''true''"
  using choice_value_back[of "Bool True" "[(''false'', True), (''true'', False)]"] by (simp add: at_ratio_def)

text \<open>A value that is set reaches the elements only, not the components: a click on a button whose component was checked all along
  shows it as chosen, but the group is told nothing.\<close>

lemma loaded_click:
  "cg_get_value (cg_click 0 (cg_set_value (Bool True) (cg_render at_ratio))) = Str ''false''
   \<and> cg_buffer_checked f (cg_click 0 (cg_set_value (Bool True) (cg_render at_ratio)), s)
     = (cg_click 0 (cg_set_value (Bool True) (cg_render at_ratio)), s)"
proof -
  have "cg_render at_ratio = \<lparr> cg_items = [\<lparr> ci_value = ''false'', ci_checked = True, ci_dom = True \<rparr>,
      \<lparr> ci_value = ''true'', ci_checked = False, ci_dom = False \<rparr>], cg_rendered = True, cg_lazy = None, cg_pending = False \<rparr>"
    by code_simp
  then show ?thesis by (simp add: cg_click_def cg_set_value_def cg_get_value_def cg_buffer_checked_def)
qed

text \<open>Components and elements agree: what a group is in after it was rendered and clicked, without a value set.\<close>

definition cg_agrees :: "choice_group \<Rightarrow> bool" where
  "cg_agrees g = (cg_rendered g \<and> (\<forall>r \<in> set (cg_items g). ci_checked r = ci_dom r))"

lemma cg_set_value_simps [simp]:
  "cg_rendered (cg_set_value v g) = cg_rendered g" "List.map ci_value (cg_items (cg_set_value v g)) = List.map ci_value (cg_items g)"
  by (simp_all add: cg_set_value_def)

lemma cg_set_again:
  assumes "cg_rendered g" and "to_str w \<in> set (List.map ci_value (cg_items g))" and "set ws \<subseteq> {w}" and "cg_get_value g = Str (to_str w)"
  shows "cg_get_value (each_do cg_set_value ws g) = Str (to_str w)"
  using assms
proof (induction ws arbitrary: g)
  case (Cons v ws)
  have "cg_get_value (cg_set_value w g) = Str (to_str w)" using Cons.prems by (intro cg_get_set) auto
  then have "cg_get_value (each_do cg_set_value ws (cg_set_value w g)) = Str (to_str w)"
    using Cons.prems by (intro Cons.IH) auto
  moreover have "v = w" using Cons.prems(3) by simp
  ultimately show ?case by (simp only: each_do.simps)
qed simp

lemma om_update_one_writes:
  "set (writes_to f (drop (length (om_trace s)) (om_trace (om_update_one k v s)))) \<subseteq> {convert_value_type (om_get_default s k) v}"
  by (auto simp: om_update_one_def om_fire_eq Let_def writes_to_def field_writes_def)

lemma click_agrees: "cg_agrees g \<Longrightarrow> \<not> ci_checked (cg_items g ! i) \<Longrightarrow> cg_agrees (cg_click i g)"
  by (auto simp: cg_agrees_def cg_click_def in_set_enumerate_eq)

text \<open>While components and elements agree a click on the other button changes the option to what the button stands for, and
  the group shows it.\<close>

lemma click_recorded:
  assumes "cg_agrees g" and "List.map ci_value (cg_items g) = [''false'', ''true'']" and "i < 2" and "\<not> ci_checked (cg_items g ! i)"
    and "map_of (om_doption s) f = Some k" and "om_inv s" and "om_get_default s k = Bool b"
  shows "case cg_buffer_checked f (cg_click i g, s) of (h, t) \<Rightarrow>
    om_get t k = Bool (i = 1) \<and> cg_get_value h = Str (if i = 1 then ''true'' else ''false'')"
proof -
  obtain x y where xy: "cg_items g = [x, y]" "ci_value x = ''false''" "ci_value y = ''true''"
    using assms(2) by (auto simp: length_Suc_conv map_eq_Cons_conv)
  let ?g = "cg_click i g" and ?v = "if i = 1 then ''true'' else ''false''"
  have i: "i = 0 \<or> i = 1" using assms(3) by auto
  have v: "cg_get_value ?g = Str ?v" and vs: "List.map ci_value (cg_items ?g) = [''false'', ''true'']" and r: "cg_rendered ?g" "cg_pending ?g"
    using i assms(1,4) xy by (auto simp: cg_click_def cg_get_value_def cg_agrees_def)
  let ?t = "om_update_one k (Str ?v) s"
  have c: "convert_value_type (Bool b) (Str ?v) = Bool (i = 1)"
    using i by (auto simp: convert_value_type_def lower_def lower_char_def Let_def)
  have t: "om_on_field_change f (Str ?v) s = ?t" using assms(5) by (simp add: om_on_field_change_def om_update_def)
  have "om_get ?t k = Bool (i = 1)"
    using om.upd_get[of s k "Str ?v"] assms(6,7) c by (simp add: plain_update_def)
  moreover have "cg_get_value (each_do cg_set_value (writes_to f (drop (length (om_trace s)) (om_trace ?t))) (?g\<lparr> cg_pending := False \<rparr>))
      = Str (to_str (Bool (i = 1)))"
    using om_update_one_writes[of f s k "Str ?v"] assms(7) c vs r v i by (intro cg_set_again) (auto simp: cg_get_value_def)
  ultimately show ?thesis using t v r by (simp add: cg_buffer_checked_def Let_def)
qed

end
