(* ===== verification/Spec2Isabelle.thy ===== *)
theory Spec2Isabelle
  imports MultiOptions Events RpcClient Poll Connection Statusbar TorrentMenu Trackers AddWindow DetailsFiles DetailsTabs DetailsOptions PrefPages Scheduler Label PluginPages AutoAdd GridView Spinner TreeGrid PluginLife InfoWindows FormWidgets
begin

text \<open>
  \<^bold>\<open>The web interface of Deluge\<close>

  Deluge is a BitTorrent client: a daemon in Python, and several interfaces to it. The
  interface verified here is the one in JavaScript that runs in a browser
  (src/deluge/ui/web/js/deluge-all, on the library Ext JS 3.4 with the additions in
  js/extjs/ext-extensions) with the pages its plugins add (src/deluge/plugins/*/*/data).
  It asks the web server of Deluge by JSON-RPC for the state of the torrents, shows it,
  and sends what the user changes.

  \<^bold>\<open>Parts of the program and how they interact\<close>

  \<^item> The client (Client.js) sends requests and hands the replies to the callbacks of the
    caller. All other parts reach the daemon through it only.
  \<^item> The controller (UI.js) polls the daemon every two seconds, hands each reply to the
    torrent grid, the filter sidebar and the status bar, checks the connection, and loads
    and unloads plugins. The events manager (EventsManager.js) keeps a long poll of its own.
  \<^item> The connection manager and the login window come before everything else.
  \<^item> The grid (TorrentGrid.js) has the torrents as records; its selection drives the details
    panel with its tabs, the torrent menu and the toolbar with the windows for trackers,
    removing and moving.
  \<^item> The Add window collects torrents, their options and the files to download, and sends
    them with one request.
  \<^item> Options managers (OptionsManager.js, MultiOptionsManager.js) stand between forms and
    options: the preferences, the options tab and the Add window are clients of theirs.
  \<^item> Plugins add pages to the preferences, menus and columns.

  \<^bold>\<open>Theories\<close>

  Foundations, used by all others:
  \<^item> \<open>Prelude\<close>: objects as association lists in insertion order (\<open>put\<close>, \<open>del\<close>), loops over lists
    (\<open>each_do\<close>) with their invariant rule, decimal texts of integers, splitting and joining,
    and the collections \<open>obj_simps\<close> and \<open>inv_intros\<close>.
  \<^item> \<open>JSDouble\<close>, \<open>DoubleBounds\<close>: the numbers of the language. A finite double is the rational it
    denotes, an operation rounds the exact result to the nearest double, ties to even.
  \<^item> \<open>JSValue\<close>: values (\<open>jsval\<close>, arrays and objects with the number that identifies them), truth,
    conversion, \<open>==\<close>, comparison, and the type tests of Ext.
  \<^item> \<open>RecordStore\<close>: stores of records, the synchronisation of a store with a reply, stable
    sorting. \<open>Timers\<close>: timers of the browser. \<open>FileTree\<close>: directories in replies and nodes of trees.
    \<open>ExtForm\<close>: values of form fields and grids with editors.

  Components; the prefix of its definitions is given in brackets:
  \<^item> \<open>Options\<close> (om), \<open>MultiOptions\<close> (mo): both options managers; an update by id is, seen through the
    selected id, an update of the plain manager (\<open>mo_update_refines_om\<close>).
  \<^item> \<open>RpcClient\<close> (rpc), \<open>Events\<close> (em), \<open>Poll\<close> (ui): requests, long poll and controller as state
    machines, with their reachable states and what is kept in them.
  \<^item> \<open>Formatters\<close> (fmt), \<open>GridRender\<close>: Formatters.js, Keys.js, helpers of Deluge.js, renderers,
    sort functions, column tables.
  \<^item> \<open>TorrentGrid\<close> (grid, peers), \<open>GridView\<close> (bv): the rows of both grids, their update, selection and
    order; which rows are drawn (BufferView.js).
  \<^item> \<open>Sidebar\<close> (panel, sidebar), \<open>Connection\<close> (cm, lw), \<open>Statusbar\<close> (sb, menus of limits),
    \<open>TorrentMenu\<close> (menus, toolbar, removing, moving), \<open>Trackers\<close> (tracker windows).
  \<^item> \<open>AddOptions\<close> (op), \<open>AddWindow\<close> (aw): the Add window with its options panel, files and address window.
  \<^item> \<open>DetailsFiles\<close> (ft), \<open>DetailsTabs\<close> (st, dt), \<open>DetailsOptions\<close> (ot, dp): the tabs of the details.
  \<^item> \<open>TreeSort\<close> (ts), \<open>TreeGrid\<close> (tgd): order, columns, widths, cells and headers of the trees of files.
  \<^item> \<open>Preferences\<close> (pw), \<open>PrefPages\<close> (ip, px, pp): the window, the fields of its forms, the interface and
    proxy pages, the list of plugins, and Plugin.js.
  \<^item> \<open>Scheduler\<close> (sd, sp), \<open>Label\<close> (lo, lp), \<open>PluginPages\<close> (np, bp, xp, ep), \<open>AutoAdd\<close> (ad, ww),
    \<open>PluginLife\<close> (pl, aa): the plugins and how their pages come and go.
  \<^item> \<open>Spinner\<close> (sf, sg), \<open>FormWidgets\<close> (uf, tf, cg), \<open>InfoWindows\<close> (mg, ab, sw): number fields with
    arrows and their groups; the choice of files, fields with a switch and groups of radio buttons; the
    magnet and About windows and the status element.

  This theory composes the radio buttons of the queue page, the options manager of the preferences
  and the request of Apply: what a click on a button sends to the daemon (\<open>ratio_choice_sent\<close>), and when
  it sends nothing (\<open>ratio_choice_lost\<close>).

  \<^bold>\<open>How code is translated\<close>

  The state of a class is a record with the fields its methods read and write. A method is
  a function from the state to the state; what leaves the component (requests, messages,
  events, calls of widgets) is appended to a trace in the order of the code. Replies, clicks,
  timers and events of the browser are operations of their own, so that they can be
  interleaved freely: the reachable states of a component are an inductive predicate
  (\<open>rpc_reachable\<close>, \<open>em_reachable\<close>, \<open>ui_connected_run\<close>, \<open>cm_run\<close>, \<open>aw_reach\<close>, \<open>lo_reach\<close>, \<open>calm\<close>) or the
  runs of a step function over a list of events. Exceptions are the values \<open>Inl TypeError\<close>
  of a result, or a throw in the trace; what was changed before them stays changed.
  Objects that are shared and written in place (the file priorities of a torrent) have an
  identity. Names, texts and orders of keys are those of the source.

  \<^bold>\<open>Interfaces\<close>

  \<^item> \<open>option_store\<close> (in Options): what reading after an update gives, and the invariant; interpreted by
    both managers (\<open>om\<close>, \<open>mo\<close>).
  \<^item> \<open>record_store\<close> (in RecordStore): lookup, insertion and removal of records, with adding the new and
    removing the gone proved once; interpreted on the stores of the grids (\<open>rows\<close>).
  \<^item> \<open>timer_service\<close> (in Timers): arming and clearing; interpreted on the timers of the browser (\<open>tm\<close>).
  \<^item> \<open>config_page\<close> (in ExtForm): a page that shows a configuration and sends it back; interpreted on the
    pages of Notifications, Blocklist and Extractor (\<open>noti\<close>, \<open>bl\<close>, \<open>ep\<close>).

  \<^bold>\<open>What the lemmas show\<close>

  \<^item> Synchronisation: after a reply, grid, peers, sidebar and trees show exactly what the reply has
    (\<open>grid_update_sync\<close>, \<open>sidebar_update_sync\<close>, \<open>update_tree_as_created\<close>, \<open>poll_reply_updates\<close>).
  \<^item> Invariants of reachable states: types of options, unique request ids, consistency of rows and
    selection, of the Add window, of the widths of columns; one poll outstanding or one timer armed.
  \<^item> What is sent is what was shown and chosen: preferences, priorities, torrents with options, labels,
    subscriptions, watch folders, hours of the scheduler.
  \<^item> Numbers and texts: sizes and times exact to the digit on doubles, number fields within bounds,
    rows in sight drawn, names of files free of markup.
  \<^item> Behaviour on errors and of late replies, which is where the code deviates from what it means to
    do; each such deviation is a theorem about the translated code.

  \<^bold>\<open>Bounds and fuel\<close>

  The shortest decimal text of a double needs at most 17 digits; the search tries 1 to 18. The
  decimal exponent of a double is between -324 and 308; the search for it gets 400 steps. The
  loop that pads with zeros is a \<open>partial_function\<close>, and \<open>zero_pad_ends\<close> shows that it returns. All other
  recursions have termination proofs. Integers in statements are below 2 to the 53 where
  doubles count exactly, and pixels below 2 to the 31.

  \<^bold>\<open>Not modelled\<close>

  \<^item> Ext JS itself (ext-base, ext-all) is third-party code; single methods of it that the interface
    relies on are translated where they are used, with their lines in the map.
  \<^item> Layout, styles and the drawing of widgets: attributes without an effect on state or requests.
  \<^item> FileBrowser.js (a toolbar without handlers), Infohash.js (a name space), the scripts of the Stats
    and Toggle plugins: no behaviour. docs.js: the template of the documentation. JSLoader.js runs the script it has loaded; what a script does is its component.
  \<^item> The Python parts (daemon, web server, GTK and console interfaces), tests and build files:
    their replies are inputs of the model.
  \<^item> The sign of zero, and characters beyond Latin-1 in upper and lower case.
\<close>

section \<open>From a click to the daemon\<close>

text \<open>The group of radio buttons of the queue page is a field of the options manager of the preferences window, and Apply
  sends what the manager has recorded.\<close>

definition ratio_option :: string where
  "ratio_option = ''remove_seed_at_ratio''"

lemma dirty_when_changed: "om_get s k \<noteq> om_get_default s k \<Longrightarrow> oget (om_changed s) k = om_get s k \<and> om_changed s \<noteq> []"
  by (auto simp: om_get_def om_get_default_def om_is_dirty_def)

lemma apply_sends_changed:
  assumes "om_get (pw_om w) k \<noteq> om_get_default (pw_om w) k" and "k \<noteq> ''listen_ports''"
  shows "\<exists>ch ps. pw_trace (pw_on_apply w) = pw_trace w @ ReqSetConfig ch # ps \<and> oget ch k = om_get (pw_om w) k"
  using dirty_when_changed[OF assms(1)] assms(2) by (simp add: pw_on_apply_result(1) double_ports_simps(3))

lemma buffer_default: "om_get_default (snd (cg_buffer_checked f (g, s))) k = om_get_default s k"
proof -
  have "cg_get_value g \<noteq> Undef" by (simp add: cg_get_value_def split: option.split)
  then show ?thesis
    by (simp add: cg_buffer_checked_def om_get_default_def om_on_field_change_def om_update_def Let_def split: option.split)
qed

text \<open>C39: A choice between pausing and removing torrents at their ratio reaches the daemon: while the buttons agree with their
  components, a click on the other one followed by Apply sends the new choice.\<close>

theorem ratio_choice_sent:
  assumes "cg_agrees g" and "List.map ci_value (cg_items g) = [''false'', ''true'']" and "i < 2" and "\<not> ci_checked (cg_items g ! i)"
    and "map_of (om_doption (pw_om w)) f = Some ratio_option" and "om_inv (pw_om w)" and "om_get_default (pw_om w) ratio_option = Bool (i \<noteq> 1)"
  shows "\<exists>ch ps. pw_trace (pw_on_apply (w\<lparr> pw_om := snd (cg_buffer_checked f (cg_click i g, pw_om w)) \<rparr>)) = pw_trace w @ ReqSetConfig ch # ps
    \<and> oget ch ratio_option = Bool (i = 1)"
proof -
  let ?t = "snd (cg_buffer_checked f (cg_click i g, pw_om w))"
  have get: "om_get ?t ratio_option = Bool (i = 1)" using click_recorded[OF assms] by (simp split: prod.splits)
  moreover have "om_get_default ?t ratio_option = Bool (i \<noteq> 1)" using assms(7) by (simp add: buffer_default)
  ultimately show ?thesis using apply_sends_changed[of "w\<lparr> pw_om := ?t \<rparr>" ratio_option] by (simp add: ratio_option_def)
qed

definition ratio_window :: "bool \<Rightarrow> pref_window" where
  "ratio_window b = pw_new\<lparr> pw_om := om_bind ratio_option 7 (om_new [(ratio_option, Bool b)]) \<rparr>"

lemma ratio_window_simps [simp]:
  "map_of (om_doption (pw_om (ratio_window b))) 7 = Some ratio_option" "om_inv (pw_om (ratio_window b))"
  "om_get_default (pw_om (ratio_window b)) ratio_option = Bool b" "om_changed (pw_om (ratio_window b)) = []"
  by (simp_all add: ratio_window_def om_bind_def om_new_def om_get_default_def oget_def om_inv_def changes_ok_Nil)

theorem ratio_choice_sent_witness:
  "\<exists>ch ps. pw_trace (pw_on_apply ((ratio_window False)\<lparr> pw_om := snd (cg_buffer_checked 7 (cg_click 1 (cg_render at_ratio),
      pw_om (ratio_window False))) \<rparr>)) = pw_trace (ratio_window False) @ ReqSetConfig ch # ps \<and> oget ch ratio_option = Bool True"
proof -
  have g: "cg_agrees (cg_render at_ratio)" "List.map ci_value (cg_items (cg_render at_ratio)) = [''false'', ''true'']"
    "\<not> ci_checked (cg_items (cg_render at_ratio) ! 1)" unfolding cg_agrees_def by code_simp+
  show ?thesis using ratio_choice_sent[OF g(1,2) _ g(3), of "ratio_window False" 7] by simp
qed

text \<open>C40: Once the configuration has chosen to remove torrents, a click on Pause torrent followed by Apply sends nothing: the value that
  was loaded reached the elements only, so the component of the button clicked has not changed.\<close>

theorem ratio_choice_lost:
  assumes "om_changed (pw_om w) = []"
  shows "case cg_buffer_checked f (cg_click 0 (cg_set_value (Bool True) (cg_render at_ratio)), pw_om w) of (g, s) \<Rightarrow>
    cg_get_value g = Str ''false'' \<and> (\<forall>ch. ReqSetConfig ch \<notin> set (drop (length (pw_trace w)) (pw_trace (pw_on_apply (w\<lparr> pw_om := s \<rparr>)))))"
proof -
  have "pw_trace (pw_on_apply w) = pw_trace w @ List.map PageApply (apply_pages w)" using assms
    by (simp add: pw_on_apply_def om_get_dirty_def is_object_empty_def pages_told apply_pages_def Let_def case_prod_beta comp_def)
  then show ?thesis using loaded_click[of f "pw_om w"] by auto
qed

theorem ratio_choice_lost_witness:
  "case cg_buffer_checked 7 (cg_click 0 (cg_set_value (Bool True) (cg_render at_ratio)), pw_om (ratio_window True)) of (g, s) \<Rightarrow>
    cg_get_value g = Str ''false'' \<and> (\<forall>ch. ReqSetConfig ch \<notin> set (drop (length (pw_trace (ratio_window True)))
      (pw_trace (pw_on_apply ((ratio_window True)\<lparr> pw_om := s \<rparr>)))))"
  by (rule ratio_choice_lost) simp

end
